(* ===== verification/Prelude.thy ===== *)
theory Prelude
  imports Main "HOL-Library.Word" "HOL-Library.Signed_Division"
begin

text \<open>
  Shared vocabulary of the development.

  A Go \<open>[]byte\<close> and a Go \<open>string\<close> are both finite sequences of 8-bit units, and the code
  converts between them freely (\<open>string(f.bytes)\<close>, \<open>[]byte(value)\<close>); HOL's \<^typ>\<open>char\<close> has
  exactly 256 values, so both are \<^typ>\<open>char list\<close> here and the conversions are the identity.
  Go's \<open>int\<close>, \<open>int64\<close> and \<open>uint64\<close> are 64-bit words; a signed reading is written \<^const>\<open>sint\<close>.

  A Go function with result \<open>(T, error)\<close> becomes one of type \<open>go_error + 'a\<close> when its
  callers drop the value on an error.  A closure that mutates captured variables
  becomes a function from the old variables to the new ones together with the error it
  returned, so that what it wrote before failing is not lost.
\<close>

type_synonym bytes = string
type_synonym uint64 = "64 word"
type_synonym uint32 = "32 word"

text \<open>Rewrite rules that run a parser over the output of an encoder.\<close>
named_theorems wire_simps

text \<open>Rewrite rules for 32-bit truncation and sign extension.\<close>
named_theorems trunc_simps

section \<open>Results\<close>

abbreviation ok :: "'s \<Rightarrow> 's \<times> 'e option" where
  "ok s \<equiv> (s, None)"

abbreviation fail :: "'s \<Rightarrow> 'e \<Rightarrow> 's \<times> 'e option" where
  "fail s e \<equiv> (s, Some e)"

text \<open>Turning the \<open>(value, error)\<close> pair of a Go function into a sum.\<close>

definition result_of :: "'s \<times> 'e option \<Rightarrow> 'e + 's" where
  "result_of r = (case snd r of None \<Rightarrow> Inr (fst r) | Some e \<Rightarrow> Inl e)"

lemma result_of_ok [simp]: "result_of (ok s) = Inr s"
  and result_of_fail [simp]: "result_of (fail s e) = Inl e"
  by (simp_all add: result_of_def)

lemma result_of_eq_Inr: "result_of r = Inr s \<longleftrightarrow> r = ok s"
  by (cases r) (auto simp: result_of_def split: option.splits)

text \<open>The monadic sequence of two fallible computations.\<close>

definition bind_res :: "'e + 'a \<Rightarrow> ('a \<Rightarrow> 'e + 'b) \<Rightarrow> 'e + 'b" where
  "bind_res r f = (case r of Inl e \<Rightarrow> Inl e | Inr x \<Rightarrow> f x)"

lemma bind_res_simps [simp]:
  "bind_res (Inl e) f = Inl e"
  "bind_res (Inr x) f = f x"
  by (simp_all add: bind_res_def)

lemma bind_res_eq_Inr: "bind_res r f = Inr y \<longleftrightarrow> (\<exists>x. r = Inr x \<and> f x = Inr y)"
  by (cases r) simp_all

lemma bind_res_cong [fundef_cong]:
  assumes "r = r'" and "\<And>x. r' = Inr x \<Longrightarrow> f x = f' x"
  shows "bind_res r f = bind_res r' f'"
  using assms by (cases r') simp_all

text \<open>Running a fallible function over a list, left to right, stopping at the first error.\<close>

fun map_res :: "('a \<Rightarrow> 'e + 'b) \<Rightarrow> 'a list \<Rightarrow> 'e + 'b list" where
  "map_res f [] = Inr []"
| "map_res f (x # xs) = bind_res (f x) (\<lambda>y. bind_res (map_res f xs) (\<lambda>ys. Inr (y # ys)))"

lemma map_res_cong [fundef_cong]:
  assumes "xs = ys" and "\<And>x. x \<in> set ys \<Longrightarrow> f x = g x"
  shows "map_res f xs = map_res g ys"
  unfolding assms(1) using assms(2) by (induction ys) (auto intro: bind_res_cong)

lemma map_res_Inr: "(\<And>x. x \<in> set xs \<Longrightarrow> f x = Inr (g x)) \<Longrightarrow> map_res f xs = Inr (map g xs)"
  by (induction xs) simp_all

lemma map_res_length: "map_res f xs = Inr ys \<Longrightarrow> length ys = length xs"
  by (induction xs arbitrary: ys) (auto simp: bind_res_eq_Inr)

text \<open>Iterating a state transformer that may fail: Go's \<open>for ... range\<close> with an early return.\<close>

fun fold_res :: "('a \<Rightarrow> 's \<Rightarrow> 's \<times> 'e option) \<Rightarrow> 'a list \<Rightarrow> 's \<Rightarrow> 's \<times> 'e option" where
  "fold_res f [] s = ok s"
| "fold_res f (x # xs) s = (case f x s of (s', None) \<Rightarrow> fold_res f xs s' | (s', Some e) \<Rightarrow> fail s' e)"

lemma fold_res_ok: "(\<And>x s. x \<in> set xs \<Longrightarrow> f x s = ok (g x s)) \<Longrightarrow> fold_res f xs s = ok (fold g xs s)"
  by (induction xs arbitrary: s) simp_all

lemma fold_res_append:
  "fold_res f (xs @ ys) s =
     (case fold_res f xs s of (s', None) \<Rightarrow> fold_res f ys s' | (s', Some e) \<Rightarrow> fail s' e)"
  by (induction xs arbitrary: s) (auto split: prod.splits option.splits)

lemma fold_res_invariant:
  assumes "P s" and "\<And>x s. x \<in> set xs \<Longrightarrow> P s \<Longrightarrow> P (fst (f x s))"
  shows "P (fst (fold_res f xs s))"
  using assms
proof (induction xs arbitrary: s)
  case Nil
  then show ?case by simp
next
  case (Cons x xs)
  have "P (fst (f x s))" using Cons.prems by simp
  moreover have "P (fst (fold_res f xs s'))" if "P s'" for s'
    using that Cons.prems(2) by (intro Cons.IH) auto
  ultimately show ?case
    by (cases "f x s") (auto split: option.splits)
qed

section \<open>Fixed-width conversions\<close>

text \<open>Go's \<open>int(int32(v))\<close> keeps the low 32 bits and sign-extends them; \<open>uint32(v)\<close> drops the rest.\<close>

definition int_of_int32 :: "uint64 \<Rightarrow> uint64" where
  "int_of_int32 v = scast (ucast v :: uint32)"

definition fits_int32 :: "uint64 \<Rightarrow> bool" where
  "fits_int32 v \<longleftrightarrow> - (2 ^ 31) \<le> sint v \<and> sint v < 2 ^ 31"

lemma sint_int_of_int32: "sint (int_of_int32 v) = signed_take_bit 31 (uint v)"
proof -
  have "sint (scast (ucast v :: uint32) :: uint64) = sint (ucast v :: uint32)"
    by (rule sint_up_scast) (simp add: is_up)
  also have "\<dots> = signed_take_bit 31 (uint v)"
    by (simp add: sint_uint unsigned_ucast_eq take_bit_word_eq_self signed_take_bit_take_bit)
  finally show ?thesis by (simp add: int_of_int32_def)
qed

lemma int_of_int32_fits [trunc_simps]:
  assumes "fits_int32 v"
  shows "int_of_int32 v = v"
proof -
  have v: "signed_take_bit 31 (sint v) = sint v"
    using assms by (simp add: fits_int32_def signed_take_bit_int_eq_self)
  have "sint (int_of_int32 v) = signed_take_bit 31 (sint v)"
    unfolding sint_int_of_int32 by (simp add: sint_uint)
  then show ?thesis by (intro signed_word_eqI) (simp only: v)
qed

lemma fits_int32_int_of_int32: "fits_int32 (int_of_int32 v)"
  using signed_take_bit_int_greater_eq_minus_exp [of 31 "uint v"]
    signed_take_bit_int_less_exp [of 31 "uint v"]
  by (simp add: fits_int32_def sint_int_of_int32)

lemma int_of_int32_eq: "int_of_int32 v = v \<longleftrightarrow> fits_int32 v"
  using fits_int32_int_of_int32 [of v] int_of_int32_fits [of v] by auto

text \<open>Go's \<open>/\<close> and \<open>%\<close> on signed integers truncate towards zero.\<close>

definition go_div :: "uint64 \<Rightarrow> uint64 \<Rightarrow> uint64" where
  "go_div x y = word_of_int (sint x sdiv sint y)"

definition go_mod :: "uint64 \<Rightarrow> uint64 \<Rightarrow> uint64" where
  "go_mod x y = word_of_int (sint x smod sint y)"

section \<open>Little-endian digits\<close>

fun le_bytes :: "nat \<Rightarrow> nat \<Rightarrow> bytes" where
  "le_bytes 0 n = []"
| "le_bytes (Suc k) n = char_of (n mod 256) # le_bytes k (n div 256)"

fun le_value :: "bytes \<Rightarrow> nat" where
  "le_value [] = 0"
| "le_value (c # cs) = of_char c + 256 * le_value cs"

lemma length_le_bytes [simp]: "length (le_bytes k n) = k"
  by (induction k arbitrary: n) simp_all

lemma le_value_le_bytes: "le_value (le_bytes k n) = n mod 256 ^ k"
proof (induction k arbitrary: n)
  case (Suc k)
  have "n mod 256 + 256 * (n div 256 mod 256 ^ k) = n mod (256 * 256 ^ k)"
    by (simp add: mod_mult2_eq)
  with Suc show ?case by simp
qed simp

lemma le_value_bound: "le_value b < 256 ^ length b"
proof (induction b)
  case (Cons c b)
  have "of_char c < (256 :: nat)" by simp
  then have "le_value (c # b) < 256 * Suc (le_value b)" by simp
  also have "\<dots> \<le> 256 * 256 ^ length b" using Cons by (intro mult_le_mono2) simp
  finally show ?case by simp
qed simp

lemma le_bytes_le_value: "le_bytes (length b) (le_value b) = b"
  by (induction b) simp_all

text \<open>A word that is not negative as an \<open>int64\<close> has the same value as a \<open>uint64\<close>.\<close>

lemma unat_nonneg: "0 \<le> sint (x :: uint64) \<Longrightarrow> int (unat x) = sint x"
proof -
  assume "0 \<le> sint x"
  then have "\<not> bit x 63" using bit_last_iff [of x] by simp
  then have "\<not> bit (unat x) 63" by (simp add: bit_unsigned_iff)
  then have "even (unat x div 2 ^ 63)" unfolding bit_iff_odd by (rule notnotD)
  moreover have "unat x < 2 * 2 ^ 63" using unsigned_less [of x] by simp
  then have "unat x div 2 ^ 63 < 2" by (rule less_mult_imp_div_less)
  ultimately have "unat x div 2 ^ 63 = 0" by (cases "unat x div 2 ^ 63") auto
  then have "unat x < 2 ^ 63" by (simp add: div_eq_0_iff)
  then have "int (unat x) < 2 ^ 63" by (simp flip: of_nat_less_iff [where 'a = int])
  then have "sint x = uint x"
    unfolding sint_uint by (intro signed_take_bit_int_eq_self) (simp_all, rule order.trans [OF _ uint_ge_0], simp)
  then show ?thesis by simp
qed

end
