(* ===== verification/Errors.thy ===== *)
theory Errors
  imports Prelude
begin

text \<open>
  The error values of the package (\<open>errors.go\<close>, the data types of \<open>exception_data.go\<close>)
  and Go's \<open>fmt.Errorf\<close>.  An error made by \<open>fmt.Errorf\<close> is kept as its format string and
  its arguments, and \<open>error_text\<close> renders it the way \<open>Error()\<close> does.
\<close>

section \<open>Structured exception payloads\<close>

text \<open>\<open>ExceptionData\<close> is an interface with two implementations; a nil interface is \<^const>\<open>None\<close>.\<close>

record unicode_error_data =
  ud_Encoding :: string
  ud_ObjectBytes :: bytes
  ud_ObjectString :: "string option"
  ud_Start :: uint64
  ud_End :: uint64
  ud_Reason :: string

record json_error_data =
  jd_Message :: string
  jd_Document :: "string option"
  jd_Position :: uint64
  jd_Line :: uint64
  jd_Column :: uint64

datatype exception_data =
    UnicodeErrorData unicode_error_data
  | JSONErrorData json_error_data

section \<open>Execution errors\<close>

record stack_frame =
  sf_Filename :: string
  sf_Line :: uint32
  sf_Column :: uint32
  sf_EndLine :: uint32
  sf_EndColumn :: uint32
  sf_FrameName :: string
  sf_PreviewLine :: string
  sf_HideCaret :: bool
  sf_HideFrameName :: bool

record raised_exception =
  ex_Type :: string
  ex_Message :: string
  ex_Frames :: "stack_frame list"
  ex_Data :: "exception_data option"

text \<open>
  The dynamic types an \<open>error\<close> value can have.  \<open>ParseError n\<close> is the error that
  \<open>protowire.ParseError\<close> makes of the negative length \<open>n\<close>.  \<open>NoProgress\<close> stands for a
  parse loop that never ends or slices out of range: it is unreachable when the wire
  primitives keep their contract.  \<open>OutOfFuel\<close> marks the exhausted recursion bound
  of a model function; the theorems show that the bounds used are never exhausted.
\<close>

datatype go_error =
    ParseError int
  | Errorf string "fmt_arg list"
  | HostError string string "exception_data option"
  | RuntimeError raised_exception
  | SyntaxError raised_exception
  | RaisedValue raised_exception
  | RaisedPtr raised_exception
  | TypingError string
  | ProtocolError string
  | CrashedError string bool string "go_error option"
  | DeadlineExceeded
  | Canceled
  | EOF
  | UnexpectedEOF
  | NoProgress
  | OutOfFuel
  and fmt_arg = AInt int | AStr string | AErr go_error

text \<open>Errors that the code itself can return, and computations that return one of them or a value.\<close>

definition real_error :: "go_error \<Rightarrow> bool" where
  "real_error e \<longleftrightarrow> e \<noteq> OutOfFuel \<and> e \<noteq> NoProgress"

definition returns :: "go_error + 'a \<Rightarrow> bool" where
  "returns r \<longleftrightarrow> (\<forall>e. r = Inl e \<longrightarrow> real_error e)"

lemma real_error_simps [simp]:
  "real_error (Errorf f as)" "real_error (ParseError n)" "real_error (ProtocolError m)"
  "\<not> real_error OutOfFuel" "\<not> real_error NoProgress"
  by (simp_all add: real_error_def)

lemma returns_simps [simp]: "returns (Inr x)" "returns (Inl e) \<longleftrightarrow> real_error e"
  by (simp_all add: returns_def)

lemma returns_bind: "returns r \<Longrightarrow> (\<And>x. r = Inr x \<Longrightarrow> returns (f x)) \<Longrightarrow> returns (bind_res r f)"
  by (cases r) simp_all

definition simple_raised :: "string \<Rightarrow> string \<Rightarrow> raised_exception" where
  "simple_raised ty msg = \<lparr>ex_Type = ty, ex_Message = msg, ex_Frames = [], ex_Data = None\<rparr>"

text \<open>\<open>RaisedException.Error\<close> and \<open>HostError.Error\<close>.\<close>

definition type_message :: "string \<Rightarrow> string \<Rightarrow> string" where
  "type_message ty msg = (if msg = [] then ty else ty @ '': '' @ msg)"

definition RaisedException_Error :: "raised_exception \<Rightarrow> string" where
  "RaisedException_Error e = type_message (ex_Type e) (ex_Message e)"

section \<open>Rendering\<close>

fun decimal_nat :: "nat \<Rightarrow> string" where
  "decimal_nat n =
     (if n < 10 then [char_of (48 + n)] else decimal_nat (n div 10) @ [char_of (48 + n mod 10)])"

declare decimal_nat.simps [simp del]

definition decimal_int :: "int \<Rightarrow> string" where
  "decimal_int i = (if i < 0 then ''-'' @ decimal_nat (nat (- i)) else decimal_nat (nat i))"

text \<open>
  \<open>%q\<close> on text: quotes, backslashes and the named control characters are escaped, other
  control characters and DEL become \<open>\x..\<close>.  Bytes of 128 and more are copied, as
  \<open>strconv.Quote\<close> does for printable UTF-8.
\<close>

definition hex_digit :: "nat \<Rightarrow> char" where
  "hex_digit n = (if n < 10 then char_of (48 + n) else char_of (87 + n))"

definition quote_char :: "char \<Rightarrow> string" where
  "quote_char c =
     (let n = of_char c :: nat in
      if n = 34 \<or> n = 92 then [CHR 0x5C, c]
      else if n = 7 then [CHR 0x5C, CHR ''a'']
      else if n = 8 then [CHR 0x5C, CHR ''b'']
      else if n = 9 then [CHR 0x5C, CHR ''t'']
      else if n = 10 then [CHR 0x5C, CHR ''n'']
      else if n = 11 then [CHR 0x5C, CHR ''v'']
      else if n = 12 then [CHR 0x5C, CHR ''f'']
      else if n = 13 then [CHR 0x5C, CHR ''r'']
      else if n < 32 \<or> n = 127 then [CHR 0x5C, CHR ''x'', hex_digit (n div 16), hex_digit (n mod 16)]
      else [c])"

definition quote_go :: "string \<Rightarrow> string" where
  "quote_go s = [CHR 0x22] @ concat (map quote_char s) @ [CHR 0x22]"

text \<open>
  \<open>sprintf\<close> substitutes the arguments for the verbs in order; \<open>parse_text\<close> is the
  text of a \<open>protowire.ParseError\<close>, which the module does not define.
\<close>

fun sprintf :: "string \<Rightarrow> string list \<Rightarrow> string" where
  "sprintf (c # d # rest) args =
     (if c = CHR ''%'' then
        (case args of [] \<Rightarrow> c # d # sprintf rest []
         | a # args' \<Rightarrow> (if d = CHR ''q'' then quote_go a else a) @ sprintf rest args')
      else c # sprintf (d # rest) args)"
| "sprintf f args = f"

fun error_text :: "(int \<Rightarrow> string) \<Rightarrow> go_error \<Rightarrow> string"
  and arg_text :: "(int \<Rightarrow> string) \<Rightarrow> fmt_arg \<Rightarrow> string" where
  "error_text pt (ParseError n) = pt n"
| "error_text pt (Errorf f args) = sprintf f (map (arg_text pt) args)"
| "error_text pt (HostError ty msg d) = type_message ty msg"
| "error_text pt (RuntimeError x) = RaisedException_Error x"
| "error_text pt (SyntaxError x) = RaisedException_Error x"
| "error_text pt (RaisedValue x) = RaisedException_Error x"
| "error_text pt (RaisedPtr x) = RaisedException_Error x"
| "error_text pt (TypingError d) = ''Monty type checking failed:'' @ [CHR 0x0A] @ d"
| "error_text pt (ProtocolError m) = ''Monty protocol error: '' @ m"
| "error_text pt (CrashedError m to st c) = (if m = [] then ''Monty worker crashed'' else m)"
| "error_text pt DeadlineExceeded = ''context deadline exceeded''"
| "error_text pt Canceled = ''context canceled''"
| "error_text pt EOF = ''EOF''"
| "error_text pt UnexpectedEOF = ''unexpected EOF''"
| "error_text pt NoProgress = []"
| "error_text pt OutOfFuel = []"
| "arg_text pt (AInt i) = decimal_int i"
| "arg_text pt (AStr s) = s"
| "arg_text pt (AErr e) = error_text pt e"

end
