(* ===== verification/Wire.thy ===== *)
theory Wire
  imports Errors
begin

text \<open>
  The protobuf layer of \<open>wire.go\<close> (lines 1-141): the field encoders, the field loop
  \<open>parseFields\<close>, \<open>consumeSingleField\<close> and the length-prefixed frames.

  The primitives of \<open>google.golang.org/protobuf/encoding/protowire\<close> are not part of the
  repository.  They are the record \<open>protowire\<close>, an argument of every definition that uses
  them; what the code relies on is the locale \<open>wire_format\<close>.
\<close>

section \<open>The protowire package\<close>

datatype wire_type =
    VarintType | Fixed64Type | BytesType | StartGroupType | EndGroupType | Fixed32Type
  | ReservedType nat

text \<open>
  The \<open>Append*\<close> functions extend a buffer, the \<open>Consume*\<close> functions return a value and the
  number of bytes read, negative on an error.
\<close>

record protowire =
  AppendTag :: "bytes \<Rightarrow> nat \<Rightarrow> wire_type \<Rightarrow> bytes"
  AppendVarint :: "bytes \<Rightarrow> uint64 \<Rightarrow> bytes"
  AppendFixed64 :: "bytes \<Rightarrow> uint64 \<Rightarrow> bytes"
  AppendBytes :: "bytes \<Rightarrow> bytes \<Rightarrow> bytes"
  ConsumeTag :: "bytes \<Rightarrow> nat \<times> wire_type \<times> int"
  ConsumeVarint :: "bytes \<Rightarrow> uint64 \<times> int"
  ConsumeFixed64 :: "bytes \<Rightarrow> uint64 \<times> int"
  ConsumeFixed32 :: "bytes \<Rightarrow> uint32 \<times> int"
  ConsumeBytes :: "bytes \<Rightarrow> bytes \<times> int"
  ConsumeGroup :: "nat \<Rightarrow> bytes \<Rightarrow> bytes \<times> int"
  EncodeZigZag :: "uint64 \<Rightarrow> uint64"
  DecodeZigZag :: "uint64 \<Rightarrow> uint64"

text \<open>Field numbers that protobuf allows: \<open>MinValidNumber\<close> to \<open>MaxValidNumber\<close>.\<close>

definition valid_tag :: "nat \<Rightarrow> bool" where
  "valid_tag t \<longleftrightarrow> 1 \<le> t \<and> t < 2 ^ 29"

text \<open>
  The documented behaviour the code relies on.  \<open>Append*\<close> appends; \<open>Consume*\<close> reads back
  what the matching \<open>Append*\<close> wrote whatever follows it; a successful \<open>Consume*\<close>
  reads at least one byte and no more than there are; the payload of a length-prefixed
  field is shorter than the bytes read for it.
\<close>

locale wire_format =
  fixes pw :: protowire
  assumes append_tag: "AppendTag pw b t ty = b @ AppendTag pw [] t ty"
    and append_varint: "AppendVarint pw b v = b @ AppendVarint pw [] v"
    and append_fixed64: "AppendFixed64 pw b v = b @ AppendFixed64 pw [] v"
    and append_bytes: "AppendBytes pw b x = b @ AppendBytes pw [] x"
    and consume_tag: "valid_tag t \<Longrightarrow> ty \<in> {VarintType, Fixed64Type, BytesType} \<Longrightarrow>
      ConsumeTag pw (AppendTag pw [] t ty @ rest) = (t, ty, int (length (AppendTag pw [] t ty)))"
    and consume_varint: "ConsumeVarint pw (AppendVarint pw [] v @ rest) = (v, int (length (AppendVarint pw [] v)))"
    and consume_fixed64: "ConsumeFixed64 pw (AppendFixed64 pw [] v @ rest) = (v, int (length (AppendFixed64 pw [] v)))"
    and consume_bytes: "ConsumeBytes pw (AppendBytes pw [] x @ rest) = (x, int (length (AppendBytes pw [] x)))"
    and tag_bounds: "ConsumeTag pw b = (t, ty, n) \<Longrightarrow> 0 \<le> n \<Longrightarrow> 0 < n \<and> nat n \<le> length b \<and> 1 \<le> t"
    and varint_bounds: "ConsumeVarint pw b = (v, n) \<Longrightarrow> 0 \<le> n \<Longrightarrow> 0 < n \<and> nat n \<le> length b"
    and fixed64_bounds: "ConsumeFixed64 pw b = (v, n) \<Longrightarrow> 0 \<le> n \<Longrightarrow> 0 < n \<and> nat n \<le> length b"
    and fixed32_bounds: "ConsumeFixed32 pw b = (w, n) \<Longrightarrow> 0 \<le> n \<Longrightarrow> 0 < n \<and> nat n \<le> length b"
    and bytes_bounds: "ConsumeBytes pw b = (x, n) \<Longrightarrow> 0 \<le> n \<Longrightarrow> 0 < n \<and> nat n \<le> length b \<and> length x < nat n"
    and group_bounds: "ConsumeGroup pw t b = (x, n) \<Longrightarrow> 0 \<le> n \<Longrightarrow> 0 < n \<and> nat n \<le> length b"
    and zigzag: "DecodeZigZag pw (EncodeZigZag pw v) = v"

section \<open>Constants\<close>

definition protocolVersion :: uint64 where "protocolVersion = 5"

definition maxFrameLen :: nat where "maxFrameLen = 256 * 2 ^ 20"

section \<open>Field encoders\<close>

definition fieldVarint :: "protowire \<Rightarrow> nat \<Rightarrow> uint64 \<Rightarrow> bytes" where
  "fieldVarint pw t value = AppendVarint pw (AppendTag pw [] t VarintType) value"

definition fieldSInt64 :: "protowire \<Rightarrow> nat \<Rightarrow> uint64 \<Rightarrow> bytes" where
  "fieldSInt64 pw t value = fieldVarint pw t (EncodeZigZag pw value)"

definition fieldBool :: "protowire \<Rightarrow> nat \<Rightarrow> bool \<Rightarrow> bytes" where
  "fieldBool pw t value = (if value then fieldVarint pw t 1 else fieldVarint pw t 0)"

definition fieldFixed64 :: "protowire \<Rightarrow> nat \<Rightarrow> uint64 \<Rightarrow> bytes" where
  "fieldFixed64 pw t value = AppendFixed64 pw (AppendTag pw [] t Fixed64Type) value"

definition fieldBytes :: "protowire \<Rightarrow> nat \<Rightarrow> bytes \<Rightarrow> bytes" where
  "fieldBytes pw t value = AppendBytes pw (AppendTag pw [] t BytesType) value"

definition fieldString :: "protowire \<Rightarrow> nat \<Rightarrow> string \<Rightarrow> bytes" where
  "fieldString pw t value = fieldBytes pw t value"

definition fieldMessage :: "protowire \<Rightarrow> nat \<Rightarrow> bytes \<Rightarrow> bytes" where
  "fieldMessage pw t body = fieldBytes pw t body"

section \<open>The field loop\<close>

record wire_field =
  tag :: nat
  wtype :: wire_type
  varint :: uint64
  fixed64 :: uint64
  bytes :: bytes

text \<open>The field values the three value-carrying wire types give.\<close>

definition varint_field :: "nat \<Rightarrow> uint64 \<Rightarrow> wire_field" where
  "varint_field t v = \<lparr>tag = t, wtype = VarintType, varint = v, fixed64 = 0, bytes = []\<rparr>"

definition fixed64_field :: "nat \<Rightarrow> uint64 \<Rightarrow> wire_field" where
  "fixed64_field t v = \<lparr>tag = t, wtype = Fixed64Type, varint = 0, fixed64 = v, bytes = []\<rparr>"

definition bytes_field :: "nat \<Rightarrow> bytes \<Rightarrow> wire_field" where
  "bytes_field t x = \<lparr>tag = t, wtype = BytesType, varint = 0, fixed64 = 0, bytes = x\<rparr>"

text \<open>
  \<open>data[n:]\<close> panics when \<open>n\<close> exceeds the length, and a tag of no bytes would keep the loop
  where it is; both are \<^const>\<open>NoProgress\<close>.  \<open>parseFields_returns\<close> below shows that neither
  happens with primitives that keep their contract.
\<close>

definition slice_from :: "wire_field \<Rightarrow> int \<Rightarrow> bytes \<Rightarrow> go_error + wire_field \<times> bytes" where
  "slice_from f n data =
     (if n < 0 then Inl (ParseError n)
      else if nat n \<le> length data then Inr (f, drop (nat n) data) else Inl NoProgress)"

text \<open>
  One iteration of the loop up to the callback: the tag, then the payload its wire type
  calls for.  A fixed32 or group payload is skipped.
\<close>

definition consume_field :: "protowire \<Rightarrow> bytes \<Rightarrow> go_error + wire_field \<times> bytes" where
  "consume_field pw data0 =
     (case ConsumeTag pw data0 of (num, typ, n) \<Rightarrow>
      if n < 0 then Inl (Errorf ''invalid protobuf tag: %v'' [AErr (ParseError n)]) else
      if n = 0 \<or> length data0 < nat n then Inl NoProgress else
      let data = drop (nat n) data0;
          f = \<lparr>tag = num, wtype = typ, varint = 0, fixed64 = 0, bytes = []\<rparr>
      in (case typ of
            VarintType \<Rightarrow>
              (case ConsumeVarint pw data of (v, n) \<Rightarrow> slice_from (f\<lparr>varint := v\<rparr>) n data)
          | Fixed64Type \<Rightarrow>
              (case ConsumeFixed64 pw data of (v, n) \<Rightarrow> slice_from (f\<lparr>fixed64 := v\<rparr>) n data)
          | BytesType \<Rightarrow>
              (case ConsumeBytes pw data of (v, n) \<Rightarrow> slice_from (f\<lparr>bytes := v\<rparr>) n data)
          | Fixed32Type \<Rightarrow>
              (case ConsumeFixed32 pw data of (_, n) \<Rightarrow> slice_from (f) n data)
          | StartGroupType \<Rightarrow>
              (case ConsumeGroup pw num data of (_, n) \<Rightarrow> slice_from (f) n data)
          | EndGroupType \<Rightarrow> Inl (Errorf ''invalid protobuf wire type %d'' [AInt 4])
          | ReservedType k \<Rightarrow> Inl (Errorf ''invalid protobuf wire type %d'' [AInt (int k)])))"

lemma slice_from_length: "slice_from f n data = Inr (g, rest) \<Longrightarrow> length rest \<le> length data"
  by (auto simp: slice_from_def split: if_splits)

lemma consume_field_shorter: "consume_field pw data = Inr (f, rest) \<Longrightarrow> length rest < length data"
  by (auto simp: consume_field_def Let_def split: if_splits prod.splits wire_type.splits
      dest!: slice_from_length)

text \<open>
  The loop.  The callback maps the variables it captured to their new values and an
  optional error.
\<close>

function parseFields ::
  "protowire \<Rightarrow> bytes \<Rightarrow> (wire_field \<Rightarrow> 's \<Rightarrow> 's \<times> go_error option) \<Rightarrow> 's \<Rightarrow> 's \<times> go_error option" where
  "parseFields pw data fn s =
     (if data = [] then ok s else
      case consume_field pw data of
        Inl e \<Rightarrow> fail s e
      | Inr (f, rest) \<Rightarrow>
          (case fn f s of
             (s', Some e) \<Rightarrow> fail s' e
           | (s', None) \<Rightarrow> parseFields pw rest fn s'))"
  by pat_completeness auto
termination
  by (relation "measure (\<lambda>(pw, data, fn, s). length data)") (auto dest: consume_field_shorter)

declare parseFields.simps [simp del]

text \<open>The exported shapes: the final variables or an error, and the variables whatever happened.\<close>

definition parse_result ::
  "protowire \<Rightarrow> bytes \<Rightarrow> (wire_field \<Rightarrow> 's \<Rightarrow> 's \<times> go_error option) \<Rightarrow> 's \<Rightarrow> go_error + 's" where
  "parse_result pw data fn s = result_of (parseFields pw data fn s)"

definition parse_ignore :: "protowire \<Rightarrow> bytes \<Rightarrow> (wire_field \<Rightarrow> 's \<Rightarrow> 's) \<Rightarrow> 's \<Rightarrow> 's" where
  "parse_ignore pw data upd s = fst (parseFields pw data (\<lambda>f s. ok (upd f s)) s)"

definition consumeSingleField :: "protowire \<Rightarrow> bytes \<Rightarrow> go_error + nat \<times> bytes" where
  "consumeSingleField pw data =
     (case parseFields pw data (\<lambda>f (count, t, body). ok (count + 1, tag f, bytes f)) (0::nat, 0, []) of
        (_, Some e) \<Rightarrow> Inl e
      | ((count, t, body), None) \<Rightarrow>
          if count \<noteq> 1 then Inl (Errorf ''expected one field, got %d'' [AInt (int count)])
          else Inr (t, body))"

text \<open>
  \<open>decodeStringField\<close> and \<open>decodeBytesField\<close> of \<open>protocol.go\<close>: the last field with the tag,
  empty if there is none; a malformed tail is ignored.
\<close>

definition decodeStringField :: "protowire \<Rightarrow> bytes \<Rightarrow> nat \<Rightarrow> string" where
  "decodeStringField pw data t = parse_ignore pw data (\<lambda>f s. if tag f = t then bytes f else s) []"

definition decodeBytesField :: "protowire \<Rightarrow> bytes \<Rightarrow> nat \<Rightarrow> bytes" where
  "decodeBytesField pw data t = parse_ignore pw data (\<lambda>f s. if tag f = t then bytes f else s) []"

section \<open>Facts about the field loop that hold for any primitives\<close>

lemma parseFields_Nil [simp]: "parseFields pw [] fn s = ok s"
  by (simp add: parseFields.simps)

lemma parse_result_Nil [simp]: "parse_result pw [] fn s = Inr s"
  by (simp add: parse_result_def)

lemma parse_ignore_Nil [simp]: "parse_ignore pw [] upd s = s"
  by (simp add: parse_ignore_def)

text \<open>Induction over the fields of a message.\<close>

lemma parse_induct [case_names Nil Error Field]:
  assumes "P []"
    and "\<And>data e. data \<noteq> [] \<Longrightarrow> consume_field pw data = Inl e \<Longrightarrow> P data"
    and "\<And>data f rest. data \<noteq> [] \<Longrightarrow> consume_field pw data = Inr (f, rest) \<Longrightarrow> P rest \<Longrightarrow> P data"
  shows "P data"
proof (induction data rule: length_induct)
  case (1 data)
  show ?case
  proof (cases "data = []")
    case False
    show ?thesis
    proof (cases "consume_field pw data")
      case (Inr p)
      then have c: "consume_field pw data = Inr (fst p, snd p)" by simp
      then have "length (snd p) < length data" by (rule consume_field_shorter)
      then show ?thesis using 1 by (intro assms(3) [OF False c]) blast
    qed (use False assms(2) in blast)
  qed (simp add: assms(1))
qed

lemma parseFields_error:
  "data \<noteq> [] \<Longrightarrow> consume_field pw data = Inl e \<Longrightarrow> parseFields pw data fn s = fail s e"
  by (subst parseFields.simps) simp

lemma parseFields_field:
  "data \<noteq> [] \<Longrightarrow> consume_field pw data = Inr (f, rest) \<Longrightarrow>
    parseFields pw data fn s =
      (case fn f s of (s', Some e) \<Rightarrow> fail s' e | (s', None) \<Rightarrow> parseFields pw rest fn s')"
  by (subst parseFields.simps) simp

text \<open>A property of the captured variables that the callback keeps holds at the end, errors included.\<close>

lemma parseFields_invariant:
  assumes "P s" and step: "\<And>f s. P s \<Longrightarrow> P (fst (fn f s))"
  shows "P (fst (parseFields pw data fn s))"
  using assms(1)
proof (induction data arbitrary: s rule: parse_induct [where pw = pw])
  case (Field data f rest)
  have "P (fst (fn f s))" using Field.prems by (rule step)
  then show ?case
    using Field.IH by (cases "fn f s") (simp add: parseFields_field [OF Field.hyps(1,2)] split: option.split)
qed (simp_all add: parseFields_error)

section \<open>Facts that rest on the contract of the primitives\<close>

lemmas field_defs =
  fieldVarint_def fieldFixed64_def fieldBytes_def varint_field_def fixed64_field_def bytes_field_def

context wire_format begin

lemma tag_nonempty: "valid_tag t \<Longrightarrow> ty \<in> {VarintType, Fixed64Type, BytesType} \<Longrightarrow> 0 < length (AppendTag pw [] t ty)"
  using consume_tag [of t ty "[]"] tag_bounds [of "AppendTag pw [] t ty"] by simp

lemma fieldVarint_split: "fieldVarint pw t v = AppendTag pw [] t VarintType @ AppendVarint pw [] v"
  unfolding fieldVarint_def by (rule append_varint)

lemma fieldFixed64_split: "fieldFixed64 pw t v = AppendTag pw [] t Fixed64Type @ AppendFixed64 pw [] v"
  unfolding fieldFixed64_def by (rule append_fixed64)

lemma fieldBytes_split: "fieldBytes pw t x = AppendTag pw [] t BytesType @ AppendBytes pw [] x"
  unfolding fieldBytes_def by (rule append_bytes)

lemma consume_fieldVarint:
  "valid_tag t \<Longrightarrow> consume_field pw (fieldVarint pw t v @ rest) = Inr (varint_field t v, rest)"
  using tag_nonempty [of t VarintType]
  by (simp add: consume_field_def fieldVarint_split consume_tag consume_varint slice_from_def varint_field_def)

lemma consume_fieldFixed64:
  "valid_tag t \<Longrightarrow> consume_field pw (fieldFixed64 pw t v @ rest) = Inr (fixed64_field t v, rest)"
  using tag_nonempty [of t Fixed64Type]
  by (simp add: consume_field_def fieldFixed64_split consume_tag consume_fixed64 slice_from_def fixed64_field_def)

lemma consume_fieldBytes:
  "valid_tag t \<Longrightarrow> consume_field pw (fieldBytes pw t x @ rest) = Inr (bytes_field t x, rest)"
  using tag_nonempty [of t BytesType]
  by (simp add: consume_field_def fieldBytes_split consume_tag consume_bytes slice_from_def bytes_field_def)

lemma field_nonempty:
  "valid_tag t \<Longrightarrow> fieldVarint pw t v @ rest \<noteq> []"
  "valid_tag t \<Longrightarrow> fieldFixed64 pw t v @ rest \<noteq> []"
  "valid_tag t \<Longrightarrow> fieldBytes pw t x @ rest \<noteq> []"
  using tag_nonempty [of t VarintType] tag_nonempty [of t Fixed64Type] tag_nonempty [of t BytesType]
  by (auto simp: fieldVarint_split fieldFixed64_split fieldBytes_split)

lemma parse_fieldVarint [wire_simps]:
  "valid_tag t \<Longrightarrow> parseFields pw (fieldVarint pw t v @ rest) fn s =
     (case fn (varint_field t v) s of (s', Some e) \<Rightarrow> fail s' e | (s', None) \<Rightarrow> parseFields pw rest fn s')"
  by (rule parseFields_field [OF field_nonempty(1) consume_fieldVarint])

lemma parse_fieldFixed64 [wire_simps]:
  "valid_tag t \<Longrightarrow> parseFields pw (fieldFixed64 pw t v @ rest) fn s =
     (case fn (fixed64_field t v) s of (s', Some e) \<Rightarrow> fail s' e | (s', None) \<Rightarrow> parseFields pw rest fn s')"
  by (rule parseFields_field [OF field_nonempty(2) consume_fieldFixed64])

lemma parse_fieldBytes [wire_simps]:
  "valid_tag t \<Longrightarrow> parseFields pw (fieldBytes pw t x @ rest) fn s =
     (case fn (bytes_field t x) s of (s', Some e) \<Rightarrow> fail s' e | (s', None) \<Rightarrow> parseFields pw rest fn s')"
  by (rule parseFields_field [OF field_nonempty(3) consume_fieldBytes])

lemma parse_last_field [wire_simps]:
  "valid_tag t \<Longrightarrow> parseFields pw (fieldVarint pw t v) fn s = fn (varint_field t v) s"
  "valid_tag t \<Longrightarrow> parseFields pw (fieldFixed64 pw t v) fn s = fn (fixed64_field t v) s"
  "valid_tag t \<Longrightarrow> parseFields pw (fieldBytes pw t x) fn s = fn (bytes_field t x) s"
  using parse_fieldVarint [of t v "[]" fn s] parse_fieldFixed64 [of t v "[]" fn s] parse_fieldBytes [of t x "[]" fn s]
  by (auto split: prod.splits option.splits)

lemma parse_field_list:
  "valid_tag t \<Longrightarrow> parseFields pw (concat (map (\<lambda>x. fieldBytes pw t (g x)) xs) @ rest) fn s =
     (case fold_res (\<lambda>x. fn (bytes_field t (g x))) xs s of
        (s', Some e) \<Rightarrow> fail s' e | (s', None) \<Rightarrow> parseFields pw rest fn s')"
  by (induction xs arbitrary: s) (auto simp: wire_simps split: prod.splits option.splits)

lemma consume_field_bounds:
  assumes "consume_field pw data = Inr (f, rest)"
  shows "length (bytes f) < length data \<and> 1 \<le> tag f"
proof -
  obtain t ty n where tg: "ConsumeTag pw data = (t, ty, n)" by (rule prod_cases3)
  have "\<not> n < 0"
    using assms by (intro notI) (simp add: consume_field_def tg)
  then have n: "0 < n" "nat n \<le> length data" "1 \<le> t"
    using tag_bounds [OF tg] by simp_all
  obtain x m where b: "ConsumeBytes pw (drop (nat n) data) = (x, m)" by (rule prod.exhaust)
  show ?thesis
    using assms n bytes_bounds [OF b]
    by (cases ty) (auto simp: consume_field_def tg b slice_from_def Let_def split: if_splits prod.splits)
qed

lemma slice_from_no_stall:
  "(0 \<le> n \<Longrightarrow> 0 < n \<and> nat n \<le> length b) \<Longrightarrow> slice_from f n b \<noteq> Inl NoProgress"
  by (auto simp: slice_from_def)

lemma consume_field_no_stall: "consume_field pw data \<noteq> Inl NoProgress"
proof -
  obtain t ty n where tg: "ConsumeTag pw data = (t, ty, n)" by (rule prod_cases3)
  let ?d = "drop (nat n) data"
  obtain v1 m1 where c1: "ConsumeVarint pw ?d = (v1, m1)" by (rule prod.exhaust)
  obtain v2 m2 where c2: "ConsumeFixed64 pw ?d = (v2, m2)" by (rule prod.exhaust)
  obtain v3 m3 where c3: "ConsumeFixed32 pw ?d = (v3, m3)" by (rule prod.exhaust)
  obtain v4 m4 where c4: "ConsumeBytes pw ?d = (v4, m4)" by (rule prod.exhaust)
  obtain v5 m5 where c5: "ConsumeGroup pw t ?d = (v5, m5)" by (rule prod.exhaust)
  note ns = slice_from_no_stall [OF varint_bounds [OF c1]] slice_from_no_stall [OF fixed64_bounds [OF c2]]
    slice_from_no_stall [OF fixed32_bounds [OF c3]] slice_from_no_stall [OF group_bounds [OF c5]]
  have ns4: "slice_from f m4 ?d \<noteq> Inl NoProgress" for f
    using bytes_bounds [OF c4] by (intro slice_from_no_stall) blast
  have "\<not> (0 \<le> n \<and> (n = 0 \<or> length data < nat n))"
    using tag_bounds [OF tg] by auto
  then show ?thesis
    using ns ns4 by (cases ty) (simp_all add: consume_field_def tg c1 c2 c3 c4 c5 Let_def)
qed

lemma consume_field_error:
  assumes "consume_field pw data = Inl e"
  shows "real_error e"
proof -
  have "e \<noteq> NoProgress" using assms consume_field_no_stall by blast
  then show ?thesis
    using assms by (auto simp: consume_field_def slice_from_def Let_def real_error_def
        split: prod.splits if_splits wire_type.splits)
qed

text \<open>The loop ends by itself: it reports a stall only if the callback does.\<close>

lemma parseFields_returns:
  assumes "\<And>f s e. length (bytes f) < length data \<Longrightarrow> snd (fn f s) = Some e \<Longrightarrow> real_error e"
  shows "snd (parseFields pw data fn s) = Some e \<Longrightarrow> real_error e"
  using assms
proof (induction data arbitrary: s rule: parse_induct [where pw = pw])
  case (Error data e')
  then show ?case using consume_field_error [of data] by (simp add: parseFields_error)
next
  case (Field data f rest)
  note c = consume_field_bounds [OF Field.hyps(2)] consume_field_shorter [OF Field.hyps(2)]
  obtain s' r where fn: "fn f s = (s', r)" by (rule prod.exhaust)
  show ?case
  proof (cases r)
    case None
    then have "snd (parseFields pw rest fn s') = Some e"
      using Field.prems(1) fn by (simp add: parseFields_field [OF Field.hyps(1,2)])
    moreover have "real_error e'" if "length (bytes g) < length rest" "snd (fn g s'') = Some e'" for g s'' e'
      using that c by (intro Field.prems(2) [of g s'' e']) simp_all
    ultimately show ?thesis by (rule Field.IH)
  next
    case (Some e')
    then have "snd (fn f s) = Some e"
      using Field.prems(1) fn by (simp add: parseFields_field [OF Field.hyps(1,2)])
    then show ?thesis using c by (intro Field.prems(2)) simp_all
  qed
qed simp

lemma parse_result_returns:
  assumes "\<And>f s e. length (bytes f) < length data \<Longrightarrow> snd (fn f s) = Some e \<Longrightarrow> real_error e"
  shows "returns (parse_result pw data fn s)"
proof -
  obtain s' r where p: "parseFields pw data fn s = (s', r)" by (rule prod.exhaust)
  have "real_error e" if "r = Some e" for e
  proof (rule parseFields_returns [where data = data and fn = fn and s = s])
    show "snd (parseFields pw data fn s) = Some e" using p that by simp
  qed (rule assms)
  then show ?thesis
    by (cases r) (simp_all add: parse_result_def p)
qed

text \<open>Only the payloads that are shorter than the message can reach the callback.\<close>

lemma parseFields_cong:
  assumes "\<And>f s. length (bytes f) < length data \<Longrightarrow> fn f s = fn' f s"
  shows "parseFields pw data fn s = parseFields pw data fn' s"
  using assms
proof (induction data arbitrary: s rule: parse_induct [where pw = pw])
  case (Field data f rest)
  have "length (bytes f) < length data"
    using consume_field_bounds [OF Field.hyps(2)] by simp
  then have "fn f s = fn' f s" by (rule Field.prems)
  moreover have "parseFields pw rest fn s' = parseFields pw rest fn' s'" for s'
    using Field.prems consume_field_shorter [OF Field.hyps(2)] by (intro Field.IH) simp
  ultimately show ?case by (simp add: parseFields_field [OF Field.hyps(1,2)] cong: option.case_cong)
qed (simp_all add: parseFields_error)

end

section \<open>Messages as lists of fields\<close>

datatype item = VarintItem nat uint64 | Fixed64Item nat uint64 | BytesItem nat bytes

fun item_tag :: "item \<Rightarrow> nat" where
  "item_tag (VarintItem t v) = t"
| "item_tag (Fixed64Item t v) = t"
| "item_tag (BytesItem t x) = t"

fun put_item :: "protowire \<Rightarrow> item \<Rightarrow> bytes" where
  "put_item pw (VarintItem t v) = fieldVarint pw t v"
| "put_item pw (Fixed64Item t v) = fieldFixed64 pw t v"
| "put_item pw (BytesItem t x) = fieldBytes pw t x"

fun item_field :: "item \<Rightarrow> wire_field" where
  "item_field (VarintItem t v) = varint_field t v"
| "item_field (Fixed64Item t v) = fixed64_field t v"
| "item_field (BytesItem t x) = bytes_field t x"

text \<open>The loop hands the callback the fields that were written, in order, up to its first error.\<close>

context wire_format begin

lemma parse_items:
  "(\<forall>i \<in> set items. valid_tag (item_tag i)) \<Longrightarrow>
    parseFields pw (concat (map (put_item pw) items)) fn s = fold_res fn (map item_field items) s"
proof (induction items arbitrary: s)
  case (Cons i items)
  then show ?case by (cases i) (auto simp: wire_simps split: prod.splits option.splits)
qed simp

end

section \<open>Frames\<close>

text \<open>
  \<open>writeFrame\<close> hands the writer a 4-byte little-endian length and then the body; the
  writer's own errors are the environment's, so the model returns what is written.
  \<open>readFrame\<close> reads from the bytes the stream will deliver: \<open>io.ReadFull\<close> gives \<^const>\<open>EOF\<close>
  if there is nothing at all and \<^const>\<open>UnexpectedEOF\<close> if there is less than asked for.
\<close>

definition put_uint32 :: "uint32 \<Rightarrow> bytes" where
  "put_uint32 w = map (\<lambda>i. char_of (drop_bit (8 * i) (unat w))) [0, 1, 2, 3]"

definition get_uint32 :: "bytes \<Rightarrow> uint32" where
  "get_uint32 p = of_nat (foldr (\<lambda>c n. of_char c + 256 * n) p 0)"

definition frame_error :: "nat \<Rightarrow> go_error" where
  "frame_error n = Errorf ''frame of %d bytes exceeds maximum of %d'' [AInt (int n), AInt (int maxFrameLen)]"

definition writeFrame :: "bytes \<Rightarrow> go_error + bytes" where
  "writeFrame body =
     (if maxFrameLen < length body then Inl (frame_error (length body))
      else Inr (put_uint32 (of_nat (length body)) @ body))"

definition ReadFull :: "bytes \<Rightarrow> nat \<Rightarrow> go_error + bytes \<times> bytes" where
  "ReadFull r n =
     (if n = 0 then Inr ([], r)
      else if r = [] then Inl EOF
      else if length r < n then Inl UnexpectedEOF
      else Inr (take n r, drop n r))"

definition readFrame :: "bytes \<Rightarrow> go_error + bytes \<times> bytes" where
  "readFrame r =
     (case ReadFull r 4 of
        Inl e \<Rightarrow> Inl e
      | Inr (prefix, r) \<Rightarrow>
          let size = unat (get_uint32 prefix) in
          if maxFrameLen < size then Inl (frame_error size)
          else (case ReadFull r size of
                  Inl e \<Rightarrow> Inl (Errorf ''truncated frame: %w'' [AErr e])
                | Inr (body, r) \<Rightarrow> Inr (body, r)))"

lemma length_put_uint32 [simp]: "length (put_uint32 w) = 4"
  by (simp add: put_uint32_def)

lemma base256_digits:
  fixes n :: nat
  assumes "n < 2 ^ 32"
  shows "n mod 256 + 256 * (n div 256 mod 256 + 256 * (n div 65536 mod 256 + 256 * (n div 16777216))) = n"
proof -
  have d: "n div 65536 = n div 256 div 256" "n div 16777216 = n div 256 div 256 div 256"
    by (simp_all add: div_mult2_eq [symmetric])
  have "n div 256 div 256 div 256 < 256"
    using assms by (simp add: div_mult2_eq [symmetric] less_mult_imp_div_less)
  then show ?thesis by (simp add: d)
qed

lemma get_put_uint32: "get_uint32 (put_uint32 w) = w"
proof -
  have "unat w < 2 ^ 32" by (rule order.strict_trans2 [OF unsigned_less]) simp
  moreover from this have "unat w div 16777216 mod 256 = unat w div 16777216"
    by (intro mod_less less_mult_imp_div_less) simp
  ultimately have "foldr (\<lambda>c n. of_char c + 256 * n) (put_uint32 w) (0 :: nat) = unat w"
    using base256_digits [of "unat w"] by (simp add: put_uint32_def take_bit_eq_mod drop_bit_eq_div)
  then show ?thesis by (simp add: get_uint32_def)
qed

lemma ReadFull_0 [simp]: "ReadFull r 0 = Inr ([], r)"
  by (simp add: ReadFull_def)

lemma ReadFull_append: "length p = n \<Longrightarrow> p \<noteq> [] \<or> n = 0 \<Longrightarrow> ReadFull (p @ r) n = Inr (p, r)"
  by (auto simp: ReadFull_def)

lemma readFrame_writeFrame:
  assumes "writeFrame body = Inr out"
  shows "readFrame (out @ rest) = Inr (body, rest)"
proof -
  from assms have len: "length body \<le> maxFrameLen" and out: "out = put_uint32 (of_nat (length body)) @ body"
    by (auto simp: writeFrame_def split: if_splits)
  have "unat (of_nat (length body) :: uint32) = length body"
    using len by (simp add: maxFrameLen_def unat_of_nat)
  moreover have "put_uint32 (of_nat (length body)) \<noteq> []"
    using length_put_uint32 by (metis length_0_conv zero_neq_numeral)
  ultimately show ?thesis
    using len by (cases "body = []") (simp_all add: readFrame_def out get_put_uint32 ReadFull_append)
qed

lemma le_bytes_4:
  "le_bytes 4 n = [char_of (n mod 256), char_of (n div 256 mod 256), char_of (n div 65536 mod 256),
     char_of (n div 16777216 mod 256)]"
proof -
  have "le_bytes (Suc (Suc (Suc (Suc 0)))) n = [char_of (n mod 256), char_of (n div 256 mod 256),
     char_of (n div 65536 mod 256), char_of (n div 16777216 mod 256)]"
    by (simp add: div_mult2_eq [symmetric])
  moreover have "(4 :: nat) = Suc (Suc (Suc (Suc 0)))" by simp
  ultimately show ?thesis by (simp only:)
qed
lemma char_of_mod: "char_of (n mod 256) = (char_of n :: char)"
  by (simp add: char_of_def bit_take_bit_iff flip: take_bit_eq_mod [of 8, simplified])

lemma put_uint32_le_bytes: "put_uint32 w = le_bytes 4 (unat w)"
  unfolding le_bytes_4 put_uint32_def 
  by (simp add: drop_bit_eq_div char_of_mod)

lemma put_get_uint32:
  assumes "length p = 4"
  shows "put_uint32 (get_uint32 p) = p"
proof -
  have "le_value p < 2 ^ 32" using le_value_bound [of p] assms by simp
  then have "unat (of_nat (le_value p) :: uint32) = le_value p"
    by (simp add: unat_of_nat)
  moreover have "foldr (\<lambda>c n. of_char c + 256 * n) p 0 = le_value p"
    by (induction p) simp_all
  ultimately show ?thesis
    using le_bytes_le_value [of p] assms by (simp add: put_uint32_le_bytes get_uint32_def)
qed

lemma readFrame_sound:
  "readFrame r = Inr (body, rest) \<longleftrightarrow> (\<exists>out. writeFrame body = Inr out \<and> r = out @ rest)"
proof
  assume "readFrame r = Inr (body, rest)"
  then have r: "4 \<le> length r" "rest = drop (length body) (drop 4 r)" "body = take (length body) (drop 4 r)"
    "unat (get_uint32 (take 4 r)) = length body" "length body \<le> maxFrameLen"
    by (auto simp: readFrame_def ReadFull_def Let_def split: if_splits)
  have "of_nat (length body) = get_uint32 (take 4 r)" using r(4) by (simp flip: r(4))
  then have "put_uint32 (of_nat (length body)) = take 4 r"
    using put_get_uint32 [of "take 4 r"] r(1) by simp
  moreover have "r = take 4 r @ body @ rest" using r(2,3) by (metis append_take_drop_id)
  ultimately show "\<exists>out. writeFrame body = Inr out \<and> r = out @ rest"
    using r(5) by (auto simp: writeFrame_def)
qed (auto intro: readFrame_writeFrame)

end
