(* ===== verification/Protowire_Ref.thy ===== *)
theory Protowire_Ref
  imports Wire
begin

text \<open>
  A concrete instance of the \<open>protowire\<close> primitives, written from the published protobuf
  encoding: base-128 varints, little-endian fixed-width values, length-prefixed bytes,
  zigzag signed integers.  It shows that the contract \<open>wire_format\<close> can be met and lets
  the encoders and decoders of the model run on concrete messages.  No property of the
  code depends on it.
\<close>

unbundle bit_operations_syntax

section \<open>Varints\<close>

fun uvarint :: "nat \<Rightarrow> bytes" where
  "uvarint n = (if n < 128 then [char_of n] else char_of (128 + n mod 128) # uvarint (n div 128))"

declare uvarint.simps [simp del]

fun read_uvarint :: "bytes \<Rightarrow> (nat \<times> bytes) option" where
  "read_uvarint [] = None"
| "read_uvarint (c # cs) =
     (let n = of_char c in
      if n < 128 then Some (n, cs)
      else (case read_uvarint cs of None \<Rightarrow> None | Some (m, r) \<Rightarrow> Some (n - 128 + 128 * m, r)))"

lemma of_char_char_of: "n < 256 \<Longrightarrow> of_char (char_of n) = (n :: nat)"
  by simp

lemma read_uvarint_uvarint: "read_uvarint (uvarint n @ rest) = Some (n, rest)"
proof (induction n rule: uvarint.induct)
  case (1 n)
  show ?case
  proof (cases "n < 128")
    case True
    then show ?thesis by (simp add: uvarint.simps [of n] Let_def of_char_char_of del: of_char_of)
  next
    case False
    have lt: "n mod 128 < 128" by simp
    then have "of_char (char_of (128 + n mod 128)) = 128 + n mod 128"
      by (intro of_char_char_of) simp
    with False "1.IH" show ?thesis
      by (simp add: uvarint.simps [of n] Let_def del: of_char_of)
  qed
qed

lemma read_uvarint_shorter: "read_uvarint b = Some (n, r) \<Longrightarrow> length r < length b"
proof (induction b arbitrary: n)
  case (Cons c cs)
  then show ?case by (fastforce simp: Let_def split: if_splits option.splits)
qed simp

section \<open>The primitives\<close>

definition ref_varint :: "bytes \<Rightarrow> uint64 \<times> int" where
  "ref_varint b =
     (case read_uvarint b of
        None \<Rightarrow> (0, -1)
      | Some (m, r) \<Rightarrow> if m < 2 ^ 64 then (of_nat m, int (length b) - int (length r)) else (0, -3))"

definition ref_fixed :: "nat \<Rightarrow> bytes \<Rightarrow> ('a::len) word \<times> int" where
  "ref_fixed k b = (if length b < k then (0, -1) else (of_nat (le_value (take k b)), int k))"

fun type_code :: "wire_type \<Rightarrow> nat" where
  "type_code VarintType = 0"
| "type_code Fixed64Type = 1"
| "type_code BytesType = 2"
| "type_code StartGroupType = 3"
| "type_code EndGroupType = 4"
| "type_code Fixed32Type = 5"
| "type_code (ReservedType k) = k"

definition type_of_code :: "nat \<Rightarrow> wire_type" where
  "type_of_code c =
     (if c = 0 then VarintType else if c = 1 then Fixed64Type else if c = 2 then BytesType
      else if c = 3 then StartGroupType else if c = 4 then EndGroupType
      else if c = 5 then Fixed32Type else ReservedType c)"

definition ref_tag :: "bytes \<Rightarrow> nat \<times> wire_type \<times> int" where
  "ref_tag b =
     (case read_uvarint b of
        None \<Rightarrow> (0, VarintType, -1)
      | Some (m, r) \<Rightarrow>
          if m div 8 < 1 \<or> 2 ^ 31 \<le> m div 8 then (0, VarintType, -2)
          else (m div 8, type_of_code (m mod 8), int (length b) - int (length r)))"

definition ref_bytes :: "bytes \<Rightarrow> bytes \<times> int" where
  "ref_bytes b =
     (case read_uvarint b of
        None \<Rightarrow> ([], -1)
      | Some (m, r) \<Rightarrow>
          if length r < m then ([], -1) else (take m r, int (length b) - int (length r) + int m))"

text \<open>Skipping a group: fields up to the matching end tag.\<close>

fun skip_value :: "nat \<Rightarrow> nat \<Rightarrow> wire_type \<Rightarrow> bytes \<Rightarrow> nat option"
  and skip_group :: "nat \<Rightarrow> nat \<Rightarrow> bytes \<Rightarrow> nat option" where
  "skip_value 0 t ty d = None"
| "skip_value (Suc k) t ty d =
     (case ty of
        VarintType \<Rightarrow> (let n = snd (ref_varint d) in if n < 0 then None else Some (nat n))
      | Fixed64Type \<Rightarrow> (if length d < 8 then None else Some 8)
      | Fixed32Type \<Rightarrow> (if length d < 4 then None else Some 4)
      | BytesType \<Rightarrow> (let n = snd (ref_bytes d) in if n < 0 then None else Some (nat n))
      | StartGroupType \<Rightarrow> skip_group k t d
      | _ \<Rightarrow> None)"
| "skip_group 0 t d = None"
| "skip_group (Suc k) t d =
     (case ref_tag d of (u, ty, n) \<Rightarrow>
      if n < 0 then None
      else if ty = EndGroupType then (if u = t then Some (nat n) else None)
      else (case skip_value k u ty (drop (nat n) d) of
              None \<Rightarrow> None
            | Some m \<Rightarrow> map_option (\<lambda>r. nat n + m + r) (skip_group k t (drop (nat n + m) d))))"

definition ref_group :: "nat \<Rightarrow> bytes \<Rightarrow> bytes \<times> int" where
  "ref_group t b =
     (case skip_group (2 * length b) t b of
        None \<Rightarrow> ([], -1)
      | Some n \<Rightarrow> if 0 < n \<and> n \<le> length b then (take n b, int n) else ([], -1))"

definition ref_zigzag :: "uint64 \<Rightarrow> uint64" where
  "ref_zigzag v = (if bit v 63 then NOT (push_bit 1 v) else push_bit 1 v)"

definition ref_unzigzag :: "uint64 \<Rightarrow> uint64" where
  "ref_unzigzag v = (if bit v 0 then NOT (drop_bit 1 v) else drop_bit 1 v)"

definition pw_ref :: protowire where
  "pw_ref = \<lparr>
     AppendTag = (\<lambda>b t ty. b @ uvarint (8 * t + type_code ty)),
     AppendVarint = (\<lambda>b v. b @ uvarint (unat v)),
     AppendFixed64 = (\<lambda>b v. b @ le_bytes 8 (unat v)),
     AppendBytes = (\<lambda>b x. b @ uvarint (length x) @ x),
     ConsumeTag = ref_tag,
     ConsumeVarint = ref_varint,
     ConsumeFixed64 = ref_fixed 8,
     ConsumeFixed32 = ref_fixed 4,
     ConsumeBytes = ref_bytes,
     ConsumeGroup = ref_group,
     EncodeZigZag = ref_zigzag,
     DecodeZigZag = ref_unzigzag\<rparr>"

section \<open>The contract holds\<close>

lemma bit_shift1: "bit (v * 2 :: uint64) n \<longleftrightarrow> n \<noteq> 0 \<and> n < 64 \<and> bit v (n - 1)"
  by (auto simp: mult.commute [of v 2] bit_double_iff)

lemma ref_unzigzag_zigzag: "ref_unzigzag (ref_zigzag v) = v"
proof (rule bit_word_eqI)
  fix n assume "n < LENGTH(64)"
  then have "n < 63 \<or> n = 63" by auto
  then show "bit (ref_unzigzag (ref_zigzag v)) n \<longleftrightarrow> bit v n"
    by (auto simp: ref_unzigzag_def ref_zigzag_def bit_simps bit_shift1)
qed

lemma ref_tag_bounds: "ref_tag b = (t, ty, n) \<Longrightarrow> 0 \<le> n \<Longrightarrow> 0 < n \<and> nat n \<le> length b \<and> 1 \<le> t"
  by (auto simp: ref_tag_def split: option.splits if_splits dest!: read_uvarint_shorter)

lemma ref_varint_bounds: "ref_varint b = (v, n) \<Longrightarrow> 0 \<le> n \<Longrightarrow> 0 < n \<and> nat n \<le> length b"
  by (auto simp: ref_varint_def split: option.splits if_splits dest!: read_uvarint_shorter)

lemma ref_bytes_bounds:
  "ref_bytes b = (x, n) \<Longrightarrow> 0 \<le> n \<Longrightarrow> 0 < n \<and> nat n \<le> length b \<and> length x < nat n"
  by (auto simp: ref_bytes_def split: option.splits if_splits dest!: read_uvarint_shorter)

lemma ref_fixed_bounds: "0 < k \<Longrightarrow> ref_fixed k b = (v, n) \<Longrightarrow> 0 \<le> n \<Longrightarrow> 0 < n \<and> nat n \<le> length b"
  by (auto simp: ref_fixed_def split: if_splits)

lemma ref_group_bounds: "ref_group t b = (x, n) \<Longrightarrow> 0 \<le> n \<Longrightarrow> 0 < n \<and> nat n \<le> length b"
  by (auto simp: ref_group_def split: option.splits if_splits)

interpretation ref: wire_format pw_ref
proof (unfold_locales, goal_cases)
  case (5 t ty rest)
  then show ?case
    by (auto simp: pw_ref_def ref_tag_def read_uvarint_uvarint type_of_code_def valid_tag_def)
next
  case (6 v rest)
  have "unat v < 2 ^ 64" by (rule order.strict_trans2 [OF unsigned_less]) simp
  then show ?case by (simp add: pw_ref_def ref_varint_def read_uvarint_uvarint)
next
  case (7 v rest)
  have "unat v < 256 ^ 8" by (rule order.strict_trans2 [OF unsigned_less]) simp
  then show ?case by (simp add: pw_ref_def ref_fixed_def le_value_le_bytes del: le_bytes.simps)
next
  case (9 b t ty n)
  then show ?case using ref_tag_bounds [of b t ty n] by (simp add: pw_ref_def)
next
  case (10 b v n)
  then show ?case using ref_varint_bounds [of b v n] by (simp add: pw_ref_def)
next
  case (11 b v n)
  then show ?case using ref_fixed_bounds [of 8 b v n] by (simp add: pw_ref_def)
next
  case (12 b v n)
  then show ?case using ref_fixed_bounds [of 4 b v n] by (simp add: pw_ref_def)
next
  case (13 b x n)
  then show ?case using ref_bytes_bounds [of b x n] by (simp add: pw_ref_def)
next
  case (14 t b x n)
  then show ?case using ref_group_bounds [of t b x n] by (simp add: pw_ref_def)
qed (simp_all add: pw_ref_def ref_bytes_def read_uvarint_uvarint ref_unzigzag_zigzag)

end
