(* ===== verification/Values.thy ===== *)
theory Values
  imports Wire
begin

text \<open>
  The values that cross the boundary (\<open>value.go\<close>, the types of \<open>class_value.go\<close> and
  \<open>module.go\<close>) and the encoders of their leaf messages (\<open>value.go\<close> lines 466-530,
  \<open>encodeTime\<close> of \<open>class_value.go\<close>).

  \<open>Value\<close> is Go's \<open>any\<close>.  The datatype \<open>Value\<close> has one constructor per dynamic type the code
  tells apart: the types of the package (prefix \<open>V\<close>), and the other Go values a host can pass,
  as \<open>reflect\<close> sees them (prefix \<open>H\<close>).  A float is its IEEE bit pattern
  (\<open>math.Float64bits\<close>).  Nil slices and nil maps are the empty ones: no operation of the
  package tells them apart.
\<close>

section \<open>Leaf structures\<close>

record date =
  d_Year :: uint64
  d_Month :: uint64
  d_Day :: uint64

record time =
  t_Hour :: uint64
  t_Minute :: uint64
  t_Second :: uint64
  t_Microsecond :: uint64
  t_OffsetSeconds :: "uint64 option"
  t_TimezoneName :: "string option"
  t_Fold :: uint64

record datetime =
  dt_Year :: uint64
  dt_Month :: uint64
  dt_Day :: uint64
  dt_Hour :: uint64
  dt_Minute :: uint64
  dt_Second :: uint64
  dt_Microsecond :: uint64
  dt_OffsetSeconds :: "uint64 option"
  dt_TimezoneName :: "string option"

record timedelta =
  td_Days :: uint64
  td_Seconds :: uint64
  td_Microseconds :: uint64

record timezone =
  tz_OffsetSeconds :: uint64
  tz_Name :: "string option"

record exception_value =
  xv_Type :: string
  xv_Message :: string

record function_marker =
  fn_Name :: string
  fn_Docstring :: "string option"

record file_handle =
  fh_Path :: string
  fh_Mode :: string
  fh_Position :: uint64

text \<open>What the code reads of a Go \<open>time.Time\<close>, and the text its \<open>MarshalText\<close> gives.\<close>

record go_time =
  gt_Year :: uint64
  gt_Month :: uint64
  gt_Day :: uint64
  gt_Hour :: uint64
  gt_Minute :: uint64
  gt_Second :: uint64
  gt_Nanosecond :: uint64
  gt_ZoneName :: string
  gt_ZoneOffset :: uint64
  gt_Unix :: uint64
  gt_Text :: "go_error + string"

text \<open>A UUID, Go's \<open>[16]byte\<close>, is a 128-bit word; its bytes are the word's base-256 digits.\<close>

type_synonym uuid = "128 word"

definition uuid_bytes :: "uuid \<Rightarrow> bytes" where
  "uuid_bytes u = le_bytes 16 (unat u)"

definition uuid_of_bytes :: "bytes \<Rightarrow> uuid" where
  "uuid_of_bytes b = of_nat (le_value b)"

lemma length_uuid_bytes [simp]: "length (uuid_bytes u) = 16"
  by (simp add: uuid_bytes_def)

lemma uuid_of_bytes_uuid_bytes [simp]: "uuid_of_bytes (uuid_bytes u) = u"
proof -
  have "unat u < 256 ^ 16" by (rule order.strict_trans2 [OF unsigned_less]) simp
  then show ?thesis by (simp add: uuid_of_bytes_def uuid_bytes_def le_value_le_bytes del: le_bytes.simps)
qed

section \<open>Structures that contain values\<close>

text \<open>\<open>TypeOrigin\<close> is a \<open>uint32\<close> with three named values.\<close>

definition TypeOriginBuiltin :: uint32 where "TypeOriginBuiltin = 1"
definition TypeOriginSandbox :: uint32 where "TypeOriginSandbox = 2"
definition TypeOriginHost :: uint32 where "TypeOriginHost = 3"

datatype 'v class_type = ClassType
  (ct_Name: string) (ct_ID: uuid) (ct_Origin: uint32) (ct_IsDataclass: bool) (ct_Attrs: "('v \<times> 'v) list")

datatype 'v module_value = Module
  (mod_Name: string) (mod_ID: uuid) (mod_Attrs: "('v \<times> 'v) list")

text \<open>\<open>ExternalModule\<close>: the \<open>attrs\<close> map as an association list with distinct keys.\<close>

datatype 'v external_module = ExternalModule
  (em_id: uuid) (em_attrs: "(string \<times> 'v) list") (em_stubs: string)

text \<open>A struct field as \<open>reflect\<close> shows it: exported, its two tags, its name, its value.\<close>

datatype 'v struct_field = StructField
  (sfd_exported: bool) (sfd_monty: string) (sfd_json: string) (sfd_name: string) (sfd_value: 'v)

datatype int_kind = Int | Int8 | Int16 | Int32 | Int64
datatype uint_kind = Uint | Uint8 | Uint16 | Uint32 | Uint64 | Uintptr

datatype (plugins only: code size) Value =
    VNil
  | VEllipsis
  | VNotImplemented
  | VBool bool
  | VInt64 uint64
  | VBigInt int
  | VFloat64 uint64
  | VComplex128 uint64 uint64
  | VString string
  | VBytes bytes
  | VList "Value list"
  | VTuple "Value list"
  | VSet "Value list"
  | VFrozenSet "Value list"
  | VDict "(Value \<times> Value) list"
  | VNamedTuple string "string list" "Value list"
  | VDate date
  | VTime time
  | VDateTime datetime
  | VTimeDelta timedelta
  | VTimeZone timezone
  | VException exception_value
  | VType string
  | VInstanceType string
  | VBuiltinFunction string
  | VPath string
  | VFunction function_marker
  | VFileHandle file_handle
  | VDataclass string uint64 "string list" "(Value \<times> Value) list" bool
  | VRepr string
  | VCycle uint64 string
  | VClassType "Value class_type"
  | VClassInstance "Value class_type" uuid "(Value \<times> Value) list"
  | VModule "Value module_value"
  | VExternalModule "Value external_module"
  | HNilPtr
  | HBigInt int
  | HInt int_kind uint64
  | HUint uint_kind uint64
  | HFloat32 uint64
  | HComplex64 uint64 uint64
  | HSlice "Value list"
  | HArray "Value list"
  | HByteArray bytes                            \<comment> \<open>an array of \<open>uint8\<close> itself\<close>
  | HMap bool "(Value \<times> Value) list"
  | HStruct "Value struct_field list"
  | HTime go_time
  | HDuration uint64
  | HText "go_error + string"
  | HFunc nat "string option"
  | HAsync Value
  | HRef nat
  | HOther string

type_synonym dict = "(Value \<times> Value) list"

section \<open>Big integers\<close>

text \<open>\<open>big.Int.Bytes\<close> is the big-endian magnitude without leading zeros, \<open>SetBytes\<close> reads one.\<close>

fun be_bytes :: "nat \<Rightarrow> bytes" where
  "be_bytes n = (if n = 0 then [] else be_bytes (n div 256) @ [char_of (n mod 256)])"

declare be_bytes.simps [simp del]

definition be_value :: "bytes \<Rightarrow> nat" where
  "be_value b = foldl (\<lambda>n c. 256 * n + of_char c) 0 b"

lemma be_value_be_bytes [simp]: "be_value (be_bytes n) = n"
proof (induction n rule: be_bytes.induct)
  case (1 n)
  show ?case
  proof (cases "n = 0")
    case True
    then show ?thesis by (simp add: be_bytes.simps be_value_def)
  next
    case False
    with 1 have "be_value (be_bytes (n div 256)) = n div 256" by simp
    then show ?thesis
      using False by (simp add: be_bytes.simps [of n] be_value_def)
  qed
qed

definition encodeBigInt :: "protowire \<Rightarrow> int \<Rightarrow> bytes" where
  "encodeBigInt pw x = fieldBool pw 1 (x < 0) @ fieldBytes pw 2 (be_bytes (nat \<bar>x\<bar>))"

section \<open>Dates and times\<close>

definition encodeDate :: "protowire \<Rightarrow> date \<Rightarrow> bytes" where
  "encodeDate pw x = fieldVarint pw 1 (d_Year x) @ fieldVarint pw 2 (d_Month x) @ fieldVarint pw 3 (d_Day x)"

definition opt_field :: "('a \<Rightarrow> bytes) \<Rightarrow> 'a option \<Rightarrow> bytes" where
  "opt_field f x = (case x of None \<Rightarrow> [] | Some v \<Rightarrow> f v)"

lemma opt_field_simps [simp]: "opt_field f None = []" "opt_field f (Some v) = f v"
  by (simp_all add: opt_field_def)

definition encodeDateTime :: "protowire \<Rightarrow> datetime \<Rightarrow> bytes" where
  "encodeDateTime pw x =
     encodeDate pw \<lparr>d_Year = dt_Year x, d_Month = dt_Month x, d_Day = dt_Day x\<rparr>
     @ fieldVarint pw 4 (dt_Hour x)
     @ fieldVarint pw 5 (dt_Minute x)
     @ fieldVarint pw 6 (dt_Second x)
     @ fieldVarint pw 7 (dt_Microsecond x)
     @ opt_field (fieldVarint pw 8) (dt_OffsetSeconds x)
     @ opt_field (fieldString pw 9) (dt_TimezoneName x)"

text \<open>Go's integer division truncates: \<open>x.Nanosecond() / 1000\<close>.\<close>

definition datetime_of_go :: "go_time \<Rightarrow> datetime" where
  "datetime_of_go x = \<lparr>dt_Year = gt_Year x, dt_Month = gt_Month x, dt_Day = gt_Day x,
     dt_Hour = gt_Hour x, dt_Minute = gt_Minute x, dt_Second = gt_Second x,
     dt_Microsecond = go_div (gt_Nanosecond x) 1000,
     dt_OffsetSeconds = Some (gt_ZoneOffset x), dt_TimezoneName = Some (gt_ZoneName x)\<rparr>"

definition encodeGoTime :: "protowire \<Rightarrow> go_time \<Rightarrow> bytes" where
  "encodeGoTime pw x = encodeDateTime pw (datetime_of_go x)"

definition encodeTime :: "protowire \<Rightarrow> time \<Rightarrow> bytes" where
  "encodeTime pw x =
     fieldVarint pw 1 (t_Hour x)
     @ fieldVarint pw 2 (t_Minute x)
     @ fieldVarint pw 3 (t_Second x)
     @ fieldVarint pw 4 (t_Microsecond x)
     @ opt_field (fieldVarint pw 5) (t_OffsetSeconds x)
     @ opt_field (fieldString pw 6) (t_TimezoneName x)
     @ fieldVarint pw 7 (t_Fold x)"

definition encodeTimeDelta :: "protowire \<Rightarrow> timedelta \<Rightarrow> bytes" where
  "encodeTimeDelta pw x =
     fieldVarint pw 1 (td_Days x) @ fieldVarint pw 2 (td_Seconds x) @ fieldVarint pw 3 (td_Microseconds x)"

text \<open>A \<open>time.Duration\<close> counts nanoseconds in an \<open>int64\<close>; its day, second and microsecond parts.\<close>

definition day_micros :: uint64 where "day_micros = 24 * 60 * 60 * 1000000"

definition duration_delta :: "uint64 \<Rightarrow> timedelta" where
  "duration_delta x =
     (let micros = go_div x 1000;
          days = go_div micros day_micros;
          micros = micros - days * day_micros;
          (days, micros) = (if micros <s 0 then (days - 1, micros + day_micros) else (days, micros))
      in \<lparr>td_Days = days, td_Seconds = go_div micros 1000000, td_Microseconds = go_mod micros 1000000\<rparr>)"

definition encodeDuration :: "protowire \<Rightarrow> uint64 \<Rightarrow> bytes" where
  "encodeDuration pw x = encodeTimeDelta pw (duration_delta x)"

definition encodeTimeZone :: "protowire \<Rightarrow> timezone \<Rightarrow> bytes" where
  "encodeTimeZone pw x = fieldVarint pw 1 (tz_OffsetSeconds x) @ opt_field (fieldString pw 2) (tz_Name x)"

section \<open>Other leaf messages\<close>

definition encodeException :: "protowire \<Rightarrow> exception_value \<Rightarrow> bytes" where
  "encodeException pw x =
     fieldString pw 1 (xv_Type x) @ (if xv_Message x \<noteq> [] then fieldString pw 2 (xv_Message x) else [])"

definition encodeFileHandle :: "protowire \<Rightarrow> file_handle \<Rightarrow> bytes" where
  "encodeFileHandle pw x =
     fieldString pw 1 (fh_Path x) @ fieldString pw 2 (fh_Mode x) @ fieldVarint pw 3 (fh_Position x)"

definition encodeFunction :: "protowire \<Rightarrow> function_marker \<Rightarrow> bytes" where
  "encodeFunction pw x = fieldString pw 1 (fn_Name x) @ opt_field (fieldString pw 2) (fn_Docstring x)"

end
