(* ===== verification/Encode.thy ===== *)
theory Encode
  imports Values "HOL-Library.Char_ord" "HOL-Library.List_Lexorder"
begin

text \<open>
  \<open>encodeValue\<close> and the \<open>valueEncoder\<close> of \<open>value.go\<close> (lines 200-464): host values to the
  recursive value messages.

  Go values share memory.  A slice, map or pointer that may be reached twice is \<open>HRef a\<close>;
  the \<open>heap\<close> says what lies at \<open>a\<close>.  An address of the model stands for the \<open>visit\<close> key of the
  code, a pointer together with its Go type.  Containers written out in the value itself
  are reached by one path only, so the code's \<open>stack\<close> never holds them.
\<close>

datatype cell =
    CPointer string Value           \<comment> \<open>a pointer of the named type to the value\<close>
  | CMarshaler string "go_error + string" \<comment> \<open>a pointer whose type has \<open>MarshalText\<close>\<close>
  | CContainer string Value         \<comment> \<open>a slice or map with these contents\<close>

type_synonym heap = "(nat \<times> cell) list"

definition maxValueDepth :: nat where "maxValueDepth = 100"

fun container_len :: "Value \<Rightarrow> nat" where
  "container_len (VList xs) = length xs"
| "container_len (VTuple xs) = length xs"
| "container_len (VSet xs) = length xs"
| "container_len (VFrozenSet xs) = length xs"
| "container_len (VDict d) = length d"
| "container_len (VBytes b) = length b"
| "container_len (HSlice xs) = length xs"
| "container_len (HMap b d) = length d"
| "container_len _ = 0"

section \<open>Containers, given an encoder for what they hold\<close>

definition wrap_err :: "(go_error \<Rightarrow> go_error) \<Rightarrow> go_error + 'a \<Rightarrow> go_error + 'a" where
  "wrap_err w r = (case r of Inl e \<Rightarrow> Inl (w e) | Inr x \<Rightarrow> Inr x)"

definition encodeObjectList ::
  "protowire \<Rightarrow> (Value \<Rightarrow> go_error + bytes) \<Rightarrow> nat \<Rightarrow> Value list \<Rightarrow> go_error + bytes" where
  "encodeObjectList pw encode t values =
     bind_res (map_res encode values) (\<lambda>items. Inr (fieldMessage pw t (concat (map (fieldMessage pw 1) items))))"

definition encodeReflectList ::
  "protowire \<Rightarrow> (Value \<Rightarrow> go_error + bytes) \<Rightarrow> nat \<Rightarrow> Value list \<Rightarrow> go_error + bytes" where
  "encodeReflectList pw encode t values =
     bind_res (map_res (\<lambda>(i, x). wrap_err (\<lambda>e. Errorf ''index %d: %w'' [AInt (int i), AErr e]) (encode x))
                 (enumerate 0 values))
       (\<lambda>items. Inr (fieldMessage pw t (concat (map (fieldMessage pw 1) items))))"

definition encodePair ::
  "protowire \<Rightarrow> (Value \<Rightarrow> go_error + bytes) \<Rightarrow> nat \<Rightarrow> Value \<times> Value \<Rightarrow> go_error + bytes" where
  "encodePair pw encode i p =
     bind_res (wrap_err (\<lambda>e. Errorf ''dict key %d: %w'' [AInt (int i), AErr e]) (encode (fst p)))
       (\<lambda>key. bind_res (wrap_err (\<lambda>e. Errorf ''dict value %d: %w'' [AInt (int i), AErr e]) (encode (snd p)))
         (\<lambda>value. Inr (fieldMessage pw 1 key @ fieldMessage pw 2 value)))"

definition encodeDict ::
  "protowire \<Rightarrow> (Value \<Rightarrow> go_error + bytes) \<Rightarrow> dict \<Rightarrow> go_error + bytes" where
  "encodeDict pw encode d =
     bind_res (map_res (\<lambda>(i, p). encodePair pw encode i p) (enumerate 0 d))
       (\<lambda>pairs. Inr (fieldMessage pw 14 (concat (map (fieldMessage pw 1) pairs))))"

text \<open>
  Map keys of a string kind are sorted, those of the package's own string types too; others come
  in the order the map gives them.  The value of a key that marshals itself (\<open>HText\<close>) does not show
  its string: such a map lists its entries in the order of the strings.
\<close>

definition string_key :: "Value \<times> Value \<Rightarrow> string" where
  "string_key p = (case fst p of
      VString s \<Rightarrow> s | VType s \<Rightarrow> s | VInstanceType s \<Rightarrow> s | VBuiltinFunction s \<Rightarrow> s | VPath s \<Rightarrow> s
    | VRepr s \<Rightarrow> s | _ \<Rightarrow> [])"

definition map_entries :: "bool \<Rightarrow> dict \<Rightarrow> dict" where
  "map_entries string_keys d = (if string_keys then sort_key string_key d else d)"

definition encodeMap ::
  "protowire \<Rightarrow> (Value \<Rightarrow> go_error + bytes) \<Rightarrow> bool \<Rightarrow> dict \<Rightarrow> go_error + bytes" where
  "encodeMap pw encode string_keys d = encodeDict pw encode (map_entries string_keys d)"

text \<open>
  The name a struct field gets: the \<open>monty\<close> tag, else the part of the \<open>json\<close> tag before the
  comma, else the Go name; unexported fields and fields tagged \<open>-\<close> are left out.
\<close>

definition field_name :: "'v struct_field \<Rightarrow> string option" where
  "field_name f =
     (if \<not> sfd_exported f then None else
      let name = sfd_monty f in
      if name = ''-'' then None else
      let name = (if name = [] then takeWhile (\<lambda>c. c \<noteq> CHR '','') (sfd_json f) else name) in
      if name = ''-'' then None
      else Some (if name = [] then sfd_name f else name))"

definition struct_entry :: "Value struct_field \<Rightarrow> (Value \<times> Value) option" where
  "struct_entry f = map_option (\<lambda>n. (VString n, sfd_value f)) (field_name f)"

definition encodeStruct ::
  "protowire \<Rightarrow> (Value \<Rightarrow> go_error + bytes) \<Rightarrow> Value struct_field list \<Rightarrow> go_error + bytes" where
  "encodeStruct pw encode fs = encodeDict pw encode (List.map_filter struct_entry fs)"

definition encodeNamedTuple ::
  "protowire \<Rightarrow> (Value \<Rightarrow> go_error + bytes) \<Rightarrow> string \<Rightarrow> string list \<Rightarrow> Value list \<Rightarrow> go_error + bytes" where
  "encodeNamedTuple pw encode name names values =
     bind_res (map_res (\<lambda>(i, x). wrap_err (\<lambda>e. Errorf ''named tuple value %d: %w'' [AInt (int i), AErr e]) (encode x))
                 (enumerate 0 values))
       (\<lambda>items. Inr (fieldMessage pw 13
          (fieldString pw 1 name @ concat (map (fieldString pw 2) names) @ concat (map (fieldMessage pw 3) items))))"

section \<open>One node\<close>

text \<open>
  An array whose elements have a defined type with underlying type \<open>uint8\<close> is no \<open>Value\<close> here: its
  \<open>reflect.Copy\<close> (line 357) panics.  \<open>HByteArray\<close> is an array of \<open>uint8\<close> itself.
\<close>

definition marshal_text :: "protowire \<Rightarrow> string \<Rightarrow> go_error + string \<Rightarrow> go_error + bytes" where
  "marshal_text pw ty r =
     bind_res (wrap_err (\<lambda>e. Errorf ''marshal %s: %w'' [AStr ty, AErr e]) r) (\<lambda>text. Inr (fieldString pw 8 text))"

definition output_only :: "string \<Rightarrow> go_error" where
  "output_only ty = Errorf ''%T is output-only; host objects are not supported'' [AStr ty]"

definition unsupported_type :: "string \<Rightarrow> go_error" where
  "unsupported_type ty = Errorf ''unsupported host value type %s'' [AStr ty]"

definition encodeModuleValue ::
  "protowire \<Rightarrow> (Value \<Rightarrow> go_error + bytes) \<Rightarrow> Value module_value \<Rightarrow> go_error + bytes" where
  "encodeModuleValue pw encode m =
     bind_res (encodeDict pw encode (mod_Attrs m)) (\<lambda>attrs.
       Inr (fieldMessage pw 32
         (fieldString pw 1 (mod_Name m)
          @ fieldMessage pw 2 (fieldBytes pw 1 (uuid_bytes (mod_ID m)))
          @ fieldMessage pw 3 (decodeBytesField pw attrs 14))))"

text \<open>\<open>uint64\<close> values above \<open>math.MaxInt64\<close> are sent as big integers.\<close>

definition encodeUint :: "protowire \<Rightarrow> uint64 \<Rightarrow> bytes" where
  "encodeUint pw u =
     (if u \<le> 2 ^ 63 - 1 then fieldSInt64 pw 5 u else fieldMessage pw 6 (encodeBigInt pw (uint u)))"

fun encode_node :: "protowire \<Rightarrow> (Value \<Rightarrow> go_error + bytes) \<Rightarrow> Value \<Rightarrow> go_error + bytes" where
  "encode_node pw encode VNil = Inr (fieldMessage pw 2 [])"
| "encode_node pw encode HNilPtr = Inr (fieldMessage pw 2 [])"
| "encode_node pw encode VEllipsis = Inr (fieldMessage pw 1 [])"
| "encode_node pw encode VNotImplemented = Inr (fieldMessage pw 3 [])"
| "encode_node pw encode (VTuple xs) = encodeObjectList pw encode 12 xs"
| "encode_node pw encode (VList xs) = encodeObjectList pw encode 11 xs"
| "encode_node pw encode (VSet xs) = encodeObjectList pw encode 15 xs"
| "encode_node pw encode (VFrozenSet xs) = encodeObjectList pw encode 16 xs"
| "encode_node pw encode (VDict d) = encodeDict pw encode d"
| "encode_node pw encode (VNamedTuple n fs xs) = encodeNamedTuple pw encode n fs xs"
| "encode_node pw encode (VDate x) = Inr (fieldMessage pw 17 (encodeDate pw x))"
| "encode_node pw encode (VTime x) = Inr (fieldMessage pw 18 (encodeTime pw x))"
| "encode_node pw encode (VClassType c) = Inl (output_only ''monty.ClassType'')"
| "encode_node pw encode (VClassInstance c i d) = Inl (output_only ''monty.ClassInstance'')"
| "encode_node pw encode (VDateTime x) = Inr (fieldMessage pw 19 (encodeDateTime pw x))"
| "encode_node pw encode (VTimeDelta x) = Inr (fieldMessage pw 20 (encodeTimeDelta pw x))"
| "encode_node pw encode (VTimeZone x) = Inr (fieldMessage pw 21 (encodeTimeZone pw x))"
| "encode_node pw encode (VException x) = Inr (fieldMessage pw 22 (encodeException pw x))"
| "encode_node pw encode (VType s) = Inr (fieldMessage pw 23 (fieldString pw 1 s @ fieldVarint pw 3 1))"
| "encode_node pw encode (VBuiltinFunction s) = Inr (fieldString pw 26 s)"
| "encode_node pw encode (VPath s) = Inr (fieldString pw 27 s)"
| "encode_node pw encode (VFileHandle x) = Inr (fieldMessage pw 28 (encodeFileHandle pw x))"
| "encode_node pw encode (VDataclass n i fs d fr) =
     Inl (Errorf ''Dataclass inputs are no longer supported by Monty protocol v2; use a Dict or Go struct'' [])"
| "encode_node pw encode (VFunction x) = Inr (fieldMessage pw 25 (encodeFunction pw x))"
| "encode_node pw encode (VExternalModule m) =
     Inl (Errorf ''an ExternalModule enters the sandbox through CheckoutOptions.ExternalModules'' [])"
| "encode_node pw encode (VModule m) = encodeModuleValue pw encode m"
| "encode_node pw encode (VInstanceType s) = Inl (Errorf ''InstanceType cannot be used as an execution input'' [])"
| "encode_node pw encode (VBigInt i) = Inr (fieldMessage pw 6 (encodeBigInt pw i))"
| "encode_node pw encode (HBigInt i) = Inr (fieldMessage pw 6 (encodeBigInt pw i))"
| "encode_node pw encode (HTime x) = Inr (fieldMessage pw 19 (encodeGoTime pw x))"
| "encode_node pw encode (HDuration x) = Inr (fieldMessage pw 20 (encodeDuration pw x))"
| "encode_node pw encode (HText r) = marshal_text pw ''encoding.TextMarshaler'' r"
| "encode_node pw encode (VBool b) = Inr (fieldBool pw 4 b)"
| "encode_node pw encode (VInt64 w) = Inr (fieldSInt64 pw 5 w)"
| "encode_node pw encode (HInt k w) = Inr (fieldSInt64 pw 5 w)"
| "encode_node pw encode (HUint k u) = Inr (encodeUint pw u)"
| "encode_node pw encode (VFloat64 w) = Inr (fieldFixed64 pw 7 w)"
| "encode_node pw encode (HFloat32 w) = Inr (fieldFixed64 pw 7 w)"
| "encode_node pw encode (VComplex128 re im) = Inr (fieldMessage pw 31 (fieldFixed64 pw 1 re @ fieldFixed64 pw 2 im))"
| "encode_node pw encode (HComplex64 re im) = Inr (fieldMessage pw 31 (fieldFixed64 pw 1 re @ fieldFixed64 pw 2 im))"
| "encode_node pw encode (VString s) = Inr (fieldString pw 8 s)"
| "encode_node pw encode (VRepr s) = Inr (fieldString pw 8 s)"
| "encode_node pw encode (VBytes b) = Inr (fieldBytes pw 9 b)"
| "encode_node pw encode (HByteArray b) = Inr (fieldBytes pw 9 b)"
| "encode_node pw encode (HSlice xs) = encodeReflectList pw encode 11 xs"
| "encode_node pw encode (HArray xs) = encodeReflectList pw encode 11 xs"
| "encode_node pw encode (HMap sk d) = encodeMap pw encode sk d"
| "encode_node pw encode (HStruct fs) = encodeStruct pw encode fs"
| "encode_node pw encode (VCycle i p) =
     encodeStruct pw encode [StructField True [] [] ''Identity'' (HUint Uint64 i),
                             StructField True [] [] ''Placeholder'' (VString p)]"
| "encode_node pw encode (HAsync f) = encodeStruct pw encode [StructField True [] [] ''Function'' f]"
| "encode_node pw encode (HFunc i doc) = Inl (unsupported_type ''func'')"
| "encode_node pw encode (HOther ty) = Inl (unsupported_type ty)"
| "encode_node pw encode (HRef a) = Inl (unsupported_type ''reference'')"

section \<open>The encoder\<close>

text \<open>
  \<open>stack\<close> holds the addresses on the path from the root.  A pointer keeps the depth, a
  container's elements are one deeper; an address outside the heap is a nil pointer.
  The definition is total: a step down raises the depth, which stops at
  \<^const>\<open>maxValueDepth\<close>, and a pointer step puts a new heap address on the stack.
\<close>

definition cyclic_error :: "string \<Rightarrow> go_error" where
  "cyclic_error ty = Errorf ''cyclic host value of type %s'' [AStr ty]"

definition on_heap :: "heap \<Rightarrow> nat list \<Rightarrow> nat set" where
  "on_heap h stack = fst ` set h - set stack"

lemma on_heap_push:
  assumes "map_of h a = Some c" and "a \<notin> set stack"
  shows "card (on_heap h (a # stack)) < card (on_heap h stack)"
proof (rule psubset_card_mono)
  show "finite (on_heap h stack)" by (simp add: on_heap_def)
  have "a \<in> fst ` set h" using assms(1) by (auto dest: map_of_SomeD intro: image_eqI [of _ fst "(a, c)"])
  then show "on_heap h (a # stack) \<subset> on_heap h stack"
    using assms(2) by (auto simp: on_heap_def)
qed

function encode :: "protowire \<Rightarrow> heap \<Rightarrow> nat list \<Rightarrow> nat \<Rightarrow> Value \<Rightarrow> go_error + bytes" where
  "encode pw h stack depth v =
     (if depth > maxValueDepth then Inl (Errorf ''max input depth exceeded'' [])
      else case v of
        HRef a \<Rightarrow>
          (case map_of h a of
             None \<Rightarrow> Inr (fieldMessage pw 2 [])
           | Some (CPointer ty x) \<Rightarrow>
               if a \<in> set stack then Inl (cyclic_error ty)
               else (case x of
                       HTime t \<Rightarrow> marshal_text pw ty (gt_Text t)
                     | _ \<Rightarrow> encode pw h (a # stack) depth x)
           | Some (CMarshaler ty r) \<Rightarrow>
               if a \<in> set stack then Inl (cyclic_error ty) else marshal_text pw ty r
           | Some (CContainer ty x) \<Rightarrow>
               if a \<in> set stack \<and> 0 < container_len x then Inl (cyclic_error ty)
               else encode_node pw
                      (\<lambda>y. encode pw h (if 0 < container_len x then a # stack else stack) (Suc depth) y) x)
      | _ \<Rightarrow> encode_node pw (\<lambda>y. encode pw h stack (Suc depth) y) v)"
  by pat_completeness auto
termination
  by (relation "measures [\<lambda>(pw, h, stack, depth, v). Suc maxValueDepth - depth,
                          \<lambda>(pw, h, stack, depth, v). card (on_heap h stack)]")
    (auto simp: on_heap_push)

declare encode.simps [simp del]

definition encodeValue :: "protowire \<Rightarrow> heap \<Rightarrow> Value \<Rightarrow> go_error + bytes" where
  "encodeValue pw h v = encode pw h [] 0 v"

end
