(* ===== verification/Decode.thy ===== *)
theory Decode
  imports Values
begin

text \<open>
  \<open>decodeValue\<close> and its helpers (\<open>wire.go\<close> lines 143-507), the class and UUID decoders of
  \<open>class_value.go\<close> and \<open>decodeModule\<close> of \<open>module.go\<close>: value messages to host values.

  The helpers of the recursive decoder take the decoder for the payloads as an argument,
  as \<open>decodeModule\<close> does in the code.  \<open>decode_value\<close> closes the recursion with a bound on
  the nesting; a message of \<open>n\<close> bytes cannot nest deeper than \<open>n\<close>, so the bound
  \<open>length data + 1\<close> of \<open>decodeValue\<close> is never reached (\<open>decodeValue_unfold\<close>).
\<close>

section \<open>Leaf messages\<close>

definition decodeComplex :: "protowire \<Rightarrow> bytes \<Rightarrow> go_error + uint64 \<times> uint64" where
  "decodeComplex pw data =
     bind_res (parse_result pw data
        (\<lambda>f (re, im, seen0, seen1).
           if tag f \<noteq> 1 \<and> tag f \<noteq> 2 then ok (re, im, seen0, seen1)
           else if wtype f \<noteq> Fixed64Type
             then fail (re, im, seen0, seen1) (Errorf ''complex part %d must be fixed64'' [AInt (int (tag f))])
           else if tag f = 1 then ok (fixed64 f, im, True, seen1)
           else ok (re, fixed64 f, seen0, True))
        (0, 0, False, False))
       (\<lambda>(re, im, seen0, seen1).
          if \<not> seen0 \<or> \<not> seen1 then Inl (Errorf ''complex value requires real and imaginary parts'' [])
          else Inr (re, im))"

definition decodeBigInt :: "protowire \<Rightarrow> bytes \<Rightarrow> go_error + int" where
  "decodeBigInt pw data =
     bind_res (parse_result pw data
        (\<lambda>x (negative, magnitude).
           let negative = (if tag x = 1 then varint x \<noteq> 0 else negative);
               magnitude = (if tag x = 2 then bytes x else magnitude)
           in ok (negative, magnitude)) (False, []))
       (\<lambda>(negative, magnitude).
          let z = int (be_value magnitude) in Inr (if negative then - z else z))"

definition decodeDate :: "protowire \<Rightarrow> bytes \<Rightarrow> date" where
  "decodeDate pw data = parse_ignore pw data
     (\<lambda>f x. if tag f = 1 then x\<lparr>d_Year := int_of_int32 (varint f)\<rparr>
            else if tag f = 2 then x\<lparr>d_Month := varint f\<rparr>
            else if tag f = 3 then x\<lparr>d_Day := varint f\<rparr>
            else x)
     \<lparr>d_Year = 0, d_Month = 0, d_Day = 0\<rparr>"

definition decodeTime :: "protowire \<Rightarrow> bytes \<Rightarrow> time" where
  "decodeTime pw data = parse_ignore pw data
     (\<lambda>f x. if tag f = 1 then x\<lparr>t_Hour := varint f\<rparr>
            else if tag f = 2 then x\<lparr>t_Minute := varint f\<rparr>
            else if tag f = 3 then x\<lparr>t_Second := varint f\<rparr>
            else if tag f = 4 then x\<lparr>t_Microsecond := varint f\<rparr>
            else if tag f = 5 then x\<lparr>t_OffsetSeconds := Some (int_of_int32 (varint f))\<rparr>
            else if tag f = 6 then x\<lparr>t_TimezoneName := Some (bytes f)\<rparr>
            else if tag f = 7 then x\<lparr>t_Fold := varint f\<rparr>
            else x)
     \<lparr>t_Hour = 0, t_Minute = 0, t_Second = 0, t_Microsecond = 0,
      t_OffsetSeconds = None, t_TimezoneName = None, t_Fold = 0\<rparr>"

definition decodeDateTime :: "protowire \<Rightarrow> bytes \<Rightarrow> datetime" where
  "decodeDateTime pw data = parse_ignore pw data
     (\<lambda>f x. if tag f = 1 then x\<lparr>dt_Year := int_of_int32 (varint f)\<rparr>
            else if tag f = 2 then x\<lparr>dt_Month := varint f\<rparr>
            else if tag f = 3 then x\<lparr>dt_Day := varint f\<rparr>
            else if tag f = 4 then x\<lparr>dt_Hour := varint f\<rparr>
            else if tag f = 5 then x\<lparr>dt_Minute := varint f\<rparr>
            else if tag f = 6 then x\<lparr>dt_Second := varint f\<rparr>
            else if tag f = 7 then x\<lparr>dt_Microsecond := varint f\<rparr>
            else if tag f = 8 then x\<lparr>dt_OffsetSeconds := Some (int_of_int32 (varint f))\<rparr>
            else if tag f = 9 then x\<lparr>dt_TimezoneName := Some (bytes f)\<rparr>
            else x)
     \<lparr>dt_Year = 0, dt_Month = 0, dt_Day = 0, dt_Hour = 0, dt_Minute = 0, dt_Second = 0,
      dt_Microsecond = 0, dt_OffsetSeconds = None, dt_TimezoneName = None\<rparr>"

definition decodeTimeDelta :: "protowire \<Rightarrow> bytes \<Rightarrow> timedelta" where
  "decodeTimeDelta pw data = parse_ignore pw data
     (\<lambda>f x. if tag f = 1 then x\<lparr>td_Days := int_of_int32 (varint f)\<rparr>
            else if tag f = 2 then x\<lparr>td_Seconds := int_of_int32 (varint f)\<rparr>
            else if tag f = 3 then x\<lparr>td_Microseconds := int_of_int32 (varint f)\<rparr>
            else x)
     \<lparr>td_Days = 0, td_Seconds = 0, td_Microseconds = 0\<rparr>"

definition decodeTimeZone :: "protowire \<Rightarrow> bytes \<Rightarrow> timezone" where
  "decodeTimeZone pw data = parse_ignore pw data
     (\<lambda>f x. if tag f = 1 then x\<lparr>tz_OffsetSeconds := int_of_int32 (varint f)\<rparr>
            else if tag f = 2 then x\<lparr>tz_Name := Some (bytes f)\<rparr>
            else x)
     \<lparr>tz_OffsetSeconds = 0, tz_Name = None\<rparr>"

definition decodeExceptionValue :: "protowire \<Rightarrow> bytes \<Rightarrow> exception_value" where
  "decodeExceptionValue pw data = parse_ignore pw data
     (\<lambda>f x. if tag f = 1 then x\<lparr>xv_Type := bytes f\<rparr>
            else if tag f = 2 then x\<lparr>xv_Message := bytes f\<rparr>
            else x)
     \<lparr>xv_Type = [], xv_Message = []\<rparr>"

definition decodeFileHandle :: "protowire \<Rightarrow> bytes \<Rightarrow> file_handle" where
  "decodeFileHandle pw data = parse_ignore pw data
     (\<lambda>f x. if tag f = 1 then x\<lparr>fh_Path := bytes f\<rparr>
            else if tag f = 2 then x\<lparr>fh_Mode := bytes f\<rparr>
            else if tag f = 3 then x\<lparr>fh_Position := varint f\<rparr>
            else x)
     \<lparr>fh_Path = [], fh_Mode = [], fh_Position = 0\<rparr>"

definition decodeFunction :: "protowire \<Rightarrow> bytes \<Rightarrow> function_marker" where
  "decodeFunction pw data = parse_ignore pw data
     (\<lambda>f x. if tag f = 1 then x\<lparr>fn_Name := bytes f\<rparr>
            else if tag f = 2 then x\<lparr>fn_Docstring := Some (bytes f)\<rparr>
            else x)
     \<lparr>fn_Name = [], fn_Docstring = None\<rparr>"

definition decodeCycle :: "protowire \<Rightarrow> bytes \<Rightarrow> uint64 \<times> string" where
  "decodeCycle pw data = parse_ignore pw data
     (\<lambda>v (identity, placeholder).
        (if tag v = 1 then varint v else identity, if tag v = 2 then bytes v else placeholder))
     (0, [])"

section \<open>Identities\<close>

definition decodeUUID :: "protowire \<Rightarrow> bytes \<Rightarrow> go_error + uuid" where
  "decodeUUID pw data =
     bind_res (parse_result pw data
        (\<lambda>f (uid, seen).
           if tag f = 1 then
             (if length (bytes f) \<noteq> 16 then fail (uid, seen) (Errorf ''UUID must contain 16 bytes'' [])
              else ok (uuid_of_bytes (bytes f), True))
           else ok
        (uid, seen)) (0, False))
       (\<lambda>(uid, seen). if \<not> seen then Inl (Errorf ''UUID has no data'' []) else Inr uid)"

section \<open>Containers, given a decoder for what they hold\<close>

text \<open>A captured variable set by a nested decoder: \<open>x, err = decode(...)\<close>.\<close>

definition set_or_fail :: "go_error + 'a \<Rightarrow> ('a \<Rightarrow> 's) \<Rightarrow> 's \<Rightarrow> 's \<times> go_error option" where
  "set_or_fail r upd s = (case r of Inl e \<Rightarrow> fail s e | Inr x \<Rightarrow> ok (upd x))"

lemma set_or_fail_simps [simp]:
  "set_or_fail (Inl e) upd s = fail s e"
  "set_or_fail (Inr x) upd s = ok (upd x)"
  by (simp_all add: set_or_fail_def)

definition decodeObjectList :: "protowire \<Rightarrow> (bytes \<Rightarrow> go_error + Value) \<Rightarrow> bytes \<Rightarrow> go_error + Value list" where
  "decodeObjectList pw decode data = parse_result pw data
     (\<lambda>f items. if tag f \<noteq> 1 then ok items
                else set_or_fail (decode (bytes f)) (\<lambda>v. items @ [v]) items) []"

definition decodePair :: "protowire \<Rightarrow> (bytes \<Rightarrow> go_error + Value) \<Rightarrow> bytes \<Rightarrow> go_error + Value \<times> Value" where
  "decodePair pw decode data = parse_result pw data
     (\<lambda>p (k, v). set_or_fail (decode (bytes p))
        (\<lambda>x. if tag p = 1 then (x, v) else if tag p = 2 then (k, x) else (k, v)) (k, v)) (VNil, VNil)"

definition decodeDict :: "protowire \<Rightarrow> (bytes \<Rightarrow> go_error + Value) \<Rightarrow> bytes \<Rightarrow> go_error + dict" where
  "decodeDict pw decode data = parse_result pw data
     (\<lambda>f result. if tag f \<noteq> 1 then ok result
                 else set_or_fail (decodePair pw decode (bytes f)) (\<lambda>p. result @ [p]) result) []"

definition decodeNamedTuple ::
  "protowire \<Rightarrow> (bytes \<Rightarrow> go_error + Value) \<Rightarrow> bytes \<Rightarrow> go_error + string \<times> string list \<times> Value list" where
  "decodeNamedTuple pw decode data = parse_result pw data
     (\<lambda>f (name, names, values).
        if tag f = 1 then ok (bytes f, names, values)
        else if tag f = 2 then ok (name, names @ [bytes f], values)
        else if tag f = 3 then
          set_or_fail (decode (bytes f)) (\<lambda>v. (name, names, values @ [v])) (name, names, values)
        else ok (name, names, values)) ([], [], [])"

section \<open>Classes and modules\<close>

definition valid_origin :: "uint32 \<Rightarrow> bool" where
  "valid_origin w \<longleftrightarrow> TypeOriginBuiltin \<le> w \<and> w \<le> TypeOriginHost"

definition decodeClassType ::
  "protowire \<Rightarrow> (bytes \<Rightarrow> go_error + Value) \<Rightarrow> bytes \<Rightarrow> go_error + Value class_type" where
  "decodeClassType pw decode data =
     bind_res (parse_result pw data
        (\<lambda>f (name, uid, origin, dataclass, attrs, hasID).
           let s = (name, uid, origin, dataclass, attrs, hasID) in
           if tag f = 1 then ok (bytes f, uid, origin, dataclass, attrs, hasID)
           else if tag f = 2 then
             set_or_fail (decodeUUID pw (bytes f)) (\<lambda>i. (name, i, origin, dataclass, attrs, True)) s
           else if tag f = 3 then ok (name, uid, ucast (varint f), dataclass, attrs, hasID)
           else if tag f = 4 then ok (name, uid, origin, varint f \<noteq> 0, attrs, hasID)
           else if tag f = 5 then
             set_or_fail (decodeDict pw decode (bytes f)) (\<lambda>d. (name, uid, origin, dataclass, d, hasID)) s
           else ok s)
        ([], 0, 0, False, [], False))
       (\<lambda>(name, uid, origin, dataclass, attrs, hasID).
          if \<not> valid_origin origin then Inl (Errorf ''invalid type origin %d'' [AInt (uint origin)])
          else if hasID \<noteq> (origin \<noteq> TypeOriginBuiltin)
            then Inl (Errorf ''invalid identity for type origin %d'' [AInt (uint origin)])
          else Inr (ClassType name uid origin dataclass attrs))"

definition decodeClassInstance ::
  "protowire \<Rightarrow> (bytes \<Rightarrow> go_error + Value) \<Rightarrow> bytes \<Rightarrow> go_error + Value class_type \<times> uuid \<times> dict" where
  "decodeClassInstance pw decode data =
     bind_res (parse_result pw data
        (\<lambda>f (ty, uid, attrs, hasID).
           let s = (ty, uid, attrs, hasID) in
           if tag f = 1 then set_or_fail (decodeClassType pw decode (bytes f)) (\<lambda>t. (t, uid, attrs, hasID)) s
           else if tag f = 2 then set_or_fail (decodeUUID pw (bytes f)) (\<lambda>i. (ty, i, attrs, True)) s
           else if tag f = 3 then set_or_fail (decodeDict pw decode (bytes f)) (\<lambda>d. (ty, uid, d, hasID)) s
           else ok s)
        (ClassType [] 0 0 False [], 0, [], False))
       (\<lambda>(ty, uid, attrs, hasID).
          if \<not> hasID \<or> (ct_Origin ty \<noteq> TypeOriginSandbox \<and> ct_Origin ty \<noteq> TypeOriginHost)
            then Inl (Errorf ''class instance requires a class and instance identity'' [])
          else Inr (ty, uid, attrs))"

text \<open>Of the fields 1 to 3 each may occur once, as a message; identity and attributes must occur.\<close>

definition decodeModule ::
  "protowire \<Rightarrow> (bytes \<Rightarrow> go_error + dict) \<Rightarrow> bytes \<Rightarrow> go_error + Value module_value" where
  "decodeModule pw decodeAttrs data =
     bind_res (parse_result pw data
        (\<lambda>f (name, uid, attrs, seen).
           let s = (name, uid, attrs, seen); seen' = tag f # seen in
           if tag f < 1 \<or> 3 < tag f then ok s
           else if tag f \<in> set seen \<or> wtype f \<noteq> BytesType
             then fail s (Errorf ''invalid module field %d'' [AInt (int (tag f))])
           else if tag f = 1 then ok (bytes f, uid, attrs, seen')
           else if tag f = 2 then
             set_or_fail (decodeUUID pw (bytes f)) (\<lambda>i. (name, i, attrs, seen')) s
           else set_or_fail (decodeAttrs (bytes f)) (\<lambda>d. (name, uid, d, seen')) s)
        ([], 0, [], []))
       (\<lambda>(name, uid, attrs, seen).
          if 2 \<notin> set seen \<or> 3 \<notin> set seen then Inl (Errorf ''module requires identity and attributes'' [])
          else Inr (Module name uid attrs))"

section \<open>Values\<close>

text \<open>The switch of \<open>decodeValue\<close> on the kind of the field.\<close>

definition decode_kind ::
  "protowire \<Rightarrow> (bytes \<Rightarrow> go_error + Value) \<Rightarrow> wire_field \<Rightarrow> go_error + Value" where
  "decode_kind pw decode f =
     (if tag f = 1 then Inr VEllipsis
      else if tag f = 2 then Inr VNil
      else if tag f = 3 then Inr VNotImplemented
      else if tag f = 4 then Inr (VBool (varint f \<noteq> 0))
      else if tag f = 5 then Inr (VInt64 (DecodeZigZag pw (varint f)))
      else if tag f = 6 then bind_res (decodeBigInt pw (bytes f)) (\<lambda>z. Inr (VBigInt z))
      else if tag f = 7 then Inr (VFloat64 (fixed64 f))
      else if tag f = 31 then bind_res (decodeComplex pw (bytes f)) (\<lambda>(re, im). Inr (VComplex128 re im))
      else if tag f = 32 then bind_res (decodeModule pw (decodeDict pw decode) (bytes f)) (\<lambda>m. Inr (VModule m))
      else if tag f = 8 then Inr (VString (bytes f))
      else if tag f = 9 then Inr (VBytes (bytes f))
      else if tag f = 11 then bind_res (decodeObjectList pw decode (bytes f)) (\<lambda>items. Inr (VList items))
      else if tag f = 12 then bind_res (decodeObjectList pw decode (bytes f)) (\<lambda>items. Inr (VTuple items))
      else if tag f = 15 then bind_res (decodeObjectList pw decode (bytes f)) (\<lambda>items. Inr (VSet items))
      else if tag f = 16 then bind_res (decodeObjectList pw decode (bytes f)) (\<lambda>items. Inr (VFrozenSet items))
      else if tag f = 13 then
        bind_res (decodeNamedTuple pw decode (bytes f)) (\<lambda>(n, fs, vs). Inr (VNamedTuple n fs vs))
      else if tag f = 14 then bind_res (decodeDict pw decode (bytes f)) (\<lambda>d. Inr (VDict d))
      else if tag f = 17 then Inr (VDate (decodeDate pw (bytes f)))
      else if tag f = 18 then Inr (VTime (decodeTime pw (bytes f)))
      else if tag f = 19 then Inr (VDateTime (decodeDateTime pw (bytes f)))
      else if tag f = 20 then Inr (VTimeDelta (decodeTimeDelta pw (bytes f)))
      else if tag f = 21 then Inr (VTimeZone (decodeTimeZone pw (bytes f)))
      else if tag f = 22 then Inr (VException (decodeExceptionValue pw (bytes f)))
      else if tag f = 23 then
        bind_res (decodeClassType pw decode (bytes f))
          (\<lambda>x. Inr (if ct_Origin x = TypeOriginBuiltin then VType (ct_Name x) else VClassType x))
      else if tag f = 26 then Inr (VBuiltinFunction (bytes f))
      else if tag f = 27 then Inr (VPath (bytes f))
      else if tag f = 28 then Inr (VFileHandle (decodeFileHandle pw (bytes f)))
      else if tag f = 24 then
        bind_res (decodeClassInstance pw decode (bytes f)) (\<lambda>(ty, uid, attrs). Inr (VClassInstance ty uid attrs))
      else if tag f = 25 then Inr (VFunction (decodeFunction pw (bytes f)))
      else if tag f = 29 then Inr (VRepr (bytes f))
      else if tag f = 30 then (case decodeCycle pw (bytes f) of (i, p) \<Rightarrow> Inr (VCycle i p))
      else Inl (Errorf ''unknown MontyObject kind tag %d'' [AInt (int (tag f))]))"

definition value_field ::
  "protowire \<Rightarrow> (bytes \<Rightarrow> go_error + Value) \<Rightarrow> wire_field \<Rightarrow> Value \<times> bool \<Rightarrow> (Value \<times> bool) \<times> go_error option" where
  "value_field pw decode f s =
     (if snd s then fail s (Errorf ''MontyObject has multiple kind fields'' [])
      else set_or_fail (decode_kind pw decode f) (\<lambda>v. (v, True)) (fst s, True))"

definition decode_message :: "protowire \<Rightarrow> (bytes \<Rightarrow> go_error + Value) \<Rightarrow> bytes \<Rightarrow> go_error + Value" where
  "decode_message pw decode data =
     bind_res (parse_result pw data (value_field pw decode) (VNil, False))
       (\<lambda>(result, seen). if \<not> seen then Inl (Errorf ''MontyObject has no kind'' []) else Inr result)"

fun decode_value :: "protowire \<Rightarrow> nat \<Rightarrow> bytes \<Rightarrow> go_error + Value" where
  "decode_value pw 0 data = Inl OutOfFuel"
| "decode_value pw (Suc n) data = decode_message pw (decode_value pw n) data"

definition decodeValue :: "protowire \<Rightarrow> bytes \<Rightarrow> go_error + Value" where
  "decodeValue pw data = decode_value pw (Suc (length data)) data"

end
