(* ===== verification/Decode_Facts.thy ===== *)
theory Decode_Facts
  imports Decode
begin

text \<open>
  Facts about the decoders: the leaf codecs are inverse up to the 32-bit truncation the
  decoders make, and the recursion bound of \<open>decodeValue\<close> is never reached, so that
  \<open>decodeValue\<close> satisfies the code's recursion equation and always returns.
\<close>

section \<open>Leaf codecs\<close>

text \<open>
  The contract every pair of a leaf encoder and decoder meets: decoding what was encoded
  gives the value in the normal form of the wire (32-bit fields truncated).
\<close>

locale leaf_codec =
  fixes enc :: "'a \<Rightarrow> bytes"
    and dec :: "bytes \<Rightarrow> 'a"
    and norm :: "'a \<Rightarrow> 'a"
  assumes dec_enc: "dec (enc x) = norm x"
    and norm_norm: "norm (norm x) = norm x"
begin

lemma dec_enc_normal: "norm x = x \<Longrightarrow> dec (enc x) = x"
  by (simp add: dec_enc)

lemma enc_inj: "inj_on enc {x. norm x = x}"
proof (rule inj_onI)
  fix x y
  assume "x \<in> {x. norm x = x}" "y \<in> {x. norm x = x}" and e: "enc x = enc y"
  then have x: "norm x = x" and y: "norm y = y" by blast+
  have "x = dec (enc x)" by (simp only: dec_enc x)
  also have "\<dots> = dec (enc y)" by (simp only: e)
  also have "\<dots> = y" by (simp only: dec_enc y)
  finally show "x = y" .
qed

lemma reencode_stable: "dec (enc (dec (enc x))) = dec (enc x)"
  by (simp add: dec_enc norm_norm)

end

definition norm_date :: "date \<Rightarrow> date" where
  "norm_date x = x\<lparr>d_Year := int_of_int32 (d_Year x)\<rparr>"

definition norm_time :: "time \<Rightarrow> time" where
  "norm_time x = x\<lparr>t_OffsetSeconds := map_option int_of_int32 (t_OffsetSeconds x)\<rparr>"

definition norm_datetime :: "datetime \<Rightarrow> datetime" where
  "norm_datetime x = x\<lparr>dt_Year := int_of_int32 (dt_Year x),
     dt_OffsetSeconds := map_option int_of_int32 (dt_OffsetSeconds x)\<rparr>"

definition norm_timedelta :: "timedelta \<Rightarrow> timedelta" where
  "norm_timedelta x = \<lparr>td_Days = int_of_int32 (td_Days x), td_Seconds = int_of_int32 (td_Seconds x),
     td_Microseconds = int_of_int32 (td_Microseconds x)\<rparr>"

definition norm_timezone :: "timezone \<Rightarrow> timezone" where
  "norm_timezone x = x\<lparr>tz_OffsetSeconds := int_of_int32 (tz_OffsetSeconds x)\<rparr>"

lemma int_of_int32_idem [simp]: "int_of_int32 (int_of_int32 v) = int_of_int32 v"
  by (rule int_of_int32_fits [OF fits_int32_int_of_int32])

lemmas leaf_simps =
  parse_ignore_def varint_field_def fixed64_field_def bytes_field_def valid_tag_def
  fieldString_def fieldMessage_def fieldBool_def opt_field_def

context wire_format begin

lemmas leaf_parse = wire_simps leaf_simps

lemma decodeDate_encodeDate: "decodeDate pw (encodeDate pw x) = norm_date x"
  by (simp add: decodeDate_def encodeDate_def norm_date_def leaf_parse)

lemma decodeTime_encodeTime: "decodeTime pw (encodeTime pw x) = norm_time x"
  by (cases "t_OffsetSeconds x"; cases "t_TimezoneName x")
    (simp_all add: decodeTime_def encodeTime_def norm_time_def leaf_parse)

lemma decodeDateTime_encodeDateTime: "decodeDateTime pw (encodeDateTime pw x) = norm_datetime x"
  by (cases "dt_OffsetSeconds x"; cases "dt_TimezoneName x")
    (simp_all add: decodeDateTime_def encodeDateTime_def encodeDate_def norm_datetime_def leaf_parse)

lemma decodeTimeDelta_encodeTimeDelta: "decodeTimeDelta pw (encodeTimeDelta pw x) = norm_timedelta x"
  by (simp add: decodeTimeDelta_def encodeTimeDelta_def norm_timedelta_def leaf_parse)

lemma decodeTimeZone_encodeTimeZone: "decodeTimeZone pw (encodeTimeZone pw x) = norm_timezone x"
  by (cases "tz_Name x")
    (simp_all add: decodeTimeZone_def encodeTimeZone_def norm_timezone_def leaf_parse)

lemma decodeExceptionValue_encodeException: "decodeExceptionValue pw (encodeException pw x) = x"
  by (simp add: decodeExceptionValue_def encodeException_def leaf_parse)

lemma decodeFileHandle_encodeFileHandle: "decodeFileHandle pw (encodeFileHandle pw x) = x"
  by (simp add: decodeFileHandle_def encodeFileHandle_def leaf_parse)

lemma decodeFunction_encodeFunction: "decodeFunction pw (encodeFunction pw x) = x"
  by (cases "fn_Docstring x") (simp_all add: decodeFunction_def encodeFunction_def leaf_parse)

lemma decodeBigInt_encodeBigInt: "decodeBigInt pw (encodeBigInt pw x) = Inr x"
  by (simp add: decodeBigInt_def encodeBigInt_def parse_result_def leaf_parse)

lemma decodeComplex_fields:
  "decodeComplex pw (fieldFixed64 pw 1 re @ fieldFixed64 pw 2 im) = Inr (re, im)"
  by (simp add: decodeComplex_def parse_result_def leaf_parse)

lemma decodeUUID_field: "decodeUUID pw (fieldBytes pw 1 (uuid_bytes u)) = Inr u"
  by (simp add: decodeUUID_def parse_result_def leaf_parse)

end

sublocale wire_format \<subseteq> date: leaf_codec "encodeDate pw" "decodeDate pw" norm_date
  by unfold_locales (simp_all add: decodeDate_encodeDate norm_date_def)

sublocale wire_format \<subseteq> time: leaf_codec "encodeTime pw" "decodeTime pw" norm_time
  by unfold_locales (simp_all add: decodeTime_encodeTime norm_time_def option.map_comp comp_def)

sublocale wire_format \<subseteq> datetime: leaf_codec "encodeDateTime pw" "decodeDateTime pw" norm_datetime
  by unfold_locales (simp_all add: decodeDateTime_encodeDateTime norm_datetime_def option.map_comp comp_def)

sublocale wire_format \<subseteq> timedelta: leaf_codec "encodeTimeDelta pw" "decodeTimeDelta pw" norm_timedelta
  by unfold_locales (simp_all add: decodeTimeDelta_encodeTimeDelta norm_timedelta_def)

sublocale wire_format \<subseteq> timezone: leaf_codec "encodeTimeZone pw" "decodeTimeZone pw" norm_timezone
  by unfold_locales (simp_all add: decodeTimeZone_encodeTimeZone norm_timezone_def)

sublocale wire_format \<subseteq> exception_value: leaf_codec "encodeException pw" "decodeExceptionValue pw" "\<lambda>x. x"
  by unfold_locales (simp_all add: decodeExceptionValue_encodeException)

sublocale wire_format \<subseteq> file_handle: leaf_codec "encodeFileHandle pw" "decodeFileHandle pw" "\<lambda>x. x"
  by unfold_locales (simp_all add: decodeFileHandle_encodeFileHandle)

sublocale wire_format \<subseteq> function_marker: leaf_codec "encodeFunction pw" "decodeFunction pw" "\<lambda>x. x"
  by unfold_locales (simp_all add: decodeFunction_encodeFunction)

section \<open>The recursion\<close>

text \<open>A decoder for containers looks only at payloads shorter than the message.\<close>

context wire_format begin

lemma decodeObjectList_cong:
  "(\<And>b. length b < length data \<Longrightarrow> dec b = dec' b) \<Longrightarrow>
    decodeObjectList pw dec data = decodeObjectList pw dec' data"
  unfolding decodeObjectList_def parse_result_def
  by (intro arg_cong [of _ _ result_of] parseFields_cong) simp

lemma decodePair_cong:
  "(\<And>b. length b < length data \<Longrightarrow> dec b = dec' b) \<Longrightarrow>
    decodePair pw dec data = decodePair pw dec' data"
  unfolding decodePair_def parse_result_def
  by (intro arg_cong [of _ _ result_of] parseFields_cong) auto

lemma decodeDict_cong:
  assumes "\<And>b. length b < length data \<Longrightarrow> dec b = dec' b"
  shows "decodeDict pw dec data = decodeDict pw dec' data"
proof -
  have "decodePair pw dec b = decodePair pw dec' b" if "length b < length data" for b
    using that assms by (intro decodePair_cong) simp
  then show ?thesis
    unfolding decodeDict_def parse_result_def
    by (intro arg_cong [of _ _ result_of] parseFields_cong) auto
qed

lemma decodeNamedTuple_cong:
  "(\<And>b. length b < length data \<Longrightarrow> dec b = dec' b) \<Longrightarrow>
    decodeNamedTuple pw dec data = decodeNamedTuple pw dec' data"
  unfolding decodeNamedTuple_def parse_result_def
  by (intro arg_cong [of _ _ result_of] parseFields_cong) auto

lemma parse_bind_cong:
  "(\<And>f s. length (bytes f) < length data \<Longrightarrow> fn f s = fn' f s) \<Longrightarrow>
    bind_res (parse_result pw data fn s) g = bind_res (parse_result pw data fn' s) g"
  unfolding parse_result_def
  by (intro arg_cong [of _ _ "\<lambda>r. bind_res (result_of r) g"] parseFields_cong)

lemma decodeClassType_cong:
  assumes "\<And>b. length b < length data \<Longrightarrow> dec b = dec' b"
  shows "decodeClassType pw dec data = decodeClassType pw dec' data"
proof -
  have "decodeDict pw dec b = decodeDict pw dec' b" if "length b < length data" for b
    using that assms by (intro decodeDict_cong) simp
  then show ?thesis
    unfolding decodeClassType_def by (intro parse_bind_cong) (auto simp: Let_def)
qed

lemma decodeClassInstance_cong:
  assumes "\<And>b. length b < length data \<Longrightarrow> dec b = dec' b"
  shows "decodeClassInstance pw dec data = decodeClassInstance pw dec' data"
proof -
  have "decodeDict pw dec b = decodeDict pw dec' b" "decodeClassType pw dec b = decodeClassType pw dec' b"
    if "length b < length data" for b
    using that assms by (intro decodeDict_cong decodeClassType_cong; simp)+
  then show ?thesis
    unfolding decodeClassInstance_def by (intro parse_bind_cong) (auto simp: Let_def)
qed

lemma decodeModule_cong:
  "(\<And>b. length b < length data \<Longrightarrow> decA b = decA' b) \<Longrightarrow>
    decodeModule pw decA data = decodeModule pw decA' data"
  unfolding decodeModule_def by (intro parse_bind_cong) (auto simp: Let_def)

lemma decode_kind_cong:
  assumes "\<And>b. length b \<le> length (bytes f) \<Longrightarrow> dec b = dec' b"
  shows "decode_kind pw dec f = decode_kind pw dec' f"
proof -
  have d: "dec b = dec' b" if "length b < length (bytes f)" for b using that assms by simp
  then have "decodeDict pw dec b = decodeDict pw dec' b" if "length b < length (bytes f)" for b
    using that by (intro decodeDict_cong) simp
  then have m: "decodeModule pw (decodeDict pw dec) (bytes f) = decodeModule pw (decodeDict pw dec') (bytes f)"
    by (rule decodeModule_cong)
  note c = m decodeObjectList_cong [of "bytes f" dec dec', OF d] decodeNamedTuple_cong [of "bytes f" dec dec', OF d]
    decodeDict_cong [of "bytes f" dec dec', OF d] decodeClassType_cong [of "bytes f" dec dec', OF d]
    decodeClassInstance_cong [of "bytes f" dec dec', OF d]
  show ?thesis unfolding decode_kind_def by (simp only: c)
qed

lemma decode_message_cong:
  assumes "\<And>b. length b < length data \<Longrightarrow> dec b = dec' b"
  shows "decode_message pw dec data = decode_message pw dec' data"
proof -
  have "decode_kind pw dec f = decode_kind pw dec' f" if "length (bytes f) < length data" for f
    using that assms by (intro decode_kind_cong) simp
  then have "parse_result pw data (value_field pw dec) s = parse_result pw data (value_field pw dec') s" for s
    unfolding parse_result_def by (intro arg_cong [of _ _ result_of] parseFields_cong) (simp add: value_field_def)
  then show ?thesis by (simp add: decode_message_def)
qed

lemma decode_value_fuel:
  "length data < n \<Longrightarrow> length data < m \<Longrightarrow> decode_value pw n data = decode_value pw m data"
proof (induction data arbitrary: n m rule: length_induct)
  case (1 data)
  obtain n' m' where nm: "n = Suc n'" "m = Suc m'" using "1.prems" by (cases n; cases m) auto
  have "decode_value pw n' b = decode_value pw m' b" if "length b < length data" for b
    using that "1.prems" nm by (intro "1.IH" [rule_format]) simp_all
  then show ?case unfolding nm decode_value.simps by (rule decode_message_cong)
qed

text \<open>The recursion equation of the code.\<close>

lemma decodeValue_unfold: "decodeValue pw data = decode_message pw (decodeValue pw) data"
proof -
  have "decode_value pw (length data) b = decodeValue pw b" if "length b < length data" for b
    unfolding decodeValue_def using that by (intro decode_value_fuel) simp_all
  then have "decode_message pw (decode_value pw (length data)) data = decode_message pw (decodeValue pw) data"
    by (rule decode_message_cong)
  then show ?thesis by (simp add: decodeValue_def)
qed

text \<open>A decoder for containers returns when the decoder of the payloads does.\<close>

lemma set_or_fail_error [simp]: "snd (set_or_fail r upd s) = Some e \<longleftrightarrow> r = Inl e"
  by (cases r) simp_all

lemma returnsD: "r = Inl e \<Longrightarrow> returns r \<Longrightarrow> real_error e"
  by simp

lemma bind_parse_returns:
  assumes "\<And>f s e. length (bytes f) < length data \<Longrightarrow> snd (fn f s) = Some e \<Longrightarrow> real_error e"
    and "\<And>s. returns (g s)"
  shows "returns (bind_res (parse_result pw data fn s) g)"
  by (rule returns_bind [OF parse_result_returns [OF assms(1)] assms(2)])

lemma decodeComplex_returns: "returns (decodeComplex pw data)"
  unfolding decodeComplex_def by (rule bind_parse_returns) (auto split: if_splits)

lemma decodeBigInt_returns: "returns (decodeBigInt pw data)"
  unfolding decodeBigInt_def by (rule bind_parse_returns) (auto simp: Let_def)

lemma decodeUUID_returns: "returns (decodeUUID pw data)"
  unfolding decodeUUID_def by (rule bind_parse_returns) (auto split: if_splits)

lemma decodeObjectList_returns:
  "(\<And>b. length b < length data \<Longrightarrow> returns (dec b)) \<Longrightarrow> returns (decodeObjectList pw dec data)"
  unfolding decodeObjectList_def
  by (rule parse_result_returns) (auto simp: Let_def split: if_splits; erule returnsD; simp)+

lemma decodePair_returns:
  "(\<And>b. length b < length data \<Longrightarrow> returns (dec b)) \<Longrightarrow> returns (decodePair pw dec data)"
  unfolding decodePair_def
  by (rule parse_result_returns) (auto simp: Let_def split: if_splits; erule returnsD; simp)+

lemmas decode_returns = decodeUUID_returns decodePair_returns

lemma decodeDict_returns:
  "(\<And>b. length b < length data \<Longrightarrow> returns (dec b)) \<Longrightarrow> returns (decodeDict pw dec data)"
  unfolding decodeDict_def
  by (rule parse_result_returns) (auto simp: Let_def split: if_splits; erule returnsD; simp add: decode_returns)+

lemma decodeNamedTuple_returns:
  "(\<And>b. length b < length data \<Longrightarrow> returns (dec b)) \<Longrightarrow> returns (decodeNamedTuple pw dec data)"
  unfolding decodeNamedTuple_def
  by (rule parse_result_returns) (auto simp: Let_def split: if_splits; erule returnsD; simp add: decode_returns)+

lemmas decode_returns_dict = decodeUUID_returns decodeDict_returns

lemma decodeClassType_returns:
  "(\<And>b. length b < length data \<Longrightarrow> returns (dec b)) \<Longrightarrow> returns (decodeClassType pw dec data)"
  unfolding decodeClassType_def
  by (rule bind_parse_returns) (auto simp: Let_def split: if_splits; erule returnsD; simp add: decode_returns_dict)+

lemmas decode_returns_class = decode_returns_dict decodeClassType_returns

lemma decodeClassInstance_returns:
  "(\<And>b. length b < length data \<Longrightarrow> returns (dec b)) \<Longrightarrow> returns (decodeClassInstance pw dec data)"
  unfolding decodeClassInstance_def
  by (rule bind_parse_returns) (auto simp: Let_def split: if_splits; erule returnsD; simp add: decode_returns_class)+

lemma decodeModule_returns:
  "(\<And>b. length b < length data \<Longrightarrow> returns (decA b)) \<Longrightarrow> returns (decodeModule pw decA data)"
  unfolding decodeModule_def
  by (rule bind_parse_returns) (auto simp: Let_def split: if_splits; erule returnsD; simp add: decode_returns_class)+

lemma decode_kind_returns:
  assumes "\<And>b. length b \<le> length (bytes f) \<Longrightarrow> returns (dec b)"
  shows "returns (decode_kind pw dec f)"
proof -
  have d: "returns (dec b)" if "length b < length (bytes f)" for b using that assms by simp
  then have "returns (decodeDict pw dec b)" if "length b < length (bytes f)" for b
    using that by (intro decodeDict_returns) simp
  then have m: "returns (decodeModule pw (decodeDict pw dec) (bytes f))"
    by (rule decodeModule_returns)
  show ?thesis
    unfolding decode_kind_def
    by (auto simp: case_prod_beta decodeBigInt_returns decodeComplex_returns intro!: returns_bind m
      decodeObjectList_returns decodeNamedTuple_returns decodeDict_returns decodeClassType_returns
      decodeClassInstance_returns d)
qed

lemma decode_message_returns:
  assumes "\<And>b. length b < length data \<Longrightarrow> returns (dec b)"
  shows "returns (decode_message pw dec data)"
  unfolding decode_message_def
proof (rule bind_parse_returns)
  fix f s e
  assume f: "length (bytes f) < length data" and e: "snd (value_field pw dec f s) = Some e"
  have "returns (decode_kind pw dec f)"
    using assms f by (intro decode_kind_returns) simp
  then show "real_error e"
    using e by (auto simp: value_field_def split: if_splits intro: returnsD)
qed (auto split: prod.splits)

lemma decodeValue_returns: "returns (decodeValue pw data)"
proof (induction data rule: length_induct)
  case (1 data)
  show ?case
    unfolding decodeValue_unfold [of data] using 1 by (intro decode_message_returns) simp
qed

end

end
