(* ===== verification/Value_Roundtrip.thy ===== *)
theory Value_Roundtrip
  imports Encode Decode_Facts
begin

text \<open>
  What Python receives for a Go value, as a relation \<open>denotes\<close> written from the conversion
  table of the package documentation, and the proof that \<open>encodeValue\<close> followed by
  \<open>decodeValue\<close> computes it.  Between the two stands \<open>message\<close>, the shape of the messages
  that the encoder writes.
\<close>

section \<open>The conversion table\<close>

fun leaf_value :: "Value \<Rightarrow> Value option" where
  "leaf_value VNil = Some VNil"
| "leaf_value HNilPtr = Some VNil"
| "leaf_value VEllipsis = Some VEllipsis"
| "leaf_value VNotImplemented = Some VNotImplemented"
| "leaf_value (VBool b) = Some (VBool b)"
| "leaf_value (VInt64 w) = Some (VInt64 w)"
| "leaf_value (HInt k w) = Some (VInt64 w)"
| "leaf_value (HUint k u) = Some (if u \<le> 2 ^ 63 - 1 then VInt64 u else VBigInt (uint u))"
| "leaf_value (VBigInt i) = Some (VBigInt i)"
| "leaf_value (HBigInt i) = Some (VBigInt i)"
| "leaf_value (VFloat64 w) = Some (VFloat64 w)"
| "leaf_value (HFloat32 w) = Some (VFloat64 w)"
| "leaf_value (VComplex128 re im) = Some (VComplex128 re im)"
| "leaf_value (HComplex64 re im) = Some (VComplex128 re im)"
| "leaf_value (VString s) = Some (VString s)"
| "leaf_value (VRepr s) = Some (VString s)"
| "leaf_value (VBytes b) = Some (VBytes b)"
| "leaf_value (HByteArray b) = Some (VBytes b)"
| "leaf_value (VDate x) = Some (VDate (norm_date x))"
| "leaf_value (VTime x) = Some (VTime (norm_time x))"
| "leaf_value (VDateTime x) = Some (VDateTime (norm_datetime x))"
| "leaf_value (HTime x) = Some (VDateTime (norm_datetime (datetime_of_go x)))"
| "leaf_value (VTimeDelta x) = Some (VTimeDelta (norm_timedelta x))"
| "leaf_value (HDuration x) = Some (VTimeDelta (norm_timedelta (duration_delta x)))"
| "leaf_value (VTimeZone x) = Some (VTimeZone (norm_timezone x))"
| "leaf_value (VException x) = Some (VException x)"
| "leaf_value (VType s) = Some (VType s)"
| "leaf_value (VBuiltinFunction s) = Some (VBuiltinFunction s)"
| "leaf_value (VPath s) = Some (VPath s)"
| "leaf_value (VFunction x) = Some (VFunction x)"
| "leaf_value (VFileHandle x) = Some (VFileHandle x)"
| "leaf_value (HText (Inr s)) = Some (VString s)"
| "leaf_value _ = None"

inductive denotes :: "heap \<Rightarrow> Value \<Rightarrow> Value \<Rightarrow> bool" for h where
  leaf: "leaf_value v = Some w \<Longrightarrow> denotes h v w"
| list: "list_all2 (denotes h) xs ws \<Longrightarrow> denotes h (VList xs) (VList ws)"
| slice: "list_all2 (denotes h) xs ws \<Longrightarrow> denotes h (HSlice xs) (VList ws)"
| array: "list_all2 (denotes h) xs ws \<Longrightarrow> denotes h (HArray xs) (VList ws)"
| tuple: "list_all2 (denotes h) xs ws \<Longrightarrow> denotes h (VTuple xs) (VTuple ws)"
| set: "list_all2 (denotes h) xs ws \<Longrightarrow> denotes h (VSet xs) (VSet ws)"
| frozenset: "list_all2 (denotes h) xs ws \<Longrightarrow> denotes h (VFrozenSet xs) (VFrozenSet ws)"
| dict: "list_all2 (\<lambda>p q. denotes h (fst p) (fst q) \<and> denotes h (snd p) (snd q)) d e \<Longrightarrow>
    denotes h (VDict d) (VDict e)"
| go_map: "denotes h (VDict (map_entries sk d)) w \<Longrightarrow> denotes h (HMap sk d) w"
| struct: "denotes h (VDict (List.map_filter struct_entry fs)) w \<Longrightarrow> denotes h (HStruct fs) w"
| cycle: "denotes h (VDict [(VString ''Identity'', HUint Uint64 i), (VString ''Placeholder'', VString p)]) w \<Longrightarrow>
    denotes h (VCycle i p) w"
| async: "denotes h (VDict [(VString ''Function'', f)]) w \<Longrightarrow> denotes h (HAsync f) w"
| named_tuple: "list_all2 (denotes h) xs ws \<Longrightarrow> denotes h (VNamedTuple n fs xs) (VNamedTuple n fs ws)"
| module_value: "denotes h (VDict d) (VDict e) \<Longrightarrow> denotes h (VModule (Module n i d)) (VModule (Module n i e))"
| nil_ref: "map_of h a = None \<Longrightarrow> denotes h (HRef a) VNil"
| pointer: "map_of h a = Some (CPointer ty x) \<Longrightarrow> (\<And>t. x \<noteq> HTime t) \<Longrightarrow> denotes h x w \<Longrightarrow> denotes h (HRef a) w"
| pointer_time: "map_of h a = Some (CPointer ty (HTime t)) \<Longrightarrow> gt_Text t = Inr s \<Longrightarrow> denotes h (HRef a) (VString s)"
| marshaler: "map_of h a = Some (CMarshaler ty (Inr s)) \<Longrightarrow> denotes h (HRef a) (VString s)"
| container: "map_of h a = Some (CContainer ty x) \<Longrightarrow> denotes h x w \<Longrightarrow> denotes h (HRef a) w"

section \<open>The shape of an encoded value\<close>

text \<open>A leaf is one field of a kind without references, with the wire type of the kind.\<close>

fun leaf_kind :: "item \<Rightarrow> bool" where
  "leaf_kind (VarintItem t v) \<longleftrightarrow> t \<in> {4, 5}"
| "leaf_kind (Fixed64Item t v) \<longleftrightarrow> t = 7"
| "leaf_kind (BytesItem t x) \<longleftrightarrow> t \<in> {1, 2, 3, 6, 8, 9, 17, 19, 20, 21, 22, 25, 26, 27, 28, 31}"

abbreviation repeated :: "protowire \<Rightarrow> nat \<Rightarrow> bytes list \<Rightarrow> bytes" where
  "repeated pw t bs \<equiv> concat (map (fieldMessage pw t) bs)"

inductive message :: "protowire \<Rightarrow> bytes \<Rightarrow> Value \<Rightarrow> bool" for pw where
  leaf: "leaf_kind i \<Longrightarrow> decodeValue pw (put_item pw i) = Inr w \<Longrightarrow> message pw (put_item pw i) w"
| time: "message pw (fieldMessage pw 18 (encodeTime pw x)) (VTime (norm_time x))"
| type_value: "message pw (fieldMessage pw 23 (fieldString pw 1 s @ fieldVarint pw 3 1)) (VType s)"
| list: "list_all2 (message pw) bs ws \<Longrightarrow> message pw (fieldMessage pw 11 (repeated pw 1 bs)) (VList ws)"
| tuple: "list_all2 (message pw) bs ws \<Longrightarrow> message pw (fieldMessage pw 12 (repeated pw 1 bs)) (VTuple ws)"
| set: "list_all2 (message pw) bs ws \<Longrightarrow> message pw (fieldMessage pw 15 (repeated pw 1 bs)) (VSet ws)"
| frozenset: "list_all2 (message pw) bs ws \<Longrightarrow> message pw (fieldMessage pw 16 (repeated pw 1 bs)) (VFrozenSet ws)"
| dict: "list_all2 (\<lambda>b q. \<exists>k v. b = fieldMessage pw 1 k @ fieldMessage pw 2 v
      \<and> message pw k (fst q) \<and> message pw v (snd q)) bs e \<Longrightarrow>
    message pw (fieldMessage pw 14 (repeated pw 1 bs)) (VDict e)"
| named_tuple: "list_all2 (message pw) bs ws \<Longrightarrow>
    message pw (fieldMessage pw 13 (fieldString pw 1 n @ concat (map (fieldString pw 2) names) @ repeated pw 3 bs))
      (VNamedTuple n names ws)"
| module_value: "list_all2 (\<lambda>b q. \<exists>k v. b = fieldMessage pw 1 k @ fieldMessage pw 2 v
      \<and> message pw k (fst q) \<and> message pw v (snd q)) bs e \<Longrightarrow>
    message pw (fieldMessage pw 32 (fieldString pw 1 n @ fieldMessage pw 2 (fieldBytes pw 1 (uuid_bytes i))
      @ fieldMessage pw 3 (repeated pw 1 bs))) (VModule (Module n i e))"

abbreviation pair_message :: "protowire \<Rightarrow> bytes \<Rightarrow> Value \<times> Value \<Rightarrow> bool" where
  "pair_message pw b q \<equiv> \<exists>k v. b = fieldMessage pw 1 k @ fieldMessage pw 2 v
      \<and> message pw k (fst q) \<and> message pw v (snd q)"

section \<open>Lists of encoded items\<close>

lemma map_res_eq_Inr: "map_res f xs = Inr ys \<longleftrightarrow> list_all2 (\<lambda>x y. f x = Inr y) xs ys"
  by (induction xs arbitrary: ys) (auto simp: bind_res_eq_Inr list_all2_Cons1)

lemma wrap_err_eq_Inr [simp]: "wrap_err w r = Inr x \<longleftrightarrow> r = Inr x"
  by (cases r) (simp_all add: wrap_err_def)

lemma list_all2_enumerate:
  "list_all2 (\<lambda>p y. P (snd p) y) (enumerate n xs) ys \<longleftrightarrow> list_all2 P xs ys"
  by (induction xs arbitrary: n ys) (auto simp: list_all2_Cons1)

lemma list_all2_choose:
  assumes "list_all2 (\<lambda>x b. \<exists>w. P x w \<and> Q b w) xs bs"
  shows "\<exists>ws. list_all2 P xs ws \<and> list_all2 Q bs ws"
  using assms by (induction xs bs) (auto simp: list_all2_Cons1 intro: exI [of _ "_ # _"])

context wire_format begin

lemma decodeObjectList_items:
  "decodeObjectList pw dec (concat (map (fieldMessage pw 1) items)) = map_res dec items"
proof -
  have "parse_result pw (concat (map (fieldMessage pw 1) items))
      (\<lambda>f items. if tag f \<noteq> 1 then ok items else set_or_fail (dec (bytes f)) (\<lambda>v. items @ [v]) items) acc
    = bind_res (map_res dec items) (\<lambda>vs. Inr (acc @ vs))" for acc
  proof (induction items arbitrary: acc)
    case (Cons b items)
    then show ?case
      by (cases "dec b"; cases "map_res dec items")
        (simp_all add: parse_result_def fieldMessage_def bytes_field_def valid_tag_def wire_simps)
  qed simp
  from this [of "[]"] show ?thesis
    by (cases "map_res dec items") (simp_all add: decodeObjectList_def)
qed

lemma decodeDict_pairs:
  "decodeDict pw dec (concat (map (fieldMessage pw 1) items)) = map_res (decodePair pw dec) items"
proof -
  have "parse_result pw (concat (map (fieldMessage pw 1) items))
      (\<lambda>f result. if tag f \<noteq> 1 then ok result
         else set_or_fail (decodePair pw dec (bytes f)) (\<lambda>p. result @ [p]) result) acc
    = bind_res (map_res (decodePair pw dec) items) (\<lambda>vs. Inr (acc @ vs))" for acc
  proof (induction items arbitrary: acc)
    case (Cons b items)
    then show ?case
      by (cases "decodePair pw dec b"; cases "map_res (decodePair pw dec) items")
        (simp_all add: parse_result_def fieldMessage_def bytes_field_def valid_tag_def wire_simps)
  qed simp
  from this [of "[]"] show ?thesis
    by (cases "map_res (decodePair pw dec) items") (simp_all add: decodeDict_def)
qed

lemma decodePair_fields:
  "dec k = Inr x \<Longrightarrow> dec v = Inr y \<Longrightarrow>
    decodePair pw dec (fieldMessage pw 1 k @ fieldMessage pw 2 v) = Inr (x, y)"
  by (simp add: decodePair_def parse_result_def fieldMessage_def bytes_field_def valid_tag_def wire_simps)

lemma decodeNamedTuple_fields:
  assumes "list_all2 (\<lambda>b w. dec b = Inr w) items ws"
  shows "decodeNamedTuple pw dec
    (fieldString pw 1 n @ concat (map (fieldString pw 2) names) @ concat (map (fieldMessage pw 3) items)) = Inr (n, names, ws)"
proof -
  let ?fn = "\<lambda>f (name, names, values).
        if tag f = 1 then ok (bytes f, names, values)
        else if tag f = 2 then ok (name, names @ [bytes f], values)
        else if tag f = 3 then
          set_or_fail (dec (bytes f)) (\<lambda>v. (name, names, values @ [v])) (name, names, values)
        else ok (name, names, values)"
  have items: "parseFields pw (concat (map (fieldMessage pw 3) items)) ?fn (n, ns, acc) = ok (n, ns, acc @ ws)" for ns acc
    using assms by (induction items ws arbitrary: acc rule: list_all2_induct)
      (simp_all add: fieldMessage_def bytes_field_def valid_tag_def wire_simps)
  have "parseFields pw (concat (map (fieldString pw 2) names) @ concat (map (fieldMessage pw 3) items)) ?fn (n, ns, [])
      = ok (n, ns @ names, ws)" for ns
    by (induction names arbitrary: ns)
      (simp_all add: items fieldString_def bytes_field_def valid_tag_def wire_simps del: One_nat_def)
  from this [of "[]"] show ?thesis
    by (simp add: decodeNamedTuple_def parse_result_def fieldString_def bytes_field_def valid_tag_def wire_simps)
qed

section \<open>One field\<close>

lemma decodeValue_field:
  "valid_tag t \<Longrightarrow> decodeValue pw (fieldVarint pw t v) = decode_kind pw (decodeValue pw) (varint_field t v)"
  "valid_tag t \<Longrightarrow> decodeValue pw (fieldFixed64 pw t v) = decode_kind pw (decodeValue pw) (fixed64_field t v)"
  "valid_tag t \<Longrightarrow> decodeValue pw (fieldBytes pw t b) = decode_kind pw (decodeValue pw) (bytes_field t b)"
  by (subst decodeValue_unfold,
      simp add: decode_message_def parse_result_def value_field_def set_or_fail_def result_of_def wire_simps
        split: sum.split)+

lemmas value_parse = decodeValue_field valid_tag_def varint_field_def fixed64_field_def bytes_field_def
  fieldString_def fieldMessage_def fieldBool_def fieldSInt64_def

section \<open>Messages decode to their value\<close>

lemma decodeValue_list_kinds:
  assumes "decodeObjectList pw (decodeValue pw) body = Inr ws"
  shows "decodeValue pw (fieldMessage pw 11 body) = Inr (VList ws)"
    and "decodeValue pw (fieldMessage pw 12 body) = Inr (VTuple ws)"
    and "decodeValue pw (fieldMessage pw 15 body) = Inr (VSet ws)"
    and "decodeValue pw (fieldMessage pw 16 body) = Inr (VFrozenSet ws)"
  by (simp_all add: value_parse decode_kind_def assms)

lemma decodeValue_dict:
  "decodeDict pw (decodeValue pw) body = Inr e \<Longrightarrow> decodeValue pw (fieldMessage pw 14 body) = Inr (VDict e)"
  by (simp add: value_parse decode_kind_def)

lemma decodeModule_fields:
  "decA body = Inr e \<Longrightarrow> decodeModule pw decA (fieldString pw 1 n
      @ fieldMessage pw 2 (fieldBytes pw 1 (uuid_bytes i)) @ fieldMessage pw 3 body) = Inr (Module n i e)"
  using decodeUUID_field [of i]
  by (simp add: decodeModule_def parse_result_def value_parse wire_simps)

lemma decodeBytesField_single: "decodeBytesField pw (fieldMessage pw 14 body) 14 = body"
  by (simp add: decodeBytesField_def parse_ignore_def value_parse wire_simps)

lemma list_all2_conj_right: "list_all2 (\<lambda>x y. P x y \<and> Q x y) xs ys \<Longrightarrow> list_all2 Q xs ys"
  by (erule list_all2_mono) blast

lemma decodeObjectList_repeated:
  "list_all2 (\<lambda>b w. message pw b w \<and> decodeValue pw b = Inr w) bs ws \<Longrightarrow>
    decodeObjectList pw (decodeValue pw) (repeated pw 1 bs) = Inr ws"
  by (simp add: decodeObjectList_items map_res_eq_Inr list_all2_conj_right [of "message pw"] del: One_nat_def)

lemma decodeDict_repeated:
  assumes "list_all2 (\<lambda>b q. \<exists>k v. b = fieldMessage pw 1 k @ fieldMessage pw 2 v
      \<and> (message pw k (fst q) \<and> decodeValue pw k = Inr (fst q))
      \<and> (message pw v (snd q) \<and> decodeValue pw v = Inr (snd q))) bs e"
  shows "decodeDict pw (decodeValue pw) (repeated pw 1 bs) = Inr e"
proof -
  have "list_all2 (\<lambda>b q. decodePair pw (decodeValue pw) b = Inr q) bs e"
    using assms by (rule list_all2_mono) (auto simp: decodePair_fields simp del: One_nat_def)
  then show ?thesis by (simp add: decodeDict_pairs map_res_eq_Inr del: One_nat_def)
qed

lemma decodeClassType_builtin:
  "decodeClassType pw dec (fieldString pw 1 s @ fieldVarint pw 3 1) = Inr (ClassType s 0 TypeOriginBuiltin False [])"
  by (simp add: decodeClassType_def parse_result_def value_parse wire_simps valid_origin_def
    TypeOriginBuiltin_def TypeOriginHost_def)

lemma decodeValue_time: "decodeValue pw (fieldMessage pw 18 (encodeTime pw x)) = Inr (VTime (norm_time x))"
  by (simp add: value_parse decode_kind_def decodeTime_encodeTime)

lemma decodeValue_type: "decodeValue pw (fieldMessage pw 23 (fieldString pw 1 s @ fieldVarint pw 3 1)) = Inr (VType s)"
proof -
  have "decodeValue pw (fieldMessage pw 23 x) = bind_res (decodeClassType pw (decodeValue pw) x)
     (\<lambda>x. Inr (if ct_Origin x = TypeOriginBuiltin then VType (ct_Name x) else VClassType x))" for x
    by (simp add: value_parse decode_kind_def)
  then show ?thesis by (simp add: decodeClassType_builtin del: One_nat_def)
qed

lemma message_decode: "message pw b w \<Longrightarrow> decodeValue pw b = Inr w"
proof (induction rule: message.induct)
  case (time x)
  show ?case by (rule decodeValue_time)
next
  case (type_value s)
  show ?case by (rule decodeValue_type)
next
  case (list bs ws)
  then show ?case by (intro decodeValue_list_kinds decodeObjectList_repeated)
next
  case (tuple bs ws)
  then show ?case by (intro decodeValue_list_kinds decodeObjectList_repeated)
next
  case (set bs ws)
  then show ?case by (intro decodeValue_list_kinds decodeObjectList_repeated)
next
  case (frozenset bs ws)
  then show ?case by (intro decodeValue_list_kinds decodeObjectList_repeated)
next
  case (dict bs e)
  then show ?case by (intro decodeValue_dict decodeDict_repeated)
next
  case (named_tuple bs ws n names)
  then have "list_all2 (\<lambda>b w. decodeValue pw b = Inr w) bs ws" by (rule list_all2_conj_right)
  then have "decodeNamedTuple pw (decodeValue pw)
      (fieldString pw 1 n @ concat (map (fieldString pw 2) names) @ repeated pw 3 bs) = Inr (n, names, ws)"
    by (rule decodeNamedTuple_fields)
  then show ?case by (simp add: value_parse(3) decode_kind_def fieldMessage_def [of _ 13] valid_tag_def
    bytes_field_def del: One_nat_def)
next
  case (module_value bs e n i)
  then have "decodeDict pw (decodeValue pw) (repeated pw 1 bs) = Inr e" by (rule decodeDict_repeated)
  from decodeModule_fields [of "decodeDict pw (decodeValue pw)", OF this] show ?case
    by (simp add: value_parse(3) decode_kind_def fieldMessage_def [of _ 32] valid_tag_def bytes_field_def
      del: One_nat_def)
qed

section \<open>The encoder writes messages of what the value denotes\<close>

text \<open>A child that encodes becomes a message of what it denotes.\<close>

abbreviation sound :: "heap \<Rightarrow> (Value \<Rightarrow> go_error + bytes) \<Rightarrow> bool" where
  "sound h child \<equiv> \<forall>y b. child y = Inr b \<longrightarrow> (\<exists>w. denotes h y w \<and> message pw b w)"

lemma sound_list:
  assumes "sound h child" and "list_all2 (\<lambda>x b. child x = Inr b) xs bs"
  shows "\<exists>ws. list_all2 (denotes h) xs ws \<and> list_all2 (message pw) bs ws"
  using assms(1) by (intro list_all2_choose list_all2_mono [OF assms(2)]) blast

lemma encodeObjectList_sound:
  assumes "sound h child" and "encodeObjectList pw child t xs = Inr b"
  shows "\<exists>bs ws. b = fieldMessage pw t (repeated pw 1 bs) \<and> list_all2 (denotes h) xs ws \<and> list_all2 (message pw) bs ws"
proof -
  from assms(2) obtain items where items: "list_all2 (\<lambda>x b. child x = Inr b) xs items"
    and b: "b = fieldMessage pw t (repeated pw 1 items)"
    by (auto simp: encodeObjectList_def bind_res_eq_Inr map_res_eq_Inr)
  from sound_list [OF assms(1) items] b show ?thesis by blast
qed

lemma encodeReflectList_sound:
  assumes "sound h child" and "encodeReflectList pw child t xs = Inr b"
  shows "\<exists>bs ws. b = fieldMessage pw t (repeated pw 1 bs) \<and> list_all2 (denotes h) xs ws \<and> list_all2 (message pw) bs ws"
proof -
  have "encodeObjectList pw child t xs = Inr b"
    using assms(2)
    by (auto simp: encodeReflectList_def encodeObjectList_def bind_res_eq_Inr map_res_eq_Inr
      case_prod_beta' list_all2_enumerate [where P = "\<lambda>x y. child x = Inr y"])
  then show ?thesis by (rule encodeObjectList_sound [OF assms(1)])
qed

lemma encodePair_sound:
  assumes "sound h child" and "encodePair pw child i p = Inr b"
  shows "\<exists>q. (denotes h (fst p) (fst q) \<and> denotes h (snd p) (snd q)) \<and> pair_message pw b q"
proof -
  from assms(2) obtain kb vb where kv: "child (fst p) = Inr kb" "child (snd p) = Inr vb"
    and b: "b = fieldMessage pw 1 kb @ fieldMessage pw 2 vb"
    by (auto simp: encodePair_def bind_res_eq_Inr)
  with assms(1) obtain k v where "denotes h (fst p) k" "message pw kb k"
    "denotes h (snd p) v" "message pw vb v" by blast
  then show ?thesis
    by (intro exI [of _ "(k, v)"]) (auto simp: b)
qed

lemma encodeDict_sound:
  assumes "sound h child" and "encodeDict pw child d = Inr b"
  shows "\<exists>bs e. b = fieldMessage pw 14 (repeated pw 1 bs) \<and> denotes h (VDict d) (VDict e)
    \<and> list_all2 (pair_message pw) bs e"
proof -
  from assms(2) obtain items where b: "b = fieldMessage pw 14 (repeated pw 1 items)"
    and items0: "list_all2 (\<lambda>x b. encodePair pw child (fst x) (snd x) = Inr b) (enumerate 0 d) items"
    by (auto simp: encodeDict_def bind_res_eq_Inr map_res_eq_Inr case_prod_beta')
  have items: "list_all2 (\<lambda>p b. \<exists>i. encodePair pw child i (snd p) = Inr b) (enumerate 0 d) items"
    by (rule list_all2_mono [OF items0]) blast
  from items have "list_all2 (\<lambda>p b. \<exists>i. encodePair pw child i p = Inr b) d items"
    by (simp only: list_all2_enumerate [where P = "\<lambda>p b. \<exists>i. encodePair pw child i p = Inr b"])
  then have "list_all2 (\<lambda>p b. \<exists>q. (denotes h (fst p) (fst q) \<and> denotes h (snd p) (snd q)) \<and> pair_message pw b q) d items"
    by (rule list_all2_mono) (blast intro: encodePair_sound [OF assms(1)])
  from list_all2_choose [OF this] obtain e where
    e: "list_all2 (\<lambda>p q. denotes h (fst p) (fst q) \<and> denotes h (snd p) (snd q)) d e"
    "list_all2 (pair_message pw) items e" by blast
  show ?thesis
    by (intro exI conjI) (rule b, rule denotes.dict [OF e(1)], rule e(2))
qed

lemma encodeNamedTuple_sound:
  assumes "sound h child" and "encodeNamedTuple pw child n names xs = Inr b"
  shows "\<exists>w. denotes h (VNamedTuple n names xs) w \<and> message pw b w"
proof -
  from assms(2) obtain items where b: "b = fieldMessage pw 13 (fieldString pw 1 n
       @ concat (map (fieldString pw 2) names) @ repeated pw 3 items)"
    and items: "list_all2 (\<lambda>x b. child x = Inr b) xs items"
    by (auto simp: encodeNamedTuple_def bind_res_eq_Inr map_res_eq_Inr case_prod_beta'
      list_all2_enumerate [where P = "\<lambda>x y. child x = Inr y"])
  from sound_list [OF assms(1) items] show ?thesis
    unfolding b by (blast intro: denotes.named_tuple message.named_tuple)
qed

lemmas leaf_decoders =
  decodeDate_encodeDate decodeTime_encodeTime decodeDateTime_encodeDateTime decodeTimeDelta_encodeTimeDelta
  decodeTimeZone_encodeTimeZone decodeExceptionValue_encodeException decodeFileHandle_encodeFileHandle
  decodeFunction_encodeFunction decodeBigInt_encodeBigInt decodeComplex_fields decodeClassType_builtin

lemma leaf_decodes:
  assumes "leaf_value v = Some w" and "encode_node pw child v = Inr b" and "\<forall>s. v \<noteq> VType s"
  shows "decodeValue pw b = Inr w"
proof (cases v)
  case (HText r)
  with assms show ?thesis
    by (cases r) (auto simp: marshal_text_def wrap_err_def value_parse decode_kind_def)
qed (use assms in \<open>auto simp: value_parse decode_kind_def leaf_decoders encodeUint_def encodeGoTime_def
      encodeDuration_def zigzag simp del: One_nat_def\<close>)

text \<open>The encoding of a leaf is one field with the wire type of its kind.\<close>

definition leaf_item :: "bytes \<Rightarrow> bool" where
  "leaf_item b \<longleftrightarrow> (\<exists>i. leaf_kind i \<and> b = put_item pw i)"

lemma leaf_itemI:
  "leaf_kind (VarintItem t x) \<Longrightarrow> leaf_item (fieldVarint pw t x)"
  "leaf_kind (Fixed64Item t x) \<Longrightarrow> leaf_item (fieldFixed64 pw t x)"
  "leaf_kind (BytesItem t y) \<Longrightarrow> leaf_item (fieldBytes pw t y)"
  unfolding leaf_item_def
  by (rule exI [of _ "VarintItem t x"], simp, rule exI [of _ "Fixed64Item t x"], simp,
      rule exI [of _ "BytesItem t y"], simp)

lemma leaf_encodes:
  assumes "leaf_value v = Some w" and "encode_node pw child v = Inr b"
    and "\<forall>s. v \<noteq> VType s" and "\<forall>x. v \<noteq> VTime x"
  shows "leaf_item b"
proof (cases v)
  case (HText r)
  with assms show ?thesis
    by (cases r) (auto simp: marshal_text_def wrap_err_def fieldString_def leaf_itemI)
qed (use assms in \<open>auto simp: encodeUint_def fieldMessage_def fieldString_def fieldBool_def fieldSInt64_def
      leaf_itemI split: if_splits\<close>)

lemma message_leaf: "leaf_item b \<Longrightarrow> decodeValue pw b = Inr w \<Longrightarrow> message pw b w"
  by (auto simp: leaf_item_def intro: message.leaf)

lemma leaf_sound:
  assumes "leaf_value v = Some w" and "encode_node pw child v = Inr b"
  shows "message pw b w"
proof -
  consider s where "v = VType s" | x where "v = VTime x" | "\<forall>s. v \<noteq> VType s" "\<forall>x. v \<noteq> VTime x" by blast
  then show ?thesis
  proof cases
    case 3
    then show ?thesis using message_leaf [OF leaf_encodes leaf_decodes] assms by blast
  qed (use assms message.time message.type_value in auto)
qed

lemma encodeDict_value:
  assumes "sound h child" and "encodeDict pw child d = Inr b"
  shows "\<exists>w. denotes h (VDict d) w \<and> message pw b w"
  using encodeDict_sound [OF assms] by (blast intro: message.dict)

text \<open>
  A list: the encoder for the value, with the constructors of the relation and of the result.
\<close>

lemma encodeObjectList_value:
  assumes "sound h child" and "encodeObjectList pw child t xs = Inr b"
    and "\<And>ws. list_all2 (denotes h) xs ws \<Longrightarrow> denotes h v (C ws)"
    and "\<And>bs ws. list_all2 (message pw) bs ws \<Longrightarrow> message pw (fieldMessage pw t (repeated pw 1 bs)) (C ws)"
  shows "\<exists>w. denotes h v w \<and> message pw b w"
  using encodeObjectList_sound [OF assms(1,2)] assms(3,4) by blast

lemma encodeReflectList_value:
  assumes "sound h child" and "encodeReflectList pw child 11 xs = Inr b"
    and "\<And>ws. list_all2 (denotes h) xs ws \<Longrightarrow> denotes h v (VList ws)"
  shows "\<exists>w. denotes h v w \<and> message pw b w"
  using encodeReflectList_sound [OF assms(1,2)] assms(3) message.list by blast

lemma encodeModuleValue_value:
  assumes "sound h child" and "encodeModuleValue pw child m = Inr b"
  shows "\<exists>w. denotes h (VModule m) w \<and> message pw b w"
proof -
  obtain n i d where m: "m = Module n i d" by (cases m)
  from assms(2) obtain attrs where a: "encodeDict pw child d = Inr attrs"
    and b: "b = fieldMessage pw 32 (fieldString pw 1 n @ fieldMessage pw 2 (fieldBytes pw 1 (uuid_bytes i))
        @ fieldMessage pw 3 (decodeBytesField pw attrs 14))"
    by (auto simp: encodeModuleValue_def bind_res_eq_Inr m)
  from encodeDict_sound [OF assms(1) a] obtain bs e where
    "attrs = fieldMessage pw 14 (repeated pw 1 bs)" "denotes h (VDict d) (VDict e)" "list_all2 (pair_message pw) bs e"
    by blast
  then show ?thesis
    unfolding b m by (auto simp: decodeBytesField_single simp del: One_nat_def
      intro: denotes.module_value message.module_value)
qed

lemma encode_node_sound:
  assumes child: "sound h child" and v: "encode_node pw child v = Inr b"
  shows "\<exists>w. denotes h v w \<and> message pw b w"
proof (cases "leaf_value v")
  case (Some w)
  then show ?thesis using leaf_sound [OF Some v] by (blast intro: denotes.leaf)
next
  case None
  note object_list = encodeObjectList_value [OF child, of _ _ b v]
  note dict = encodeDict_value [OF child, of _ b]
  from None show ?thesis
  proof (cases v)
    case (VList xs)
    with v show ?thesis by (intro object_list [of 11 xs VList]) (simp_all add: denotes.list message.list del: One_nat_def)
  next
    case (VTuple xs)
    with v show ?thesis by (intro object_list [of 12 xs VTuple]) (simp_all add: denotes.tuple message.tuple del: One_nat_def)
  next
    case (VSet xs)
    with v show ?thesis by (intro object_list [of 15 xs VSet]) (simp_all add: denotes.set message.set del: One_nat_def)
  next
    case (VFrozenSet xs)
    with v show ?thesis
      by (intro object_list [of 16 xs VFrozenSet]) (simp_all add: denotes.frozenset message.frozenset del: One_nat_def)
  next
    case (HSlice xs)
    with v show ?thesis by (intro encodeReflectList_value [OF child, of xs]) (simp_all add: denotes.slice)
  next
    case (HArray xs)
    with v show ?thesis by (intro encodeReflectList_value [OF child, of xs]) (simp_all add: denotes.array)
  next
    case (VDict d)
    with v show ?thesis by (simp add: dict)
  next
    case (HMap sk d)
    with v dict [of "map_entries sk d"] show ?thesis by (auto simp: encodeMap_def intro: denotes.go_map)
  next
    case (HStruct fs)
    with v dict [of "List.map_filter struct_entry fs"] show ?thesis
      by (auto simp: encodeStruct_def intro: denotes.struct)
  next
    case (VNamedTuple n names xs)
    with v show ?thesis by (simp add: encodeNamedTuple_sound [OF child])
  next
    case (VModule m)
    with v show ?thesis by (simp add: encodeModuleValue_value [OF child])
  next
    case (HAsync f)
    with v dict [of "[(VString ''Function'', f)]"] show ?thesis
      by (auto simp: encodeStruct_def struct_entry_def field_name_def map_filter_simps intro: denotes.async)
  next
    case (VCycle i p)
    let ?d = "[(VString ''Identity'', HUint Uint64 i), (VString ''Placeholder'', VString p)]"
    from v have "encodeDict pw child ?d = Inr b"
      by (simp add: VCycle encodeStruct_def struct_entry_def field_name_def map_filter_simps)
    from dict [OF this] obtain w where "denotes h (VDict ?d) w" "message pw b w" by blast
    then show ?thesis by (auto simp: VCycle intro: denotes.cycle)
  next
    case (HText r)
    with None v show ?thesis by (cases r) (auto simp: marshal_text_def wrap_err_def)
  qed (use v in auto)
qed

lemma nil_message: "message pw (fieldMessage pw 2 []) VNil"
  by (rule message_leaf) (simp add: fieldMessage_def leaf_itemI, simp add: value_parse decode_kind_def)

lemma text_message: "message pw (fieldString pw 8 s) (VString s)"
  by (rule message_leaf) (simp add: fieldString_def leaf_itemI, simp add: value_parse decode_kind_def)

text \<open>The address of a reference on the path is an error; otherwise the cell's contents are encoded.\<close>

lemma encode_ref_sound:
  assumes v: "encode pw h stack depth (HRef a) = Inr b"
    and pointer: "\<And>ty x b. map_of h a = Some (CPointer ty x) \<Longrightarrow> a \<notin> set stack \<Longrightarrow>
      encode pw h (a # stack) depth x = Inr b \<Longrightarrow> \<exists>w. denotes h x w \<and> message pw b w"
    and container: "\<And>ty x stack'. map_of h a = Some (CContainer ty x) \<Longrightarrow> stack' \<in> {stack, a # stack} \<Longrightarrow>
      sound h (encode pw h stack' (Suc depth))"
  shows "\<exists>w. denotes h (HRef a) w \<and> message pw b w"
proof (cases "map_of h a")
  case None
  with v show ?thesis
    by (auto simp: encode.simps [of pw h stack depth] split: if_splits intro: denotes.nil_ref nil_message)
next
  case (Some c)
  show ?thesis
  proof (cases c)
    case (CPointer ty x)
    show ?thesis
    proof (cases "\<exists>t. x = HTime t")
      case True
      with Some CPointer v obtain t s where "x = HTime t" "gt_Text t = Inr s" "b = fieldString pw 8 s"
        by (auto simp: encode.simps [of pw h stack depth] marshal_text_def bind_res_eq_Inr split: if_splits)
      then show ?thesis
        using Some CPointer by (auto intro: denotes.pointer_time text_message)
    next
      case False
      then have "a \<notin> set stack" and "encode pw h (a # stack) depth x = Inr b"
        using v Some CPointer by (cases x; simp add: encode.simps [of pw h stack depth "HRef a"] split: if_splits)+
      with pointer Some CPointer False show ?thesis by (blast intro: denotes.pointer)
    qed
  next
    case (CMarshaler ty r)
    with Some v show ?thesis
      by (auto simp: encode.simps [of pw h stack depth] marshal_text_def bind_res_eq_Inr
        split: if_splits intro: denotes.marshaler text_message)
  next
    case (CContainer ty x)
    define stack' where "stack' = (if 0 < container_len x then a # stack else stack)"
    have "encode_node pw (encode pw h stack' (Suc depth)) x = Inr b"
      using v Some CContainer by (simp add: encode.simps [of pw h stack depth] stack'_def split: if_splits)
    moreover have "sound h (encode pw h stack' (Suc depth))"
      using Some CContainer by (intro container) (simp_all add: stack'_def)
    ultimately show ?thesis
      using encode_node_sound Some CContainer by (blast intro: denotes.container)
  qed
qed

lemma encode_sound: "encode pw h stack depth v = Inr b \<Longrightarrow> \<exists>w. denotes h v w \<and> message pw b w"
proof (induction "Suc maxValueDepth - depth" arbitrary: stack depth v b rule: less_induct)
  case outer: less
  from outer.prems show ?case
  proof (induction "card (on_heap h stack)" arbitrary: stack v b rule: less_induct)
    case inner: less
    have "depth \<le> maxValueDepth"
      using inner.prems by (simp add: encode.simps [of pw h stack depth] split: if_splits)
    then have child: "sound h (encode pw h stack' (Suc depth))" for stack'
      using outer.hyps [of "Suc depth" stack'] by (simp add: Suc_diff_le)
    show ?case
    proof (cases "\<exists>a. v = HRef a")
      case True
      then obtain a where a: "v = HRef a" by blast
      show ?thesis
        unfolding a
      proof (rule encode_ref_sound)
        show "encode pw h stack depth (HRef a) = Inr b" using inner.prems a by simp
      next
        fix ty x b
        assume "map_of h a = Some (CPointer ty x)" "a \<notin> set stack" "encode pw h (a # stack) depth x = Inr b"
        then show "\<exists>w. denotes h x w \<and> message pw b w"
          by (intro inner.hyps [of "a # stack" x b] on_heap_push)
      qed (rule child)
    next
      case False
      then have "encode_node pw (encode pw h stack (Suc depth)) v = Inr b"
        using inner.prems by (cases v) (simp_all add: encode.simps [of pw h stack depth] split: if_splits)
      with child show ?thesis by (rule encode_node_sound)
    qed
  qed
qed

end

text \<open>The relation is a function: a value denotes at most one value.\<close>

lemma list_all2_unique:
  assumes "list_all2 (\<lambda>x w. D x w \<and> (\<forall>w'. D x w' \<longrightarrow> w' = w)) xs ws" and "list_all2 D xs ws'"
  shows "ws' = ws"
  using assms by (induction xs ws arbitrary: ws' rule: list_all2_induct) (auto simp: list_all2_Cons1)

inductive_cases denotes_leafE: "denotes h VNil w"
inductive_cases denotes_listE: "denotes h (VList xs) w"
inductive_cases denotes_sliceE: "denotes h (HSlice xs) w"
inductive_cases denotes_arrayE: "denotes h (HArray xs) w"
inductive_cases denotes_tupleE: "denotes h (VTuple xs) w"
inductive_cases denotes_setE: "denotes h (VSet xs) w"
inductive_cases denotes_frozensetE: "denotes h (VFrozenSet xs) w"
inductive_cases denotes_dictE: "denotes h (VDict d) w"
inductive_cases denotes_mapE: "denotes h (HMap sk d) w"
inductive_cases denotes_structE: "denotes h (HStruct fs) w"
inductive_cases denotes_cycleE: "denotes h (VCycle i p) w"
inductive_cases denotes_asyncE: "denotes h (HAsync f) w"
inductive_cases denotes_namedE: "denotes h (VNamedTuple n fs xs) w"
inductive_cases denotes_moduleE: "denotes h (VModule m) w"
inductive_cases denotes_refE: "denotes h (HRef a) w"

lemma leaf_denotes: "denotes h v w \<Longrightarrow> leaf_value v = Some x \<Longrightarrow> w = x"
  by (induction rule: denotes.induct) simp_all

lemma denotes_unique: "denotes h v w \<Longrightarrow> denotes h v w' \<Longrightarrow> w' = w"
proof (induction arbitrary: w' rule: denotes.induct)
  case (leaf v w)
  then show ?case by (blast dest: leaf_denotes)
next
  case (list xs ws)
  then show ?case by (auto elim!: denotes_listE dest: list_all2_unique)
next
  case (slice xs ws)
  then show ?case by (auto elim!: denotes_sliceE dest: list_all2_unique)
next
  case (array xs ws)
  then show ?case by (auto elim!: denotes_arrayE dest: list_all2_unique)
next
  case (tuple xs ws)
  then show ?case by (auto elim!: denotes_tupleE dest: list_all2_unique)
next
  case (set xs ws)
  then show ?case by (auto elim!: denotes_setE dest: list_all2_unique)
next
  case (frozenset xs ws)
  then show ?case by (auto elim!: denotes_frozensetE dest: list_all2_unique)
next
  case (dict d e)
  let ?D = "\<lambda>p q. denotes h (fst p) (fst q) \<and> denotes h (snd p) (snd q)"
  from dict.IH have "list_all2 (\<lambda>p q. ?D p q \<and> (\<forall>q'. ?D p q' \<longrightarrow> q' = q)) d e"
    by (rule list_all2_mono) (auto simp: prod_eq_iff)
  note unique = list_all2_unique [where D = ?D, OF this]
  from dict.prems obtain e' where "w' = VDict e'" "list_all2 ?D d e'" by (rule denotes_dictE) simp_all
  then show ?case using unique by simp
next
  case (named_tuple xs ws n fs)
  then show ?case by (auto elim!: denotes_namedE dest: list_all2_unique)
next
  case (module_value d e n i)
  then show ?case by (auto elim!: denotes_moduleE)
next
  case (go_map sk d w)
  from go_map.prems show ?case by (rule denotes_mapE) (simp_all add: go_map.IH)
next
  case (struct fs w)
  from struct.prems show ?case by (rule denotes_structE) (simp_all add: struct.IH)
next
  case (cycle i p w)
  from cycle.prems show ?case by (rule denotes_cycleE) (simp_all add: cycle.IH)
next
  case (async f w)
  from async.prems show ?case by (rule denotes_asyncE) (simp_all add: async.IH)
next
  case (nil_ref a)
  from nil_ref.prems show ?case by (rule denotes_refE) (simp_all add: nil_ref.hyps)
next
  case (pointer a ty x w)
  from pointer.prems show ?case by (rule denotes_refE) (simp_all add: pointer.hyps pointer.IH)
next
  case (pointer_time a ty t s)
  from pointer_time.prems show ?case by (rule denotes_refE) (use pointer_time.hyps in auto)
next
  case (marshaler a ty s)
  from marshaler.prems show ?case by (rule denotes_refE) (simp_all add: marshaler.hyps)
next
  case (container a ty x w)
  from container.prems show ?case by (rule denotes_refE) (simp_all add: container.hyps container.IH)
qed

end
