(* ===== verification/Value_Graph.thy ===== *)
theory Value_Graph
  imports Value_Roundtrip
begin

text \<open>
  What a successful encoding says about the host value: it is a finite tree.  \<open>component\<close> is
  the step from a value to what it holds, through references too; \<open>nested\<close> counts the containers
  on a path.
\<close>

section \<open>Components\<close>

text \<open>The values the encoder of one node hands to the encoder it was given.\<close>

fun children :: "Value \<Rightarrow> Value list" where
  "children (VList xs) = xs"
| "children (VTuple xs) = xs"
| "children (VSet xs) = xs"
| "children (VFrozenSet xs) = xs"
| "children (HSlice xs) = xs"
| "children (HArray xs) = xs"
| "children (VNamedTuple n fs xs) = xs"
| "children (VDict d) = map fst d @ map snd d"
| "children (HMap sk d) = map fst d @ map snd d"
| "children (HStruct fs) = map sfd_value (filter (\<lambda>f. field_name f \<noteq> None) fs)"
| "children (VModule m) = map fst (mod_Attrs m) @ map snd (mod_Attrs m)"
| "children (HAsync f) = [f]"
| "children _ = []"

inductive component :: "heap \<Rightarrow> Value \<Rightarrow> Value \<Rightarrow> bool" for h where
  child: "x \<in> set (children v) \<Longrightarrow> component h v x"
| pointer: "map_of h a = Some (CPointer ty x) \<Longrightarrow> (\<And>t. x \<noteq> HTime t) \<Longrightarrow> component h (HRef a) x"
| container: "map_of h a = Some (CContainer ty x) \<Longrightarrow> component h (HRef a) x"

inductive_cases component_refE: "component h (HRef a) x"

text \<open>A path with \<open>n\<close> container steps; going through a pointer does not count.\<close>

inductive nested :: "heap \<Rightarrow> Value \<Rightarrow> nat \<Rightarrow> Value \<Rightarrow> bool" for h where
  here: "nested h v 0 v"
| child: "x \<in> set (children v) \<Longrightarrow> nested h x n y \<Longrightarrow> nested h v (Suc n) y"
| pointer: "map_of h a = Some (CPointer ty x) \<Longrightarrow> (\<And>t. x \<noteq> HTime t) \<Longrightarrow> nested h x n y \<Longrightarrow> nested h (HRef a) n y"
| container: "map_of h a = Some (CContainer ty x) \<Longrightarrow> nested h x n y \<Longrightarrow> nested h (HRef a) n y"

inductive_cases nested_refE: "nested h (HRef a) n y"

section \<open>No cycles\<close>

lemma list_all2_left: "list_all2 P xs ys \<Longrightarrow> x \<in> set xs \<Longrightarrow> \<exists>y. P x y"
  by (induction rule: list_all2_induct) auto

lemma struct_field_entry:
  "f \<in> set fs \<Longrightarrow> field_name f = Some n \<Longrightarrow> (VString n, sfd_value f) \<in> set (List.map_filter struct_entry fs)"
  by (induction fs) (auto simp: map_filter_simps struct_entry_def split: option.split)

lemma struct_children: "set (children (HStruct fs)) \<subseteq> set (children (VDict (List.map_filter struct_entry fs)))"
proof
  fix x
  assume "x \<in> set (children (HStruct fs))"
  then obtain f n where "f \<in> set fs" "field_name f = Some n" "x = sfd_value f" by auto
  then show "x \<in> set (children (VDict (List.map_filter struct_entry fs)))"
    using image_eqI [of x snd, OF _ struct_field_entry [of f fs n]] by simp
qed

abbreviation finite_value :: "heap \<Rightarrow> Value \<Rightarrow> bool" where
  "finite_value h \<equiv> Wellfounded.accp (\<lambda>x v. component h v x)"

lemma finite_nodeI:
  "(\<forall>a. v \<noteq> HRef a) \<Longrightarrow> (\<And>x. x \<in> set (children v) \<Longrightarrow> finite_value h x) \<Longrightarrow> finite_value h v"
  by (rule accp.accI) (erule component.cases, simp_all)

lemma finite_refI:
  assumes "\<And>ty x. map_of h a = Some (CPointer ty x) \<Longrightarrow> (\<And>t. x \<noteq> HTime t) \<Longrightarrow> finite_value h x"
    and "\<And>ty x. map_of h a = Some (CContainer ty x) \<Longrightarrow> finite_value h x"
  shows "finite_value h (HRef a)"
  by (rule accp.accI, erule component_refE) (use assms in auto)

lemma finite_child: "finite_value h v \<Longrightarrow> x \<in> set (children v) \<Longrightarrow> finite_value h x"
  by (erule accp_downward) (rule component.child)

text \<open>What a value denotes is built from what its components denote.\<close>

lemma denotes_finite: "denotes h v w \<Longrightarrow> finite_value h v"
proof (induction rule: denotes.induct)
  case (leaf v w)
  show ?case
  proof (rule finite_nodeI)
    show "\<forall>a. v \<noteq> HRef a" using leaf by auto
    show "finite_value h x" if "x \<in> set (children v)" for x using leaf that by (cases v) auto
  qed
next
  case (struct fs w)
  show ?case
  proof (rule finite_nodeI)
    show "finite_value h x" if "x \<in> set (children (HStruct fs))" for x
      by (rule finite_child [OF struct.IH subsetD [OF struct_children that]])
  qed simp
next
  case (go_map sk d w)
  show ?case by (rule finite_nodeI) (simp, rule finite_child [OF go_map.IH], simp add: map_entries_def)
next
  case (async f w)
  show ?case by (rule finite_nodeI) (simp, rule finite_child [OF async.IH], simp)
next
  case (module_value d e n i)
  show ?case by (rule finite_nodeI) (simp, rule finite_child [OF module_value.IH], simp)
next
  case (dict d e)
  have "finite_value h (fst p) \<and> finite_value h (snd p)" if "p \<in> set d" for p
    using list_all2_left [OF dict.IH that] by blast
  then show ?case by (intro finite_nodeI [of "VDict d"]) auto
next
  case (nil_ref a)
  then show ?case by (intro finite_refI) simp_all
next
  case (pointer a ty x w)
  then show ?case by (intro finite_refI) simp_all
next
  case (pointer_time a ty t s)
  then show ?case by (intro finite_refI) auto
next
  case (marshaler a ty s)
  then show ?case by (intro finite_refI) simp_all
next
  case (container a ty x w)
  then show ?case by (intro finite_refI) simp_all
qed (rule finite_nodeI; auto dest: list_all2_left)+

lemma denotes_acyclic:
  assumes "denotes h v w" and "(component h)\<^sup>*\<^sup>* v x"
  shows "\<not> (component h)\<^sup>+\<^sup>+ x x"
proof
  let ?R = "\<lambda>x v. component h v x"
  assume cyc: "(component h)\<^sup>+\<^sup>+ x x"
  from assms(2) have "Wellfounded.accp ?R x"
    by (induction rule: rtranclp_induct) (auto intro: denotes_finite [OF assms(1)] accp_downward)
  then show False
    using cyc
  proof (induction rule: accp.induct)
    case (accI x)
    from accI.prems obtain y where y: "component h x y" "(component h)\<^sup>*\<^sup>* y x"
      by (auto dest: tranclpD)
    then have "(component h)\<^sup>+\<^sup>+ y y" by (metis rtranclp_into_tranclp1)
    with accI.IH y(1) show False by blast
  qed
qed

section \<open>Bounded depth\<close>

lemma map_res_mem: "map_res f xs = Inr ys \<Longrightarrow> x \<in> set xs \<Longrightarrow> \<exists>y. f x = Inr y"
  by (induction xs arbitrary: ys) (auto simp: bind_res_eq_Inr)

lemma encodeObjectList_mem: "encodeObjectList pw child t xs = Inr b \<Longrightarrow> x \<in> set xs \<Longrightarrow> \<exists>c. child x = Inr c"
  by (auto simp: encodeObjectList_def bind_res_eq_Inr dest: map_res_mem)

lemma in_enumerate: "x \<in> set xs \<Longrightarrow> \<exists>i. (i, x) \<in> set (enumerate n xs)"
  by (induction xs arbitrary: n) auto

lemma encodeReflectList_mem: "encodeReflectList pw child t xs = Inr b \<Longrightarrow> x \<in> set xs \<Longrightarrow> \<exists>c. child x = Inr c"
  using in_enumerate [of x xs 0] by (auto simp: encodeReflectList_def bind_res_eq_Inr dest!: map_res_mem)

lemma encodeNamedTuple_mem:
  "encodeNamedTuple pw child n fs xs = Inr b \<Longrightarrow> x \<in> set xs \<Longrightarrow> \<exists>c. child x = Inr c"
  using in_enumerate [of x xs 0] by (auto simp: encodeNamedTuple_def bind_res_eq_Inr dest!: map_res_mem)

lemma encodeDict_mem:
  assumes "encodeDict pw child d = Inr b" and "p \<in> set d"
  shows "(\<exists>c. child (fst p) = Inr c) \<and> (\<exists>c. child (snd p) = Inr c)"
proof -
  from in_enumerate [OF assms(2), of 0] obtain i where "(i, p) \<in> set (enumerate 0 d)" by blast
  with assms(1) obtain c where "encodePair pw child i p = Inr c"
    by (auto simp: encodeDict_def bind_res_eq_Inr dest: map_res_mem)
  then show ?thesis by (auto simp: encodePair_def bind_res_eq_Inr)
qed

lemma encode_node_children:
  assumes "encode_node pw child v = Inr b" and "x \<in> set (children v)"
  shows "\<exists>c. child x = Inr c"
proof (cases v)
  case (HStruct fs)
  with assms(2) obtain n f where "f \<in> set fs" "field_name f = Some n" "x = sfd_value f" by auto
  then have "(VString n, x) \<in> set (List.map_filter struct_entry fs)"
    by (simp add: struct_field_entry)
  moreover have "encodeDict pw child (List.map_filter struct_entry fs) = Inr b"
    using assms(1) HStruct by (simp add: encodeStruct_def)
  ultimately show ?thesis by (auto dest: encodeDict_mem)
next
  case (HAsync f)
  with assms encodeDict_mem [of pw child _ b "(VString ''Function'', f)"] show ?thesis
    by (auto simp: encodeStruct_def struct_entry_def field_name_def map_filter_simps)
next
  case (HMap sk d)
  with assms show ?thesis
    using encodeDict_mem [of pw child "map_entries sk d" b] by (auto simp: encodeMap_def map_entries_def)
next
  case (VDict d)
  with assms show ?thesis by (auto dest: encodeDict_mem)
next
  case (VModule m)
  with assms show ?thesis by (auto simp: encodeModuleValue_def bind_res_eq_Inr dest: encodeDict_mem)
qed (use assms in \<open>auto dest: encodeObjectList_mem encodeReflectList_mem encodeNamedTuple_mem\<close>)

lemma encode_depth:
  assumes "nested h v n y" and "encode pw h stack depth v = Inr b"
  shows "depth + n \<le> maxValueDepth"
  using assms
proof (induction arbitrary: stack depth b rule: nested.induct)
  case (here v)
  then show ?case by (simp add: encode.simps [of pw h stack depth] split: if_splits)
next
  case (child x v n y)
  have "\<forall>a. v \<noteq> HRef a" using child.hyps(1) by auto
  then have "encode_node pw (encode pw h stack (Suc depth)) v = Inr b"
    using child.prems by (cases v) (simp_all add: encode.simps [of pw h stack depth] split: if_splits)
  with encode_node_children child.hyps(1) child.IH show ?case by fastforce
next
  case (pointer a ty x n y)
  have "encode pw h (a # stack) depth x = Inr b"
    using pointer.prems pointer.hyps(1,2)
    by (cases x) (auto simp: encode.simps [of pw h stack depth "HRef a"] split: if_splits)
  with pointer.IH show ?case by blast
next
  case (container a ty x n y)
  define stack' where "stack' = (if 0 < container_len x then a # stack else stack)"
  have "encode_node pw (encode pw h stack' (Suc depth)) x = Inr b \<and> depth \<le> maxValueDepth"
    using container.prems container.hyps(1)
    by (simp add: encode.simps [of pw h stack depth] stack'_def split: if_splits)
  then have "encode pw h stack' depth x = Inr b"
    by (cases x) (simp_all add: encode.simps [of pw h stack' depth])
  with container.IH show ?case by blast
qed

text \<open>The bound is exact: an empty list inside \<open>n\<close> others is accepted up to \<open>n = 100\<close>.\<close>

fun nested_lists :: "nat \<Rightarrow> Value" where
  "nested_lists 0 = VList []"
| "nested_lists (Suc n) = VList [nested_lists n]"

lemma nested_lists_list: "\<exists>xs. nested_lists n = VList xs"
  by (cases n) simp_all

lemma encode_nested_lists:
  "(\<exists>b. encode pw h stack depth (nested_lists n) = Inr b) \<longleftrightarrow> depth + n \<le> maxValueDepth"
proof (induction n arbitrary: depth)
  case 0
  show ?case by (simp add: encode.simps [of pw h stack depth] encodeObjectList_def)
next
  case (Suc n)
  have "(\<exists>b. encode pw h stack depth (nested_lists (Suc n)) = Inr b) \<longleftrightarrow>
      depth \<le> maxValueDepth \<and> (\<exists>b. encode pw h stack (Suc depth) (nested_lists n) = Inr b)"
    by (auto simp: encode.simps [of pw h stack depth] encodeObjectList_def bind_res_eq_Inr)
  then show ?case unfolding Suc.IH by auto
qed

end
