(* ===== verification/Durations.thy ===== *)
theory Durations
  imports Decode_Facts
begin

text \<open>
  The arithmetic of \<open>encodeDuration\<close> (\<open>value.go\<close> lines 497-506): the days, seconds and
  microseconds of a \<open>time.Duration\<close> are the floored parts of its truncated microseconds, and
  no operation on the 64-bit words wraps.
\<close>

lemma sint_of_int_fits: "- (2 ^ 63) \<le> i \<Longrightarrow> i < 2 ^ 63 \<Longrightarrow> sint (word_of_int i :: uint64) = i"
  by (simp add: sint_sbintrunc' signed_take_bit_int_eq_self)

lemma sint_range: "- (2 ^ 63) \<le> sint (w :: uint64)" "sint (w :: uint64) < 2 ^ 63"
  using sint_ge [of w] sint_lt [of w] by simp_all

lemma sdiv_pos: "0 < k \<Longrightarrow> (i :: int) sdiv k = (if 0 \<le> i then i div k else - (- i div k))"
  by (auto simp: signed_divide_int_def sgn_if)

lemma smod_pos: "0 < k \<Longrightarrow> 0 \<le> i \<Longrightarrow> (i :: int) smod k = i mod k"
  by (cases "i = 0") (auto simp: signed_modulo_int_def sgn_if)

lemma div_bounds:
  fixes i k :: int
  assumes "0 < k" "0 \<le> i"
  shows "0 \<le> i div k" "i div k * k \<le> i" "i < (i div k + 1) * k" "i div k \<le> i"
proof -
  have e: "i div k * k + i mod k = i" by simp
  have m: "0 \<le> i mod k" "i mod k < k" using assms by simp_all
  show "0 \<le> i div k" using assms by (simp add: pos_imp_zdiv_nonneg_iff)
  show "i div k * k \<le> i" using e m by linarith
  have "(i div k + 1) * k = i div k * k + k" by (simp add: algebra_simps)
  with e m show "i < (i div k + 1) * k" by linarith
  show "i div k \<le> i" using assms zdiv_mono2 [of i 1 k] by simp
qed

text \<open>Division truncates: the quotient has the sign of the dividend and the smaller magnitude.\<close>

lemma sdiv_bounds:
  fixes i k :: int
  assumes "0 < k"
  shows "0 \<le> i \<Longrightarrow> 0 \<le> i sdiv k \<and> i sdiv k * k \<le> i \<and> i < (i sdiv k + 1) * k \<and> i sdiv k \<le> i"
    and "i < 0 \<Longrightarrow> i sdiv k \<le> 0 \<and> i \<le> i sdiv k * k \<and> (i sdiv k - 1) * k < i \<and> i \<le> i sdiv k"
  using div_bounds [OF assms, of i] div_bounds [OF assms, of "- i"]
  by (simp_all add: sdiv_pos assms algebra_simps)

lemma sint_go_div: "0 < sint k \<Longrightarrow> sint (go_div x k) = sint x sdiv sint k"
  unfolding go_div_def using sint_range [of x] sdiv_bounds [of "sint k" "sint x"]
  by (intro sint_of_int_fits) (cases "0 \<le> sint x"; simp)+

lemma sint_go_mod: "0 < sint k \<Longrightarrow> 0 \<le> sint x \<Longrightarrow> sint (go_mod x k) = sint x mod sint k"
proof -
  assume k: "0 < sint k" and x: "0 \<le> sint x"
  have "0 \<le> sint x mod sint k" "sint x mod sint k < sint k" using k by simp_all
  then show ?thesis
    unfolding go_mod_def smod_pos [OF k x] using sint_range [of k] by (intro sint_of_int_fits) simp_all
qed

lemma sint_plus: "- (2 ^ 63) \<le> sint x + sint y \<Longrightarrow> sint x + sint y < 2 ^ 63 \<Longrightarrow> sint (x + y :: uint64) = sint x + sint y"
  using sint_of_int_fits [of "sint x + sint y"] by simp

lemma sint_minus: "- (2 ^ 63) \<le> sint x - sint y \<Longrightarrow> sint x - sint y < 2 ^ 63 \<Longrightarrow> sint (x - y :: uint64) = sint x - sint y"
  using sint_of_int_fits [of "sint x - sint y"] by simp

lemma sint_times: "- (2 ^ 63) \<le> sint x * sint y \<Longrightarrow> sint x * sint y < 2 ^ 63 \<Longrightarrow> sint (x * y :: uint64) = sint x * sint y"
  using sint_of_int_fits [of "sint x * sint y"] by simp

lemma sint_consts [simp]:
  "sint day_micros = 86400000000" "sint (1000 :: uint64) = 1000" "sint (1000000 :: uint64) = 1000000"
  by (simp_all add: day_micros_def)

text \<open>
  The total in microseconds, the ranges of the parts, and that the wire's 32 bits hold them.
\<close>

lemma duration_delta_parts:
  fixes x :: uint64
  defines "m \<equiv> sint x sdiv 1000" and "d \<equiv> duration_delta x"
  shows "sint (td_Days d) = m div 86400000000"
    and "sint (td_Seconds d) = m mod 86400000000 div 1000000"
    and "sint (td_Microseconds d) = m mod 86400000000 mod 1000000"
proof -
  define micros where "micros = go_div x 1000"
  define days where "days = go_div micros day_micros"
  define left where "left = micros - days * day_micros"
  define days' where "days' = (if left <s 0 then days - 1 else days)"
  define left' where "left' = (if left <s 0 then left + day_micros else left)"
  have d: "d = \<lparr>td_Days = days', td_Seconds = go_div left' 1000000, td_Microseconds = go_mod left' 1000000\<rparr>"
    by (simp add: d_def duration_delta_def Let_def days'_def left'_def left_def days_def micros_def)
  let ?D = "86400000000 :: int"
  have micros: "sint micros = m" unfolding micros_def m_def by (subst sint_go_div) simp_all
  have m: "\<bar>m\<bar> \<le> 2 ^ 63 div 1000"
    unfolding m_def using sdiv_bounds [of 1000 "sint x"] sint_range [of x] by (cases "0 \<le> sint x") simp_all
  have days: "sint days = m sdiv ?D" unfolding days_def by (subst sint_go_div) (simp_all add: micros)
  note b = sdiv_bounds [of ?D m]
  have prod: "sint (days * day_micros) = m sdiv ?D * ?D"
    using b m by (subst sint_times) (cases "0 \<le> m"; simp add: days)+
  have left: "sint left = m - m sdiv ?D * ?D"
    unfolding left_def using b m by (subst sint_minus) (cases "0 \<le> m"; simp add: prod micros)+
  have neg: "left <s 0 \<longleftrightarrow> m - m sdiv ?D * ?D < 0"
    by (simp add: word_sless_alt left)
  have lr: "- ?D < sint left" "sint left < ?D"
    unfolding left using b by (cases "0 \<le> m"; simp add: algebra_simps)+
  have dr: "- (2 ^ 62) \<le> m sdiv ?D" "m sdiv ?D \<le> 2 ^ 62"
    using b m by (cases "0 \<le> m"; simp)+
  have "sint days' = (if sint left < 0 then m sdiv ?D - 1 else m sdiv ?D)"
    unfolding days'_def neg left [symmetric] using dr by (auto simp: days sint_minus)
  moreover have "sint left' = (if sint left < 0 then sint left + ?D else sint left)"
    unfolding left'_def neg left [symmetric] using lr by (auto simp: sint_plus)
  ultimately have "sint days' * ?D + sint left' = m" and l: "0 \<le> sint left'" "sint left' < ?D"
    using lr by (simp_all add: left algebra_simps)
  then have "m div ?D = sint days'" and "m mod ?D = sint left'"
    by (metis add.commute div_pos_pos_trivial div_mult_self1 add.right_neutral zero_neq_numeral add_0,
        metis mod_mult_self3 mod_pos_pos_trivial)
  with l show "sint (td_Days d) = m div 86400000000"
    "sint (td_Seconds d) = m mod 86400000000 div 1000000"
    "sint (td_Microseconds d) = m mod 86400000000 mod 1000000"
    by (simp_all add: d sint_go_div sint_go_mod sdiv_pos)
qed


lemma duration_delta_fits: "norm_timedelta (duration_delta x) = duration_delta x"
proof -
  let ?m = "sint x sdiv 1000"
  have m: "- 9223372036854776 \<le> ?m" "?m \<le> 9223372036854776"
    using sdiv_bounds [of 1000 "sint x"] sint_range [of x] by (cases "0 \<le> sint x"; simp)+
  then have "- 9223372036854776 div 86400000000 \<le> ?m div 86400000000"
    "?m div 86400000000 \<le> 9223372036854776 div 86400000000"
    by (intro zdiv_mono1; simp)+
  then have days: "- 106752 \<le> ?m div 86400000000" "?m div 86400000000 \<le> 106752" by simp_all
  have r: "0 \<le> ?m mod 86400000000" "?m mod 86400000000 < 86400000000" by simp_all
  then have secs: "0 \<le> ?m mod 86400000000 div 1000000" "?m mod 86400000000 div 1000000 < 86400"
    by (auto simp: pos_imp_zdiv_nonneg_iff intro: zdiv_mono1 [of _ 86399999999 1000000, THEN order.strict_trans1])
  have micros: "0 \<le> ?m mod 86400000000 mod 1000000" "?m mod 86400000000 mod 1000000 < 1000000" by simp_all
  have fits: "fits_int32 w" if "- 1000000 < sint w" "sint w < 1000000" for w
    using that by (simp add: fits_int32_def)
  have "fits_int32 (td_Days (duration_delta x))" "fits_int32 (td_Seconds (duration_delta x))"
    using days secs by (intro fits; simp add: duration_delta_parts)+
  moreover have "fits_int32 (td_Microseconds (duration_delta x))"
    by (rule fits) (simp_all add: duration_delta_parts order.strict_trans2 [OF _ pos_mod_sign])
  ultimately show ?thesis by (simp add: norm_timedelta_def int_of_int32_fits)
qed

end
