(* ===== verification/File_Mode.thy ===== *)
theory File_Mode
  imports Values
begin

text \<open>
  \<open>CanonicalFileMode\<close>, \<open>NewFileHandle\<close> and the \<open>FileHandle\<close> predicates (\<open>value.go\<close> lines
  118-178), with the set of modes that are accepted.
\<close>

text \<open>The \<open>%q\<close> of a byte is a quoted character.\<close>

definition quote_byte :: "char \<Rightarrow> string" where
  "quote_byte c = [CHR 0x27] @ quote_char c @ [CHR 0x27]"

definition mode_error :: go_error where
  "mode_error = Errorf ''must have exactly one of read/write/append mode'' []"

definition action_char :: "char \<Rightarrow> bool" where
  "action_char c \<longleftrightarrow> c \<in> {CHR ''r'', CHR ''w'', CHR ''a''}"

text \<open>One character of the mode; the state is the action, and the flags for binary and text.\<close>

definition mode_step ::
  "char \<Rightarrow> char option \<times> bool \<times> bool \<Rightarrow> (char option \<times> bool \<times> bool) \<times> go_error option" where
  "mode_step c s =
     (case s of (action, binary, txt) \<Rightarrow>
      if action_char c then
        (if action \<noteq> None then fail s mode_error else ok (Some c, binary, txt))
      else if c = CHR ''x'' then fail s (Errorf ''exclusive creation mode is not supported'' [])
      else if c = CHR ''b'' then
        (if binary then fail s (Errorf ''invalid mode: binary mode specified twice'' [])
         else ok (action, True, txt))
      else if c = CHR ''t'' then
        (if txt then fail s (Errorf ''invalid mode: text mode specified twice'' [])
         else ok (action, binary, True))
      else if c = CHR ''+'' then fail s (Errorf ''update modes ('+') are not yet supported'' [])
      else fail s (Errorf ''invalid mode character %s'' [AStr (quote_byte c)]))"

definition CanonicalFileMode :: "string \<Rightarrow> go_error + string" where
  "CanonicalFileMode mode =
     (if mode = [] then Inl mode_error else
      case fold_res mode_step mode (None, False, False) of
        (_, Some e) \<Rightarrow> Inl e
      | ((action, binary, txt), None) \<Rightarrow>
          (case action of
             None \<Rightarrow> Inl mode_error
           | Some c \<Rightarrow>
               if binary \<and> txt then Inl (Errorf ''cannot use text and binary mode together'' [])
               else Inr (c # (if binary then ''b'' else []))))"

definition NewFileHandle :: "string \<Rightarrow> string \<Rightarrow> uint64 \<Rightarrow> go_error + file_handle" where
  "NewFileHandle path mode position =
     bind_res (CanonicalFileMode mode) (\<lambda>canonical.
       Inr \<lparr>fh_Path = path, fh_Mode = canonical, fh_Position = position\<rparr>)"

definition FileHandle_Binary :: "file_handle \<Rightarrow> bool" where
  "FileHandle_Binary f \<longleftrightarrow> CHR ''b'' \<in> set (fh_Mode f)"

definition FileHandle_Readable :: "file_handle \<Rightarrow> bool" where
  "FileHandle_Readable f \<longleftrightarrow> take 1 (fh_Mode f) = ''r'' \<or> CHR ''+'' \<in> set (fh_Mode f)"

definition FileHandle_Writable :: "file_handle \<Rightarrow> bool" where
  "FileHandle_Writable f \<longleftrightarrow>
     take 1 (fh_Mode f) = ''w'' \<or> take 1 (fh_Mode f) = ''a'' \<or> CHR ''+'' \<in> set (fh_Mode f)"

section \<open>The accepted modes\<close>

text \<open>What a mode says: how often each kind of character occurs.\<close>

definition mode_ok :: "string \<Rightarrow> bool" where
  "mode_ok m \<longleftrightarrow>
     (\<forall>c \<in> set m. action_char c \<or> c = CHR ''b'' \<or> c = CHR ''t'')
     \<and> length (filter action_char m) = 1
     \<and> count_list m CHR ''b'' + count_list m CHR ''t'' \<le> 1"

definition canonical :: "string \<Rightarrow> string" where
  "canonical m = filter action_char m @ filter (\<lambda>c. c = CHR ''b'') m"

lemma action_char_other: "action_char c \<Longrightarrow> c \<noteq> CHR ''b'' \<and> c \<noteq> CHR ''t''"
  by (auto simp: action_char_def)

lemma not_action_char [simp]: "\<not> action_char CHR ''b''" "\<not> action_char CHR ''t''"
  by (simp_all add: action_char_def)

text \<open>The state after the loop counts what it read.\<close>

definition opt_list :: "'a option \<Rightarrow> 'a list" where
  "opt_list x = (case x of None \<Rightarrow> [] | Some c \<Rightarrow> [c])"

lemma opt_list_simps [simp]: "opt_list None = []" "opt_list (Some c) = [c]"
  by (simp_all add: opt_list_def)

lemma opt_list_eq: "opt_list x = opt_list y \<longleftrightarrow> x = y"
  by (cases x; cases y) simp_all

lemma opt_list_Cons: "opt_list x = c # cs \<longleftrightarrow> x = Some c \<and> cs = []"
  by (cases x) auto

lemma mode_step_cases:
  "action_char c \<Longrightarrow> mode_step c (a, b, t) = (if a \<noteq> None then fail (a, b, t) mode_error else ok (Some c, b, t))"
  "mode_step CHR ''b'' (a, b, t) = (if b then fail (a, b, t) (Errorf ''invalid mode: binary mode specified twice'' [])
     else ok (a, True, t))"
  "mode_step CHR ''t'' (a, b, t) = (if t then fail (a, b, t) (Errorf ''invalid mode: text mode specified twice'' [])
     else ok (a, b, True))"
  "\<not> action_char c \<Longrightarrow> c \<noteq> CHR ''b'' \<Longrightarrow> c \<noteq> CHR ''t'' \<Longrightarrow> \<exists>e. mode_step c (a, b, t) = fail (a, b, t) e"
  by (auto simp: mode_step_def action_char_def)

lemma mode_loop:
  "fold_res mode_step m (a, b, t) = ok (a', b', t') \<longleftrightarrow>
     (\<forall>c \<in> set m. action_char c \<or> c = CHR ''b'' \<or> c = CHR ''t'')
     \<and> opt_list a' = opt_list a @ filter action_char m
     \<and> of_bool b' = of_bool b + count_list m CHR ''b''
     \<and> of_bool t' = of_bool t + count_list m CHR ''t''"
proof (induction m arbitrary: a b t)
  case Nil
  show ?case by (auto simp: opt_list_eq)
next
  case (Cons c m)
  consider "action_char c" | "c = CHR ''b''" | "c = CHR ''t''" | "\<not> action_char c" "c \<noteq> CHR ''b''" "c \<noteq> CHR ''t''"
    by blast
  then show ?case
  proof cases
    case 1
    then show ?thesis
      using action_char_other [OF 1] by (cases a) (simp_all add: mode_step_cases Cons.IH opt_list_Cons)
  next
    case 2
    then show ?thesis by (cases b) (simp_all add: mode_step_cases Cons.IH)
  next
    case 3
    then show ?thesis by (cases t) (simp_all add: mode_step_cases Cons.IH)
  next
    case 4
    then show ?thesis using mode_step_cases(4) [OF 4, of a b t] by auto
  qed
qed

lemma filter_count: "filter (\<lambda>x. x = c) xs = replicate (count_list xs c) c"
  by (induction xs) auto

lemma CanonicalFileMode_Inr: "CanonicalFileMode m = Inr r \<longleftrightarrow> mode_ok m \<and> r = canonical m"
proof -
  obtain a b t e where fields: "fold_res mode_step m (None, False, False) = ((a, b, t), e)"
    by (metis prod.exhaust)
  show ?thesis
  proof (cases e)
    case None
    with fields mode_loop [of m None False False a b t] have l:
      "\<forall>c \<in> set m. action_char c \<or> c = CHR ''b'' \<or> c = CHR ''t''" "filter action_char m = opt_list a"
      "count_list m CHR ''b'' = of_bool b" "count_list m CHR ''t'' = of_bool t" by simp_all
    then show ?thesis
      using fields None by (cases a) (auto simp: CanonicalFileMode_def mode_ok_def canonical_def filter_count)
  next
    case (Some x)
    have "\<not> mode_ok m"
    proof
      assume ok: "mode_ok m"
      then obtain c where c: "filter action_char m = [c]" by (auto simp: mode_ok_def length_Suc_conv)
      have "of_bool (0 < n) = n" if "n \<le> 1" for n :: nat using that by (cases n) auto
      then have "fold_res mode_step m (None, False, False)
          = ok (Some c, 0 < count_list m CHR ''b'', 0 < count_list m CHR ''t'')"
        using ok c by (subst mode_loop) (simp add: mode_ok_def)
      with fields Some show False by simp
    qed
    then show ?thesis using fields Some by (auto simp: CanonicalFileMode_def)
  qed
qed

lemma canonical_mode: "mode_ok m \<Longrightarrow> mode_ok (canonical m) \<and> canonical (canonical m) = canonical m"
proof -
  assume ok: "mode_ok m"
  then obtain c where c: "filter action_char m = [c]" by (auto simp: mode_ok_def length_Suc_conv)
  then have "action_char c" by (metis filter_eq_Cons_iff)
  with ok c action_char_other [of c] show ?thesis
    by (cases "count_list m CHR ''b''") (auto simp: mode_ok_def canonical_def filter_count action_char_def)
qed

end
