(* ===== verification/Print.thy ===== *)
theory Print
  imports Errors
begin

text \<open>
  The print collectors (\<open>print.go\<close>).  \<open>CollectString\<close> and \<open>CollectStreams\<close> keep the same
  contract, the locale \<open>print_collector\<close>: a capped buffer whose first refusal is final.
\<close>

type_synonym print_stream = uint32

definition DefaultMaxPrintCollectBytes :: int where
  "DefaultMaxPrintCollectBytes = 10 * 1024 * 1024"

definition printLimit :: "int list \<Rightarrow> go_error + int" where
  "printLimit values =
     (if 1 < length values then Inl (Errorf ''expected at most one maxBytes value'' [])
      else if values = [] then Inr DefaultMaxPrintCollectBytes
      else if hd values < -1 then Inl (Errorf ''maxBytes must be non-negative or -1 for unlimited'' [])
      else Inr (hd values))"

definition exceeded :: "int \<Rightarrow> go_error" where
  "exceeded m = HostError ''MemoryError'' (sprintf ''print collection exceeded %d bytes'' [decimal_int m]) None"

section \<open>CollectString\<close>

record collect_string =
  cs_output :: string
  cs_bytes :: int
  cs_max :: int
  cs_failed :: "go_error option"

definition NewCollectString :: "int list \<Rightarrow> go_error + collect_string" where
  "NewCollectString maxBytes = bind_res (printLimit maxBytes)
     (\<lambda>m. Inr \<lparr>cs_output = [], cs_bytes = 0, cs_max = m, cs_failed = None\<rparr>)"

definition CollectString_Write ::
  "print_stream \<Rightarrow> string \<Rightarrow> collect_string \<Rightarrow> collect_string \<times> go_error option" where
  "CollectString_Write st txt c =
     (case cs_failed c of
        Some e \<Rightarrow> fail c e
      | None \<Rightarrow>
          if 0 \<le> cs_max c \<and> cs_max c < cs_bytes c + int (length txt)
          then fail (c\<lparr>cs_failed := Some (exceeded (cs_max c))\<rparr>) (exceeded (cs_max c))
          else ok (c\<lparr>cs_bytes := cs_bytes c + int (length txt), cs_output := cs_output c @ txt\<rparr>))"

definition CollectString_Output :: "collect_string \<Rightarrow> string" where
  "CollectString_Output c = cs_output c"

definition CollectString_Err :: "collect_string \<Rightarrow> go_error option" where
  "CollectString_Err c = cs_failed c"

section \<open>CollectStreams\<close>

record collected_entry =
  en_Stream :: print_stream
  en_Text :: string

record collect_streams =
  ct_output :: "collected_entry list"
  ct_bytes :: int
  ct_max :: int
  ct_failed :: "go_error option"

definition NewCollectStreams :: "int list \<Rightarrow> go_error + collect_streams" where
  "NewCollectStreams maxBytes = bind_res (printLimit maxBytes)
     (\<lambda>m. Inr \<lparr>ct_output = [], ct_bytes = 0, ct_max = m, ct_failed = None\<rparr>)"

definition CollectStreams_Write ::
  "print_stream \<Rightarrow> string \<Rightarrow> collect_streams \<Rightarrow> collect_streams \<times> go_error option" where
  "CollectStreams_Write st txt c =
     (case ct_failed c of
        Some e \<Rightarrow> fail c e
      | None \<Rightarrow>
          if 0 \<le> ct_max c \<and> ct_max c < ct_bytes c + int (length txt)
          then fail (c\<lparr>ct_failed := Some (exceeded (ct_max c))\<rparr>) (exceeded (ct_max c))
          else ok (c\<lparr>ct_bytes := ct_bytes c + int (length txt),
                   ct_output := ct_output c @ [\<lparr>en_Stream = st, en_Text = txt\<rparr>]\<rparr>))"

definition CollectStreams_Output :: "collect_streams \<Rightarrow> collected_entry list" where
  "CollectStreams_Output c = ct_output c"

definition CollectStreams_Err :: "collect_streams \<Rightarrow> go_error option" where
  "CollectStreams_Err c = ct_failed c"

section \<open>The contract\<close>

text \<open>A sequence of prints: the state after it and the answers.\<close>

fun write_all ::
  "(print_stream \<Rightarrow> string \<Rightarrow> 'c \<Rightarrow> 'c \<times> go_error option) \<Rightarrow> (print_stream \<times> string) list \<Rightarrow> 'c
     \<Rightarrow> 'c \<times> go_error option list" where
  "write_all w [] c = (c, [])"
| "write_all w (p # ps) c =
     (case w (fst p) (snd p) c of (c', r) \<Rightarrow>
      case write_all w ps c' of (c'', rs) \<Rightarrow> (c'', r # rs))"

text \<open>The chunks a cap lets through: those before the first one that does not fit.\<close>

fun fitting :: "int \<Rightarrow> int \<Rightarrow> (print_stream \<times> string) list \<Rightarrow> (print_stream \<times> string) list" where
  "fitting m n [] = []"
| "fitting m n (p # ps) =
     (if 0 \<le> m \<and> m < n + int (length (snd p)) then [] else p # fitting m (n + int (length (snd p))) ps)"

lemma fitting_fits:
  "0 \<le> m \<Longrightarrow> n \<le> m \<Longrightarrow> n + int (length (concat (map snd (fitting m n ps)))) \<le> m"
proof (induction ps arbitrary: n)
  case (Cons p ps)
  show ?case
  proof (cases "m < n + int (length (snd p))")
    case False
    with Cons.IH [of "n + int (length (snd p))"] Cons.prems(1) show ?thesis by simp
  qed (simp add: Cons.prems)
qed simp

locale print_collector =
  fixes Write :: "print_stream \<Rightarrow> string \<Rightarrow> 'c \<Rightarrow> 'c \<times> go_error option"
    and text_of :: "'c \<Rightarrow> string"
    and limit :: "'c \<Rightarrow> int"
    and failed :: "'c \<Rightarrow> go_error option"
    and valid :: "'c \<Rightarrow> bool"
  assumes write_failed: "valid c \<Longrightarrow> failed c = Some e \<Longrightarrow> Write st t c = fail c e"
    and write_over: "valid c \<Longrightarrow> failed c = None \<Longrightarrow> 0 \<le> limit c \<Longrightarrow> limit c < int (length (text_of c)) + int (length t) \<Longrightarrow>
      \<exists>c'. Write st t c = fail c' (exceeded (limit c)) \<and> valid c' \<and> text_of c' = text_of c
        \<and> limit c' = limit c \<and> failed c' = Some (exceeded (limit c))"
    and write_ok: "valid c \<Longrightarrow> failed c = None \<Longrightarrow> limit c < 0 \<or> int (length (text_of c)) + int (length t) \<le> limit c \<Longrightarrow>
      \<exists>c'. Write st t c = ok c' \<and> valid c' \<and> text_of c' = text_of c @ t \<and> limit c' = limit c \<and> failed c' = None"
begin

lemma write_all_failed:
  "valid c \<Longrightarrow> failed c = Some e \<Longrightarrow> write_all Write ps c = (c, map (\<lambda>p. Some e) ps)"
  by (induction ps) (simp_all add: write_failed)

lemma write_all_fitting:
  assumes "valid c" and "failed c = None"
  shows "text_of (fst (write_all Write ps c))
      = text_of c @ concat (map snd (fitting (limit c) (int (length (text_of c))) ps))
    \<and> snd (write_all Write ps c)
      = map (\<lambda>p. None) (fitting (limit c) (int (length (text_of c))) ps)
        @ replicate (length ps - length (fitting (limit c) (int (length (text_of c))) ps)) (Some (exceeded (limit c)))"
  using assms
proof (induction ps arbitrary: c)
  case (Cons p ps)
  show ?case
  proof (cases "0 \<le> limit c \<and> limit c < int (length (text_of c)) + int (length (snd p))")
    case True
    with write_over [OF Cons.prems] obtain c' where c': "Write (fst p) (snd p) c = fail c' (exceeded (limit c))"
      "valid c'" "text_of c' = text_of c" "failed c' = Some (exceeded (limit c))" by blast
    with True write_all_failed [OF c'(2,4), of ps] show ?thesis
      by (simp add: map_replicate_const)
  next
    case False
    then obtain c' where c': "Write (fst p) (snd p) c = ok c'" "valid c'" "text_of c' = text_of c @ snd p"
      "limit c' = limit c" "failed c' = None"
      using write_ok [OF Cons.prems, of "snd p" "fst p"] by (auto simp: not_le not_less)
    with False Cons.IH [OF c'(2,5)] show ?thesis
      by (auto split: prod.splits)
  qed
qed simp

lemma bounded:
  assumes "valid c" and "failed c = None" and "0 \<le> limit c" and "int (length (text_of c)) \<le> limit c"
  shows "int (length (text_of (fst (write_all Write ps c)))) \<le> limit c"
proof -
  from fitting_fits [OF assms(3,4)] write_all_fitting [OF assms(1,2), of ps] show ?thesis by simp
qed

end

definition string_valid :: "collect_string \<Rightarrow> bool" where
  "string_valid c \<longleftrightarrow> cs_bytes c = int (length (cs_output c))"

definition streams_text :: "collect_streams \<Rightarrow> string" where
  "streams_text c = concat (map en_Text (ct_output c))"

definition streams_valid :: "collect_streams \<Rightarrow> bool" where
  "streams_valid c \<longleftrightarrow> ct_bytes c = int (length (streams_text c))"

interpretation string_collector: print_collector CollectString_Write cs_output cs_max cs_failed string_valid
  by unfold_locales (auto simp: CollectString_Write_def string_valid_def)

interpretation stream_collector: print_collector CollectStreams_Write streams_text ct_max ct_failed streams_valid
  by unfold_locales (auto simp: CollectStreams_Write_def streams_valid_def streams_text_def)

end
