(* ===== verification/Arena.thy ===== *)
theory Arena
  imports Value_Roundtrip
begin

text \<open>
  The value arenas of a message (\<open>arena.go\<close>): nodes in post-order, containers refer to the nodes
  of their elements by index.  \<open>arena_add\<close> is \<open>arenaEncoder.add\<close>, \<open>decodeArena\<close> the reader.

  The recursion of \<open>addLegacy\<close> is closed as that of \<open>decodeValue\<close>: the helpers take the
  function for the payloads, and \<open>addLegacy\<close> starts with a bound that exceeds the nesting.
\<close>

definition RuntimeVersion :: string where "RuntimeVersion = ''1.2.0''"

definition legacyNodeTags :: "(nat \<times> nat) list" where
  "legacyNodeTags = map (\<lambda>t. (t, t))
     [1, 2, 3, 4, 5, 6, 7, 8, 9, 11, 12, 13, 14, 15, 16, 17, 18, 19, 20, 21, 22, 23, 25, 26, 27, 28, 29, 30, 31, 32]"

text \<open>The variables a callback captures: the arena's nodes and the message under construction.\<close>

type_synonym nodes = "bytes list"
type_synonym adder = "bytes \<Rightarrow> nodes \<Rightarrow> go_error + uint32 \<times> nodes"

section \<open>Writing\<close>

text \<open>\<open>i, err := a.addLegacy(data); body = append(body, fieldVarint(t, uint64(i))...)\<close>\<close>

definition add_ref :: "protowire \<Rightarrow> adder \<Rightarrow> nat \<Rightarrow> bytes \<Rightarrow> nodes \<times> bytes \<Rightarrow> (nodes \<times> bytes) \<times> go_error option" where
  "add_ref pw add t data s =
     (case s of (ns, body) \<Rightarrow>
      set_or_fail (add data ns) (\<lambda>(i, ns'). (ns', body @ fieldVarint pw t (ucast i))) s)"

definition addPairs :: "protowire \<Rightarrow> adder \<Rightarrow> bytes \<Rightarrow> nodes \<Rightarrow> go_error + nodes \<times> bytes" where
  "addPairs pw add data ns = parse_result pw data
     (\<lambda>c (ns, body).
        if tag c \<noteq> 1 then ok (ns, body)
        else set_or_fail
          (parse_result pw (bytes c) (\<lambda>p. add_ref pw add (tag p) (bytes p)) (ns, []))
          (\<lambda>(ns', pair). (ns', body @ fieldMessage pw 1 pair)) (ns, body))
     (ns, [])"

definition add_items :: "protowire \<Rightarrow> adder \<Rightarrow> bytes \<Rightarrow> nodes \<Rightarrow> go_error + nodes \<times> bytes" where
  "add_items pw add data ns = parse_result pw data
     (\<lambda>c s. if tag c \<noteq> 1 then ok s else add_ref pw add 1 (bytes c) s) (ns, [])"

definition add_module :: "protowire \<Rightarrow> adder \<Rightarrow> bytes \<Rightarrow> nodes \<Rightarrow> go_error + nodes \<times> bytes" where
  "add_module pw add data ns = parse_result pw data
     (\<lambda>c (ns, body).
        if tag c = 3 then
          set_or_fail (addPairs pw add (bytes c) ns)
            (\<lambda>(ns', attrs). (ns', body @ fieldMessage pw 3 attrs)) (ns, body)
        else ok (ns, body @ fieldBytes pw (tag c) (bytes c)))
     (ns, [])"

definition add_named_tuple :: "protowire \<Rightarrow> adder \<Rightarrow> bytes \<Rightarrow> nodes \<Rightarrow> go_error + nodes \<times> bytes" where
  "add_named_tuple pw add data ns = parse_result pw data
     (\<lambda>c (ns, body).
        if tag c = 3 then add_ref pw add 3 (bytes c) (ns, body)
        else ok (ns, body @ fieldBytes pw (tag c) (bytes c)))
     (ns, [])"

text \<open>One kind field of the value message becomes the node; the last one wins.\<close>

definition add_body :: "protowire \<Rightarrow> adder \<Rightarrow> wire_field \<Rightarrow> nodes \<Rightarrow> go_error + nodes \<times> bytes" where
  "add_body pw add f ns =
     (if tag f \<in> {11, 12, 15, 16} then add_items pw add (bytes f) ns
      else if tag f = 14 then addPairs pw add (bytes f) ns
      else if tag f = 32 then add_module pw add (bytes f) ns
      else if tag f = 13 then add_named_tuple pw add (bytes f) ns
      else Inr (ns, bytes f))"

definition add_field ::
  "protowire \<Rightarrow> adder \<Rightarrow> wire_field \<Rightarrow> nodes \<times> bytes \<Rightarrow> (nodes \<times> bytes) \<times> go_error option" where
  "add_field pw add f s =
     (case map_of legacyNodeTags (tag f) of
        None \<Rightarrow> fail s (Errorf ''value kind %d cannot be supplied to Monty %s'' [AInt (int (tag f)), AStr RuntimeVersion])
      | Some t \<Rightarrow>
          set_or_fail (add_body pw add f (fst s))
            (\<lambda>(ns, body). (ns,
               case wtype f of
                 VarintType \<Rightarrow> fieldVarint pw t (varint f)
               | Fixed64Type \<Rightarrow> fieldFixed64 pw t (fixed64 f)
               | _ \<Rightarrow> fieldMessage pw t body)) s)"

definition add_message :: "protowire \<Rightarrow> adder \<Rightarrow> adder" where
  "add_message pw add b ns =
     bind_res (parse_result pw b (add_field pw add) (ns, []))
       (\<lambda>(ns, node). Inr (of_nat (length ns), ns @ [node]))"

fun add_legacy :: "protowire \<Rightarrow> nat \<Rightarrow> adder" where
  "add_legacy pw 0 b ns = Inl OutOfFuel"
| "add_legacy pw (Suc n) b ns = add_message pw (add_legacy pw n) b ns"

definition addLegacy :: "protowire \<Rightarrow> adder" where
  "addLegacy pw b ns = add_legacy pw (Suc (length b)) b ns"

definition arena_add :: "protowire \<Rightarrow> heap \<Rightarrow> Value \<Rightarrow> nodes \<Rightarrow> go_error + uint32 \<times> nodes" where
  "arena_add pw h v ns = bind_res (encodeValue pw h v) (\<lambda>b. addLegacy pw b ns)"

definition arena_encode :: "protowire \<Rightarrow> nodes \<Rightarrow> bytes" where
  "arena_encode pw ns = fieldVarint pw 1 (of_nat (length ns)) @ concat (map (fieldMessage pw 2) ns)"

section \<open>Reading\<close>

definition arenaRef :: "Value list \<Rightarrow> uint64 \<Rightarrow> go_error + Value" where
  "arenaRef values i =
     (if length values \<le> unat i
      then Inl (Errorf ''arena reference %d outside %d nodes'' [AInt (uint i), AInt (int (length values))])
      else Inr (values ! unat i))"

text \<open>The packed form: varints up to the end of the payload.\<close>

function packed_varints :: "protowire \<Rightarrow> bytes \<Rightarrow> uint64 list \<Rightarrow> uint64 list \<times> go_error option" where
  "packed_varints pw b out =
     (if b = [] then ok out else
      case ConsumeVarint pw b of (v, n) \<Rightarrow>
        if n < 0 then fail out (ParseError n)
        else if n = 0 \<or> length b < nat n then fail out NoProgress
        else packed_varints pw (drop (nat n) b) (out @ [v]))"
  by pat_completeness auto
termination by (relation "measure (\<lambda>(pw, b, out). length b)") auto

declare packed_varints.simps [simp del]

definition index_field :: "protowire \<Rightarrow> nat \<Rightarrow> wire_field \<Rightarrow> uint64 list \<Rightarrow> uint64 list \<times> go_error option" where
  "index_field pw t f out =
     (if tag f \<noteq> t then ok out
      else if wtype f = VarintType then ok (out @ [varint f])
      else if wtype f \<noteq> BytesType then fail out (Errorf ''invalid index wire type'' [])
      else packed_varints pw (bytes f) out)"

definition indexes :: "protowire \<Rightarrow> bytes \<Rightarrow> nat \<Rightarrow> go_error + uint64 list" where
  "indexes pw data t = parse_result pw data (index_field pw t) []"

definition arenaPairs :: "protowire \<Rightarrow> bytes \<Rightarrow> Value list \<Rightarrow> go_error + dict" where
  "arenaPairs pw data values = parse_result pw data
     (\<lambda>f d. if tag f \<noteq> 1 then ok d
        else set_or_fail
          (bind_res (parse_result pw (bytes f)
             (\<lambda>p (k, v). ok (if tag p = 1 then varint p else k, if tag p = 2 then varint p else v)) (0, 0))
           (\<lambda>(k, v). bind_res (arenaRef values k) (\<lambda>key. bind_res (arenaRef values v) (\<lambda>val. Inr (key, val)))))
          (\<lambda>p. d @ [p]) d) []"

definition arena_items :: "protowire \<Rightarrow> bytes \<Rightarrow> nat \<Rightarrow> Value list \<Rightarrow> go_error + Value list" where
  "arena_items pw data t values = bind_res (indexes pw data t) (map_res (arenaRef values))"

definition arena_named_tuple :: "protowire \<Rightarrow> bytes \<Rightarrow> Value list \<Rightarrow> go_error + Value" where
  "arena_named_tuple pw data values =
     bind_res (parse_result pw data (\<lambda>p names. ok (if tag p = 2 then names @ [bytes p] else names)) [])
       (\<lambda>names. bind_res (arena_items pw data 3 values)
         (\<lambda>items. Inr (VNamedTuple (decodeStringField pw data 1) names items)))"

definition arena_time :: "protowire \<Rightarrow> bytes \<Rightarrow> go_error + time" where
  "arena_time pw data = parse_result pw data
     (\<lambda>p x. ok (if tag p = 1 then x\<lparr>t_Hour := varint p\<rparr>
            else if tag p = 2 then x\<lparr>t_Minute := varint p\<rparr>
            else if tag p = 3 then x\<lparr>t_Second := varint p\<rparr>
            else if tag p = 4 then x\<lparr>t_Microsecond := varint p\<rparr>
            else if tag p = 5 then x\<lparr>t_OffsetSeconds := Some (int_of_int32 (varint p))\<rparr>
            else if tag p = 6 then x\<lparr>t_TimezoneName := Some (bytes p)\<rparr>
            else if tag p = 7 then x\<lparr>t_Fold := varint p\<rparr>
            else x))
     \<lparr>t_Hour = 0, t_Minute = 0, t_Second = 0, t_Microsecond = 0,
      t_OffsetSeconds = None, t_TimezoneName = None, t_Fold = 0\<rparr>"

definition arena_class :: "protowire \<Rightarrow> bytes \<Rightarrow> Value list \<Rightarrow> go_error + Value" where
  "arena_class pw data values =
     bind_res (parse_result pw data
        (\<lambda>p (uid, origin, dataclass, attrs, hasID).
           let s = (uid, origin, dataclass, attrs, hasID) in
           if tag p = 2 then
             (case decodeUUID pw (bytes p) of
                Inl e \<Rightarrow> fail (uid, origin, dataclass, attrs, True) e
              | Inr i \<Rightarrow> ok (i, origin, dataclass, attrs, True))
           else if tag p = 3 then ok (uid, ucast (varint p), dataclass, attrs, hasID)
           else if tag p = 4 then ok (uid, origin, varint p \<noteq> 0, attrs, hasID)
           else if tag p = 5 then
             set_or_fail (arenaPairs pw (bytes p) values) (\<lambda>d. (uid, origin, dataclass, d, hasID)) s
           else ok s)
        (0, 0, False, [], False))
       (\<lambda>(uid, origin, dataclass, attrs, hasID).
          let name = decodeStringField pw data 1 in
          if \<not> valid_origin origin then Inl (Errorf ''invalid type origin %d'' [AInt (uint origin)])
          else if hasID \<noteq> (origin \<noteq> TypeOriginBuiltin) then Inl (Errorf ''invalid class identity'' [])
          else Inr (if origin = TypeOriginBuiltin then VType name
                    else VClassType (ClassType name uid origin dataclass attrs)))"

text \<open>\<open>%T\<close> of a decoded value.\<close>

fun type_name :: "Value \<Rightarrow> string" where
  "type_name VNil = ''<nil>''"
| "type_name VEllipsis = ''monty.Ellipsis''"
| "type_name VNotImplemented = ''monty.NotImplemented''"
| "type_name (VBool b) = ''bool''"
| "type_name (VInt64 w) = ''int64''"
| "type_name (VBigInt i) = ''*big.Int''"
| "type_name (VFloat64 w) = ''float64''"
| "type_name (VComplex128 re im) = ''complex128''"
| "type_name (VString s) = ''string''"
| "type_name (VBytes b) = ''[]uint8''"
| "type_name (VList xs) = ''monty.List''"
| "type_name (VTuple xs) = ''monty.Tuple''"
| "type_name (VSet xs) = ''monty.Set''"
| "type_name (VFrozenSet xs) = ''monty.FrozenSet''"
| "type_name (VDict d) = ''monty.Dict''"
| "type_name (VNamedTuple n fs xs) = ''monty.NamedTuple''"
| "type_name (VDate x) = ''monty.Date''"
| "type_name (VTime x) = ''monty.Time''"
| "type_name (VDateTime x) = ''monty.DateTime''"
| "type_name (VTimeDelta x) = ''monty.TimeDelta''"
| "type_name (VTimeZone x) = ''monty.TimeZone''"
| "type_name (VException x) = ''monty.Exception''"
| "type_name (VType s) = ''monty.Type''"
| "type_name (VInstanceType s) = ''monty.InstanceType''"
| "type_name (VBuiltinFunction s) = ''monty.BuiltinFunction''"
| "type_name (VPath s) = ''monty.Path''"
| "type_name (VFunction x) = ''monty.Function''"
| "type_name (VFileHandle x) = ''monty.FileHandle''"
| "type_name (VDataclass n i fs d fr) = ''monty.Dataclass''"
| "type_name (VRepr s) = ''monty.Repr''"
| "type_name (VCycle i p) = ''monty.Cycle''"
| "type_name (VClassType c) = ''monty.ClassType''"
| "type_name (VClassInstance c i d) = ''monty.ClassInstance''"
| "type_name (VModule m) = ''monty.Module''"
| "type_name v = ''interface {}''"

definition arena_instance :: "protowire \<Rightarrow> bytes \<Rightarrow> Value list \<Rightarrow> go_error + Value" where
  "arena_instance pw data values =
     bind_res (decodeUUID pw (decodeBytesField pw data 2)) (\<lambda>uid.
       bind_res (parse_result pw data
          (\<lambda>p (i, attrs).
             let i = (if tag p = 1 then varint p else i) in
             if tag p = 3 then set_or_fail (arenaPairs pw (bytes p) values) (\<lambda>d. (i, d)) (i, attrs)
             else ok (i, attrs)) (0, []))
         (\<lambda>(i, attrs). bind_res (arenaRef values i) (\<lambda>c.
            case c of
              VClassType ct \<Rightarrow> Inr (VClassInstance ct uid attrs)
            | _ \<Rightarrow> Inl (Errorf ''class instance references %T'' [AStr (type_name c)]))))"

text \<open>The switch on the kind of a node; \<open>values\<close> are those of the nodes before it.\<close>

definition expected_type :: "nat \<Rightarrow> wire_type" where
  "expected_type t = (if t = 4 \<or> t = 5 then VarintType else if t = 7 then Fixed64Type else BytesType)"

fun type_number :: "wire_type \<Rightarrow> nat" where
  "type_number VarintType = 0"
| "type_number Fixed64Type = 1"
| "type_number BytesType = 2"
| "type_number StartGroupType = 3"
| "type_number EndGroupType = 4"
| "type_number Fixed32Type = 5"
| "type_number (ReservedType k) = k"

text \<open>A node of the old kinds is turned back into a message for \<open>decodeValue\<close>.\<close>

definition arena_legacy :: "protowire \<Rightarrow> wire_field \<Rightarrow> go_error + Value" where
  "arena_legacy pw n =
     (case find (\<lambda>p. snd p = tag n) legacyNodeTags of
        None \<Rightarrow> Inl (Errorf ''unsupported Monty node kind %d'' [AInt (int (tag n))])
      | Some (old, _) \<Rightarrow> decodeValue pw
          (case wtype n of
             VarintType \<Rightarrow> fieldVarint pw old (varint n)
           | Fixed64Type \<Rightarrow> fieldFixed64 pw old (fixed64 n)
           | _ \<Rightarrow> fieldMessage pw old (bytes n)))"

definition arena_kind :: "protowire \<Rightarrow> Value list \<Rightarrow> wire_field \<Rightarrow> go_error + Value" where
  "arena_kind pw values n =
     (if wtype n \<noteq> expected_type (tag n) then
        Inl (Errorf ''arena node kind %d has wire type %d, want %d''
          [AInt (int (tag n)), AInt (int (type_number (wtype n))), AInt (int (type_number (expected_type (tag n))))])
      else if tag n = 11 then bind_res (arena_items pw (bytes n) 1 values) (\<lambda>items. Inr (VList items))
      else if tag n = 12 then bind_res (arena_items pw (bytes n) 1 values) (\<lambda>items. Inr (VTuple items))
      else if tag n = 15 then bind_res (arena_items pw (bytes n) 1 values) (\<lambda>items. Inr (VSet items))
      else if tag n = 16 then bind_res (arena_items pw (bytes n) 1 values) (\<lambda>items. Inr (VFrozenSet items))
      else if tag n = 14 then bind_res (arenaPairs pw (bytes n) values) (\<lambda>d. Inr (VDict d))
      else if tag n = 13 then arena_named_tuple pw (bytes n) values
      else if tag n = 18 then bind_res (arena_time pw (bytes n)) (\<lambda>x. Inr (VTime x))
      else if tag n = 23 then arena_class pw (bytes n) values
      else if tag n = 24 then arena_instance pw (bytes n) values
      else if tag n = 32 then bind_res (decodeModule pw (\<lambda>b. arenaPairs pw b values) (bytes n)) (\<lambda>m. Inr (VModule m))
      else if tag n = 30 then Inr (VCycle 0 (bytes n))
      else arena_legacy pw n)"

definition decode_node :: "protowire \<Rightarrow> Value list \<Rightarrow> bytes \<Rightarrow> go_error + Value" where
  "decode_node pw values data =
     bind_res (parse_result pw data
        (\<lambda>n (count, value).
           if 1 \<le> count then fail (Suc count, value) (Errorf ''arena node has multiple kinds'' [])
           else set_or_fail (arena_kind pw values n) (\<lambda>v. (Suc count, v)) (Suc count, value)) (0 :: nat, VNil))
       (\<lambda>(count, value). if count \<noteq> 1 then Inl (Errorf ''arena node has no kind'' []) else Inr value)"

definition decodeArena :: "protowire \<Rightarrow> bytes \<Rightarrow> go_error + Value list" where
  "decodeArena pw data = parse_result pw data
     (\<lambda>f values.
        if tag f \<noteq> 2 then ok values
        else if wtype f \<noteq> BytesType then fail values (Errorf ''arena node must be a message'' [])
        else set_or_fail (decode_node pw values (bytes f)) (\<lambda>v. values @ [v]) values) []"

definition messageArena :: "protowire \<Rightarrow> bytes \<Rightarrow> nat \<Rightarrow> go_error + Value list" where
  "messageArena pw data t = decodeArena pw (decodeBytesField pw data t)"

end
