(* ===== verification/Arena_Roundtrip.thy ===== *)
theory Arena_Roundtrip
  imports Arena
begin

text \<open>
  Adding values to an arena and decoding it gives back what the values denote, with every
  reference to an earlier node.
\<close>

context wire_format begin

section \<open>The recursion of \<open>addLegacy\<close>\<close>

lemma add_ref_cong: "add data = add' data \<Longrightarrow> add_ref pw add t data s = add_ref pw add' t data s"
  by (simp add: add_ref_def)

lemma addPairs_cong:
  assumes "\<And>b ns. length b < length data \<Longrightarrow> add b ns = add' b ns"
  shows "addPairs pw add data ns = addPairs pw add' data ns"
proof -
  have "parse_result pw b (\<lambda>p. add_ref pw add (tag p) (bytes p)) s
      = parse_result pw b (\<lambda>p. add_ref pw add' (tag p) (bytes p)) s" if "length b < length data" for b s
    unfolding parse_result_def using that assms
    by (intro arg_cong [of _ _ result_of] parseFields_cong) (simp add: add_ref_def)
  then show ?thesis
    unfolding addPairs_def parse_result_def [of _ data]
    by (intro arg_cong [of _ _ result_of] parseFields_cong) auto
qed

lemma add_body_cong:
  assumes "\<And>b ns. length b < length (bytes f) \<Longrightarrow> add b ns = add' b ns"
  shows "add_body pw add f ns = add_body pw add' f ns"
proof -
  have items: "add_items pw add (bytes f) ns = add_items pw add' (bytes f) ns"
    unfolding add_items_def parse_result_def
    by (intro arg_cong [of _ _ result_of] parseFields_cong) (auto simp: add_ref_def assms)
  have pairs: "addPairs pw add b ns = addPairs pw add' b ns" if "length b \<le> length (bytes f)" for b ns
    using that assms by (intro addPairs_cong) simp
  have tuple: "add_named_tuple pw add (bytes f) ns = add_named_tuple pw add' (bytes f) ns"
    unfolding add_named_tuple_def parse_result_def
    by (intro arg_cong [of _ _ result_of] parseFields_cong) (auto simp: add_ref_def assms)
  have modu: "add_module pw add (bytes f) ns = add_module pw add' (bytes f) ns"
    unfolding add_module_def parse_result_def
    by (intro arg_cong [of _ _ result_of] parseFields_cong) (auto simp: pairs)
  show ?thesis by (simp add: add_body_def items pairs tuple modu)
qed

lemma add_message_cong:
  assumes "\<And>b ns. length b < length data \<Longrightarrow> add b ns = add' b ns"
  shows "add_message pw add data ns = add_message pw add' data ns"
proof -
  have "add_body pw add f ns = add_body pw add' f ns" if "length (bytes f) < length data" for f ns
    using that assms by (intro add_body_cong) simp
  then have "parse_result pw data (add_field pw add) s = parse_result pw data (add_field pw add') s" for s
    unfolding parse_result_def
    by (intro arg_cong [of _ _ result_of] parseFields_cong) (simp add: add_field_def split: option.split)
  then show ?thesis by (simp add: add_message_def)
qed

lemma add_legacy_fuel:
  "length data < n \<Longrightarrow> length data < m \<Longrightarrow> add_legacy pw n data ns = add_legacy pw m data ns"
proof (induction data arbitrary: n m ns rule: length_induct)
  case (1 data)
  obtain n' m' where nm: "n = Suc n'" "m = Suc m'" using "1.prems" by (cases n; cases m) auto
  have "add_legacy pw n' b ns = add_legacy pw m' b ns" if "length b < length data" for b ns
    using that "1.prems" nm by (intro "1.IH" [rule_format]) simp_all
  then show ?case unfolding nm add_legacy.simps by (rule add_message_cong)
qed

lemma addLegacy_unfold: "addLegacy pw data ns = add_message pw (addLegacy pw) data ns"
proof -
  have "add_legacy pw (length data) b ns = addLegacy pw b ns" if "length b < length data" for b ns
    unfolding addLegacy_def using that by (intro add_legacy_fuel) simp_all
  then have "add_message pw (add_legacy pw (length data)) data ns = add_message pw (addLegacy pw) data ns"
    by (rule add_message_cong)
  then show ?thesis by (simp add: addLegacy_def)
qed

end

section \<open>Nodes in order\<close>

fun decode_nodes :: "protowire \<Rightarrow> Value list \<Rightarrow> nodes \<Rightarrow> go_error + Value list" where
  "decode_nodes pw vals [] = Inr vals"
| "decode_nodes pw vals (n # ns) = bind_res (decode_node pw vals n) (\<lambda>v. decode_nodes pw (vals @ [v]) ns)"

lemma decode_nodes_append:
  "decode_nodes pw vals (ns @ ms) = bind_res (decode_nodes pw vals ns) (\<lambda>vs. decode_nodes pw vs ms)"
proof (induction ns arbitrary: vals)
  case (Cons n ns)
  then show ?case by (cases "decode_node pw vals n") simp_all
qed simp

lemma decode_nodes_length: "decode_nodes pw vals ns = Inr vs \<Longrightarrow> length vs = length vals + length ns"
  by (induction ns arbitrary: vals) (auto simp: bind_res_eq_Inr)

text \<open>
  What the nodes so far stand for, and what an index stands for.  Beyond \<open>2 ^ 32\<close> nodes the
  \<open>uint32\<close> index of the code wraps and nothing is claimed.
\<close>

definition holds :: "protowire \<Rightarrow> nodes \<Rightarrow> Value list \<Rightarrow> bool" where
  "holds pw ns vals \<longleftrightarrow> (length ns \<le> 2 ^ 32 \<longrightarrow> decode_nodes pw [] ns = Inr vals)"

definition refers :: "nodes \<Rightarrow> Value list \<Rightarrow> uint32 \<Rightarrow> Value \<Rightarrow> bool" where
  "refers ns vals i w \<longleftrightarrow> (length ns \<le> 2 ^ 32 \<longrightarrow> unat i < length vals \<and> vals ! unat i = w)"

lemma refers_mono: "refers ns vals i w \<Longrightarrow> refers (ns @ new) (vals @ extra) i w"
  by (auto simp: refers_def nth_append)

lemma unat_ucast_32_64: "unat (ucast (i :: uint32) :: uint64) = unat i"
proof -
  have "unat i < 2 ^ 64" by (rule order.strict_trans2 [OF unsigned_less]) simp
  then show ?thesis by (simp add: unsigned_ucast_eq take_bit_nat_eq_self)
qed

lemma arenaRef_refers: "refers ns vals i w \<Longrightarrow> length ns \<le> 2 ^ 32 \<Longrightarrow> arenaRef vals (ucast i) = Inr w"
  by (simp add: refers_def arenaRef_def unat_ucast_32_64)

text \<open>What adding the message of a value does.\<close>

definition adds :: "protowire \<Rightarrow> bytes \<Rightarrow> Value \<Rightarrow> bool" where
  "adds pw b w \<longleftrightarrow> (\<forall>ns vals. holds pw ns vals \<longrightarrow>
     (\<exists>i new extra. addLegacy pw b ns = Inr (i, ns @ new) \<and> holds pw (ns @ new) (vals @ extra)
        \<and> refers (ns @ new) (vals @ extra) i w))"

text \<open>A finished node: its own value follows those of the nodes before it.\<close>

lemma holds_node:
  assumes "holds pw ns vals" and "length ns < 2 ^ 32 \<Longrightarrow> decode_node pw vals node = Inr w"
  shows "holds pw (ns @ [node]) (vals @ [w]) \<and> refers (ns @ [node]) (vals @ [w]) (of_nat (length ns)) w"
proof -
  have "unat (of_nat (length ns) :: uint32) = length ns" if "length ns < 2 ^ 32"
    using that by (simp add: unat_of_nat)
  then show ?thesis
    using assms decode_nodes_length [of pw "[]" ns vals]
    by (auto simp: holds_def refers_def decode_nodes_append nth_append)
qed

section \<open>References\<close>

context wire_format begin

text \<open>Adding a list of messages, each followed by a reference in the body.\<close>

lemma add_ref_adds:
  assumes "adds pw b w" and "holds pw ns vals"
  shows "\<exists>i new extra. add_ref pw (addLegacy pw) t b (ns, body) = ok (ns @ new, body @ fieldVarint pw t (ucast i))
    \<and> holds pw (ns @ new) (vals @ extra) \<and> refers (ns @ new) (vals @ extra) i w"
proof -
  from assms obtain i new extra where "addLegacy pw b ns = Inr (i, ns @ new)"
    "holds pw (ns @ new) (vals @ extra)" "refers (ns @ new) (vals @ extra) i w"
    unfolding adds_def by blast
  then show ?thesis
    by (intro exI [of _ i] exI [of _ new] exI [of _ extra]) (simp add: add_ref_def)
qed

abbreviation refs :: "nat \<Rightarrow> uint32 list \<Rightarrow> bytes" where
  "refs t is \<equiv> concat (map (\<lambda>i. fieldVarint pw t (ucast i)) is)"

lemma refers_list_mono:
  "list_all2 (refers ns vals) is ws \<Longrightarrow> list_all2 (refers (ns @ new) (vals @ extra)) is ws"
  by (erule list_all2_mono) (rule refers_mono)

lemma add_refs:
  assumes "list_all2 (adds pw) bs ws" and "holds pw ns vals"
  shows "\<exists>is new extra. fold_res (\<lambda>b. add_ref pw (addLegacy pw) t b) bs (ns, body) = ok (ns @ new, body @ refs t is)
    \<and> holds pw (ns @ new) (vals @ extra) \<and> list_all2 (refers (ns @ new) (vals @ extra)) is ws"
  using assms
proof (induction bs ws arbitrary: ns vals body rule: list_all2_induct)
  case Nil
  then show ?case by (intro exI [of _ "[]"]) simp
next
  case (Cons b bs w ws)
  from add_ref_adds [OF Cons.hyps(1) Cons.prems, of t body] obtain i new extra where
    i: "add_ref pw (addLegacy pw) t b (ns, body) = ok (ns @ new, body @ fieldVarint pw t (ucast i))"
    "holds pw (ns @ new) (vals @ extra)" "refers (ns @ new) (vals @ extra) i w" by blast
  from Cons.IH [OF i(2), of "body @ fieldVarint pw t (ucast i)"] obtain "is" new' extra' where
    r: "fold_res (\<lambda>b. add_ref pw (addLegacy pw) t b) bs (ns @ new, body @ fieldVarint pw t (ucast i))
        = ok ((ns @ new) @ new', (body @ fieldVarint pw t (ucast i)) @ refs t is)"
    "holds pw ((ns @ new) @ new') ((vals @ extra) @ extra')"
    "list_all2 (refers ((ns @ new) @ new') ((vals @ extra) @ extra')) is ws" by blast
  have "list_all2 (refers ((ns @ new) @ new') ((vals @ extra) @ extra')) (i # is) (w # ws)"
    using r(3) refers_mono [OF i(3), of new' extra'] by simp
  with i(1) r(1,2) show ?case
    by (intro exI [of _ "i # is"] exI [of _ "new @ new'"] exI [of _ "extra @ extra'"]) simp
qed

text \<open>Reading the references back.\<close>

lemma indexes_refs:
  "valid_tag t \<Longrightarrow> parseFields pw (refs t is @ rest) (index_field pw t) out
     = parseFields pw rest (index_field pw t) (out @ map ucast is)"
  by (induction "is" arbitrary: out) (simp_all add: wire_simps index_field_def varint_field_def)

lemma map_arenaRef:
  "list_all2 (refers ns vals) is ws \<Longrightarrow> length ns \<le> 2 ^ 32 \<Longrightarrow> map_res (arenaRef vals) (map ucast is) = Inr ws"
  by (induction rule: list_all2_induct) (simp_all add: arenaRef_refers)

lemma arena_items_refs:
  assumes "list_all2 (refers ns vals) is ws" and "length ns \<le> 2 ^ 32" and "valid_tag t"
  shows "arena_items pw (refs t is) t vals = Inr ws"
  using indexes_refs [OF assms(3), of "is" "[]" "[]"] map_arenaRef [OF assms(1,2)]
  by (simp add: arena_items_def indexes_def parse_result_def)

section \<open>Pairs\<close>

lemma addPairs_repeated:
  assumes "list_all2 (\<lambda>b q. \<exists>k v. b = fieldMessage pw 1 k @ fieldMessage pw 2 v \<and> adds pw k (fst q) \<and> adds pw v (snd q)) bs e"
    and "holds pw ns vals"
  shows "\<exists>new extra ijs. addPairs pw (addLegacy pw) (repeated pw 1 bs) ns
      = Inr (ns @ new, repeated pw 1 (map (\<lambda>(i, j). fieldVarint pw 1 (ucast i) @ fieldVarint pw 2 (ucast j)) ijs))
    \<and> holds pw (ns @ new) (vals @ extra)
    \<and> list_all2 (\<lambda>(i, j) q. refers (ns @ new) (vals @ extra) i (fst q) \<and> refers (ns @ new) (vals @ extra) j (snd q)) ijs e"
proof -
  let ?fn = "\<lambda>c (ns, body).
        if tag c \<noteq> 1 then ok (ns, body)
        else set_or_fail
          (parse_result pw (bytes c) (\<lambda>p. add_ref pw (addLegacy pw) (tag p) (bytes p)) (ns, []))
          (\<lambda>(ns', pair). (ns', body @ fieldMessage pw 1 pair)) (ns, body)"
  let ?pair = "\<lambda>(i, j). fieldVarint pw 1 (ucast i) @ fieldVarint pw 2 (ucast j)"
  let ?ref = "\<lambda>ns vals (i, j) q. refers ns vals i (fst q) \<and> refers ns vals j (snd q)"
  have "\<exists>new extra ijs. parseFields pw (repeated pw 1 bs) ?fn (ns, body) = ok (ns @ new, body @ repeated pw 1 (map ?pair ijs))
    \<and> holds pw (ns @ new) (vals @ extra) \<and> list_all2 (?ref (ns @ new) (vals @ extra)) ijs e" for body
    using assms
  proof (induction bs e arbitrary: ns vals body rule: list_all2_induct)
    case Nil
    then show ?case by (intro exI [of _ "[]"]) simp
  next
    case (Cons b bs q e)
    from Cons.hyps(1) obtain k v where b: "b = fieldMessage pw 1 k @ fieldMessage pw 2 v"
      and kv: "adds pw k (fst q)" "adds pw v (snd q)" by blast
    from add_ref_adds [OF kv(1) Cons.prems, of 1 "[]"] obtain i new extra where
      i: "add_ref pw (addLegacy pw) 1 k (ns, []) = ok (ns @ new, fieldVarint pw 1 (ucast i))"
      "holds pw (ns @ new) (vals @ extra)" "refers (ns @ new) (vals @ extra) i (fst q)" by auto
    from add_ref_adds [OF kv(2) i(2), of 2 "fieldVarint pw 1 (ucast i)"] obtain j new2 extra2 where
      j: "add_ref pw (addLegacy pw) 2 v (ns @ new, fieldVarint pw 1 (ucast i))
          = ok ((ns @ new) @ new2, fieldVarint pw 1 (ucast i) @ fieldVarint pw 2 (ucast j))"
      "holds pw ((ns @ new) @ new2) ((vals @ extra) @ extra2)"
      "refers ((ns @ new) @ new2) ((vals @ extra) @ extra2) j (snd q)" by blast
    have pair: "parse_result pw b (\<lambda>p. add_ref pw (addLegacy pw) (tag p) (bytes p)) (ns, [])
        = Inr ((ns @ new) @ new2, ?pair (i, j))"
      by (simp add: b parse_result_def fieldMessage_def bytes_field_def wire_simps valid_tag_def
        i(1) j(1) del: One_nat_def append_assoc)
    from Cons.IH [OF j(2), of "body @ fieldMessage pw 1 (?pair (i, j))"] obtain new3 extra3 ijs where
      r: "parseFields pw (repeated pw 1 bs) ?fn ((ns @ new) @ new2, body @ fieldMessage pw 1 (?pair (i, j)))
        = ok (((ns @ new) @ new2) @ new3, (body @ fieldMessage pw 1 (?pair (i, j))) @ repeated pw 1 (map ?pair ijs))"
      "holds pw (((ns @ new) @ new2) @ new3) (((vals @ extra) @ extra2) @ extra3)"
      "list_all2 (?ref (((ns @ new) @ new2) @ new3) (((vals @ extra) @ extra2) @ extra3)) ijs e" by blast
    have "parseFields pw (repeated pw 1 (b # bs)) ?fn (ns, body)
        = parseFields pw (repeated pw 1 bs) ?fn ((ns @ new) @ new2, body @ fieldMessage pw 1 (?pair (i, j)))"
      by (simp add: fieldMessage_def [of _ _ b] bytes_field_def wire_simps valid_tag_def pair del: One_nat_def append_assoc)
    moreover have "?ref (((ns @ new) @ new2) @ new3) (((vals @ extra) @ extra2) @ extra3) (i, j) q"
      using refers_mono [OF refers_mono [OF i(3), of new2 extra2], of new3 extra3]
        refers_mono [OF j(3), of new3 extra3] by simp
    ultimately show ?case
      using r by (intro exI [of _ "new @ new2 @ new3"] exI [of _ "extra @ extra2 @ extra3"] exI [of _ "(i, j) # ijs"])
        (simp del: One_nat_def)
  qed
  from this [of "[]"] obtain new extra ijs where
    r: "parseFields pw (repeated pw 1 bs) ?fn (ns, []) = ok (ns @ new, [] @ repeated pw 1 (map ?pair ijs))"
    "holds pw (ns @ new) (vals @ extra)" "list_all2 (?ref (ns @ new) (vals @ extra)) ijs e" by blast
  have "addPairs pw (addLegacy pw) (repeated pw 1 bs) ns = Inr (ns @ new, repeated pw 1 (map ?pair ijs))"
    by (simp only: addPairs_def parse_result_def [of pw "repeated pw 1 bs"] r(1) result_of_ok append_Nil)
  with r(2,3) show ?thesis by blast
qed

lemma arenaPairs_repeated:
  assumes "list_all2 (\<lambda>(i, j) q. refers ns vals i (fst q) \<and> refers ns vals j (snd q)) ijs e" and "length ns \<le> 2 ^ 32"
  shows "arenaPairs pw (repeated pw 1 (map (\<lambda>(i, j). fieldVarint pw 1 (ucast i) @ fieldVarint pw 2 (ucast j)) ijs)) vals = Inr e"
proof -
  let ?pair = "\<lambda>(i, j). fieldVarint pw 1 (ucast i) @ fieldVarint pw 2 (ucast j)"
  let ?fn = "\<lambda>f d. if tag f \<noteq> 1 then ok d
        else set_or_fail
          (bind_res (parse_result pw (bytes f)
             (\<lambda>p (k, v). ok (if tag p = 1 then varint p else k, if tag p = 2 then varint p else v)) (0, 0))
           (\<lambda>(k, v). bind_res (arenaRef vals k) (\<lambda>key. bind_res (arenaRef vals v) (\<lambda>val. Inr (key, val)))))
          (\<lambda>p. d @ [p]) d"
  have "parseFields pw (repeated pw 1 (map ?pair ijs)) ?fn d = ok (d @ e)" for d
    using assms(1)
  proof (induction ijs e arbitrary: d rule: list_all2_induct)
    case (Cons ij ijs q e)
    obtain i j where ij: "ij = (i, j)" by (rule prod.exhaust)
    with Cons.hyps(1) assms(2) have "arenaRef vals (ucast i) = Inr (fst q)" "arenaRef vals (ucast j) = Inr (snd q)"
      by (auto intro: arenaRef_refers)
    with Cons.IH show ?case
      by (simp add: ij fieldMessage_def bytes_field_def varint_field_def wire_simps valid_tag_def parse_result_def)
  qed simp
  from this [of "[]"] show ?thesis by (simp add: arenaPairs_def parse_result_def)
qed

section \<open>One node\<close>

lemma field_sel:
  "tag (bytes_field t x) = t" "bytes (bytes_field t x) = x" "wtype (bytes_field t x) = BytesType"
  "tag (varint_field t v) = t" "varint (varint_field t v) = v" "wtype (varint_field t v) = VarintType"
  by (simp_all add: bytes_field_def varint_field_def)

lemma legacy_tag: "leaf_kind i \<or> item_tag i \<in> {11, 12, 13, 14, 15, 16, 18, 23, 32} \<Longrightarrow>
    map_of legacyNodeTags (item_tag i) = Some (item_tag i) \<and> valid_tag (item_tag i)"
  by (cases i) (auto simp: legacyNodeTags_def valid_tag_def)

text \<open>A message of one bytes field, given what its body becomes.\<close>

lemma addLegacy_bytes:
  assumes "map_of legacyNodeTags t = Some t" and "valid_tag t"
    and "add_body pw (addLegacy pw) (bytes_field t x) ns = Inr (ns', body)"
  shows "addLegacy pw (fieldMessage pw t x) ns = Inr (of_nat (length ns'), ns' @ [fieldMessage pw t body])"
  unfolding fieldMessage_def [of _ _ x]
  by (subst addLegacy_unfold) (use assms in \<open>simp add: add_message_def parse_result_def wire_simps add_field_def
    bytes_field_def\<close>)

lemma addsI:
  assumes "\<And>ns vals. holds pw ns vals \<Longrightarrow> \<exists>new extra node. addLegacy pw b ns = Inr (of_nat (length (ns @ new)), (ns @ new) @ [node])
    \<and> holds pw (ns @ new) (vals @ extra)
    \<and> (length (ns @ new) < 2 ^ 32 \<longrightarrow> decode_node pw (vals @ extra) node = Inr w)"
  shows "adds pw b w"
  unfolding adds_def
proof (intro allI impI)
  fix ns vals
  assume "holds pw ns vals"
  from assms [OF this] obtain new extra node where
    a: "addLegacy pw b ns = Inr (of_nat (length (ns @ new)), (ns @ new) @ [node])" "holds pw (ns @ new) (vals @ extra)"
    "length (ns @ new) < 2 ^ 32 \<longrightarrow> decode_node pw (vals @ extra) node = Inr w" by blast
  from holds_node [OF a(2), of node w] a(1,3)
  show "\<exists>i new extra. addLegacy pw b ns = Inr (i, ns @ new) \<and> holds pw (ns @ new) (vals @ extra)
      \<and> refers (ns @ new) (vals @ extra) i w"
    by (intro exI [of _ "of_nat (length (ns @ new))"] exI [of _ "new @ [node]"] exI [of _ "extra @ [w]"]) simp
qed

lemma decode_node_field:
  assumes "valid_tag t"
  shows "decode_node pw vals (fieldVarint pw t v) = arena_kind pw vals (varint_field t v)"
    and "decode_node pw vals (fieldFixed64 pw t v) = arena_kind pw vals (fixed64_field t v)"
    and "decode_node pw vals (fieldBytes pw t x) = arena_kind pw vals (bytes_field t x)"
  using assms
  by (simp_all add: decode_node_def parse_result_def wire_simps set_or_fail_def result_of_def split: sum.split)

lemma add_items_repeated:
  assumes "list_all2 (adds pw) bs ws" and "holds pw ns vals"
  shows "\<exists>is new extra. add_items pw (addLegacy pw) (repeated pw 1 bs) ns = Inr (ns @ new, refs 1 is)
    \<and> holds pw (ns @ new) (vals @ extra) \<and> list_all2 (refers (ns @ new) (vals @ extra)) is ws"
proof -
  from add_refs [OF assms, of 1 "[]"] obtain "is" new extra where
    r: "fold_res (\<lambda>b. add_ref pw (addLegacy pw) 1 b) bs (ns, []) = ok (ns @ new, [] @ refs 1 is)"
    "holds pw (ns @ new) (vals @ extra)" "list_all2 (refers (ns @ new) (vals @ extra)) is ws" by blast
  have "add_items pw (addLegacy pw) (repeated pw 1 bs) ns = Inr (ns @ new, refs 1 is)"
    using parse_field_list [of 1 "\<lambda>x. x" bs "[]" "\<lambda>c s. if tag c \<noteq> 1 then ok s else add_ref pw (addLegacy pw) 1 (bytes c) s"] r(1)
    by (simp add: add_items_def parse_result_def fieldMessage_def [abs_def] bytes_field_def valid_tag_def del: One_nat_def)
  with r(2,3) show ?thesis by blast
qed

lemma adds_container:
  assumes "list_all2 (adds pw) bs ws" and "t \<in> {11, 12, 15, 16}"
    and "\<And>vals body. arena_items pw body 1 vals = Inr ws \<Longrightarrow> arena_kind pw vals (bytes_field t body) = Inr (C ws)"
  shows "adds pw (fieldMessage pw t (repeated pw 1 bs)) (C ws)"
proof (rule addsI)
  fix ns vals
  assume "holds pw ns vals"
  from add_items_repeated [OF assms(1) this] obtain "is" new extra where
    r: "add_items pw (addLegacy pw) (repeated pw 1 bs) ns = Inr (ns @ new, refs 1 is)"
    "holds pw (ns @ new) (vals @ extra)" "list_all2 (refers (ns @ new) (vals @ extra)) is ws" by blast
  have t: "map_of legacyNodeTags t = Some t" "valid_tag t"
    using legacy_tag [of "BytesItem t []"] assms(2) by auto
  have "addLegacy pw (fieldMessage pw t (repeated pw 1 bs)) ns
      = Inr (of_nat (length (ns @ new)), (ns @ new) @ [fieldMessage pw t (refs 1 is)])"
    using r(1) assms(2) by (intro addLegacy_bytes t) (auto simp: add_body_def bytes_field_def)
  moreover have "decode_node pw (vals @ extra) (fieldMessage pw t (refs 1 is)) = Inr (C ws)" if "length (ns @ new) < 2 ^ 32"
    using arena_items_refs [OF r(3), of 1] that assms(3) t(2)
    by (simp add: fieldMessage_def decode_node_field valid_tag_def del: One_nat_def)
  ultimately show "\<exists>new extra node. addLegacy pw (fieldMessage pw t (repeated pw 1 bs)) ns
      = Inr (of_nat (length (ns @ new)), (ns @ new) @ [node]) \<and> holds pw (ns @ new) (vals @ extra)
      \<and> (length (ns @ new) < 2 ^ 32 \<longrightarrow> decode_node pw (vals @ extra) node = Inr (C ws))"
    using r(2) by blast
qed

lemma adds_bytes_leaf:
  assumes "t \<in> {1, 2, 3, 6, 8, 9, 17, 18, 19, 20, 21, 22, 23, 25, 26, 27, 28, 31}"
    and "\<And>vals. arena_kind pw vals (bytes_field t x) = Inr w"
  shows "adds pw (fieldBytes pw t x) w"
proof (rule addsI)
  fix ns vals
  assume "holds pw ns vals"
  have t: "map_of legacyNodeTags t = Some t" "valid_tag t"
    using legacy_tag [of "BytesItem t []"] assms(1) by auto
  have "addLegacy pw (fieldMessage pw t x) ns = Inr (of_nat (length (ns @ [])), (ns @ []) @ [fieldMessage pw t x])"
    unfolding append_Nil2 using assms(1) by (intro addLegacy_bytes t) (auto simp: add_body_def bytes_field_def)
  moreover have "decode_node pw (vals @ []) (fieldMessage pw t x) = Inr w"
    using t(2) assms(2) by (simp add: fieldMessage_def decode_node_field)
  ultimately show "\<exists>new extra node. addLegacy pw (fieldBytes pw t x) ns
      = Inr (of_nat (length (ns @ new)), (ns @ new) @ [node]) \<and> holds pw (ns @ new) (vals @ extra)
      \<and> (length (ns @ new) < 2 ^ 32 \<longrightarrow> decode_node pw (vals @ extra) node = Inr w)"
    using \<open>holds pw ns vals\<close> unfolding fieldMessage_def by (intro exI [of _ "[]"] exI [of _ "fieldBytes pw t x"]) simp
qed

lemma adds_scalar:
  assumes "map_of legacyNodeTags t = Some t" and "valid_tag t" and "t \<notin> {11, 12, 13, 14, 15, 16, 32}"
    and "b = fieldVarint pw t v \<and> f = varint_field t v \<or> b = fieldFixed64 pw t v \<and> f = fixed64_field t v"
    and "\<And>vals. arena_kind pw vals f = Inr w"
  shows "adds pw b w"
proof (rule addsI)
  fix ns vals
  assume "holds pw ns vals"
  have "addLegacy pw b ns = Inr (of_nat (length ns), ns @ [b])"
    using assms(1-4)
    by (subst addLegacy_unfold) (auto simp: add_message_def parse_result_def wire_simps add_field_def add_body_def
      varint_field_def fixed64_field_def)
  moreover have "decode_node pw (vals @ []) b = Inr w"
    using assms(2,4,5) by (auto simp: decode_node_field)
  ultimately show "\<exists>new extra node. addLegacy pw b ns
      = Inr (of_nat (length (ns @ new)), (ns @ new) @ [node]) \<and> holds pw (ns @ new) (vals @ extra)
      \<and> (length (ns @ new) < 2 ^ 32 \<longrightarrow> decode_node pw (vals @ extra) node = Inr w)"
    using \<open>holds pw ns vals\<close> by (intro exI [of _ "[]"] exI [of _ b]) simp
qed

lemma adds_leaf:
  assumes "leaf_kind i" and "decodeValue pw (put_item pw i) = Inr w"
  shows "adds pw (put_item pw i) w"
proof (cases i)
  case (VarintItem t v)
  with assms legacy_tag [of i] show ?thesis
    by (intro adds_scalar [of t _ v "varint_field t v"])
      (auto simp: arena_kind_def arena_legacy_def expected_type_def varint_field_def legacyNodeTags_def)
next
  case (Fixed64Item t v)
  with assms legacy_tag [of i] show ?thesis
    by (intro adds_scalar [of t _ v "fixed64_field t v"])
      (auto simp: arena_kind_def arena_legacy_def expected_type_def fixed64_field_def legacyNodeTags_def)
next
  case (BytesItem t x)
  with assms have "adds pw (fieldBytes pw t x) w"
    by (intro adds_bytes_leaf)
      (auto simp: arena_kind_def arena_legacy_def expected_type_def bytes_field_def legacyNodeTags_def fieldMessage_def)
  with BytesItem show ?thesis by simp
qed

lemma adds_time: "adds pw (fieldMessage pw 18 (encodeTime pw x)) (VTime (norm_time x))"
proof -
  have "arena_time pw (encodeTime pw x) = Inr (norm_time x)"
    by (cases "t_OffsetSeconds x"; cases "t_TimezoneName x")
      (simp_all add: arena_time_def encodeTime_def norm_time_def parse_result_def leaf_parse)
  then show ?thesis
    unfolding fieldMessage_def
    by (intro adds_bytes_leaf) (simp_all add: arena_kind_def expected_type_def bytes_field_def)
qed

lemma adds_type: "adds pw (fieldMessage pw 23 (fieldString pw 1 s @ fieldVarint pw 3 1)) (VType s)"
proof -
  have "arena_class pw (fieldString pw 1 s @ fieldVarint pw 3 1) vals = Inr (VType s)" for vals
    by (simp add: arena_class_def parse_result_def leaf_parse decodeStringField_def valid_origin_def
      TypeOriginBuiltin_def TypeOriginHost_def)
  then show ?thesis
    unfolding fieldMessage_def
    by (intro adds_bytes_leaf) (simp_all add: arena_kind_def expected_type_def bytes_field_def del: One_nat_def)
qed

text \<open>The messages whose body is built from references: one lemma for their common end.\<close>

lemma adds_body:
  assumes "t \<in> {13, 14, 32}"
    and "\<And>ns vals. holds pw ns vals \<Longrightarrow> \<exists>new extra body. add_body pw (addLegacy pw) (bytes_field t x) ns = Inr (ns @ new, body)
      \<and> holds pw (ns @ new) (vals @ extra)
      \<and> (length (ns @ new) < 2 ^ 32 \<longrightarrow> arena_kind pw (vals @ extra) (bytes_field t body) = Inr w)"
  shows "adds pw (fieldMessage pw t x) w"
proof (rule addsI)
  fix ns vals
  assume "holds pw ns vals"
  from assms(2) [OF this] obtain new extra body where
    r: "add_body pw (addLegacy pw) (bytes_field t x) ns = Inr (ns @ new, body)"
    "holds pw (ns @ new) (vals @ extra)"
    "length (ns @ new) < 2 ^ 32 \<longrightarrow> arena_kind pw (vals @ extra) (bytes_field t body) = Inr w" by blast
  have t: "map_of legacyNodeTags t = Some t" "valid_tag t"
    using legacy_tag [of "BytesItem t []"] assms(1) by auto
  show "\<exists>new extra node. addLegacy pw (fieldMessage pw t x) ns
      = Inr (of_nat (length (ns @ new)), (ns @ new) @ [node]) \<and> holds pw (ns @ new) (vals @ extra)
      \<and> (length (ns @ new) < 2 ^ 32 \<longrightarrow> decode_node pw (vals @ extra) node = Inr w)"
    using addLegacy_bytes [OF t r(1)] r(2,3) decode_node_field(3) [OF t(2)]
    by (intro exI [of _ new] exI [of _ extra] exI [of _ "fieldMessage pw t body"]) (simp add: fieldMessage_def)
qed

abbreviation pair_adds :: "bytes \<Rightarrow> Value \<times> Value \<Rightarrow> bool" where
  "pair_adds b q \<equiv> \<exists>k v. b = fieldMessage pw 1 k @ fieldMessage pw 2 v \<and> adds pw k (fst q) \<and> adds pw v (snd q)"

lemma addPairs_written:
  assumes "list_all2 pair_adds bs e" and "holds pw ns vals"
  shows "\<exists>new extra body. addPairs pw (addLegacy pw) (repeated pw 1 bs) ns = Inr (ns @ new, body)
    \<and> holds pw (ns @ new) (vals @ extra)
    \<and> (length (ns @ new) \<le> 2 ^ 32 \<longrightarrow> arenaPairs pw body (vals @ extra) = Inr e)"
  using addPairs_repeated [OF assms] arenaPairs_repeated by blast

lemma adds_dict:
  assumes "list_all2 pair_adds bs e"
  shows "adds pw (fieldMessage pw 14 (repeated pw 1 bs)) (VDict e)"
proof (rule adds_body)
  fix ns vals
  assume "holds pw ns vals"
  from addPairs_written [OF assms this] obtain new extra body where
    r: "addPairs pw (addLegacy pw) (repeated pw 1 bs) ns = Inr (ns @ new, body)" "holds pw (ns @ new) (vals @ extra)"
    "length (ns @ new) \<le> 2 ^ 32 \<longrightarrow> arenaPairs pw body (vals @ extra) = Inr e"
    by blast
  show "\<exists>new extra body. add_body pw (addLegacy pw) (bytes_field 14 (repeated pw 1 bs)) ns = Inr (ns @ new, body)
      \<and> holds pw (ns @ new) (vals @ extra)
      \<and> (length (ns @ new) < 2 ^ 32 \<longrightarrow> arena_kind pw (vals @ extra) (bytes_field 14 body) = Inr (VDict e))"
    using r by (intro exI [of _ new] exI [of _ extra] exI [of _ body])
      (simp add: add_body_def arena_kind_def expected_type_def bytes_field_def del: One_nat_def)
qed simp

lemma adds_module:
  assumes "list_all2 pair_adds bs e"
  shows "adds pw (fieldMessage pw 32 (fieldString pw 1 n @ fieldMessage pw 2 (fieldBytes pw 1 (uuid_bytes u))
      @ fieldMessage pw 3 (repeated pw 1 bs))) (VModule (Module n u e))" (is "adds pw (fieldMessage pw 32 ?x) _")
proof (rule adds_body)
  fix ns vals
  assume "holds pw ns vals"
  from addPairs_written [OF assms this] obtain new extra body where
    r: "addPairs pw (addLegacy pw) (repeated pw 1 bs) ns = Inr (ns @ new, body)" "holds pw (ns @ new) (vals @ extra)"
    "length (ns @ new) \<le> 2 ^ 32 \<longrightarrow> arenaPairs pw body (vals @ extra) = Inr e"
    by blast
  have body: "add_body pw (addLegacy pw) (bytes_field 32 ?x) ns = Inr (ns @ new, fieldString pw 1 n
      @ fieldMessage pw 2 (fieldBytes pw 1 (uuid_bytes u)) @ fieldMessage pw 3 body)"
    by (simp add: add_body_def add_module_def parse_result_def fieldString_def
      fieldMessage_def wire_simps valid_tag_def bytes_field_def r(1) del: One_nat_def)
  then show "\<exists>new extra body. add_body pw (addLegacy pw) (bytes_field 32 ?x) ns = Inr (ns @ new, body)
      \<and> holds pw (ns @ new) (vals @ extra)
      \<and> (length (ns @ new) < 2 ^ 32 \<longrightarrow> arena_kind pw (vals @ extra) (bytes_field 32 body) = Inr (VModule (Module n u e)))"
    using r decodeModule_fields [of "\<lambda>b. arenaPairs pw b (vals @ extra)" body e n u]
    by (intro exI [of _ new] exI [of _ extra] exI [of _ "fieldString pw 1 n
        @ fieldMessage pw 2 (fieldBytes pw 1 (uuid_bytes u)) @ fieldMessage pw 3 body"])
      (simp add: arena_kind_def expected_type_def field_sel del: One_nat_def)
qed simp

lemma parse_tuple_names:
  "parseFields pw (concat (map (fieldBytes pw 2) names) @ rest)
     (\<lambda>c (ns, body). if tag c = 3 then add_ref pw (addLegacy pw) 3 (bytes c) (ns, body)
        else ok (ns, body @ fieldBytes pw (tag c) (bytes c))) (ns, body)
   = parseFields pw rest
     (\<lambda>c (ns, body). if tag c = 3 then add_ref pw (addLegacy pw) 3 (bytes c) (ns, body)
        else ok (ns, body @ fieldBytes pw (tag c) (bytes c))) (ns, body @ concat (map (fieldBytes pw 2) names))"
  by (induction names arbitrary: body) (simp_all add: wire_simps bytes_field_def valid_tag_def)

lemma fold_names:
  "fold_res (\<lambda>p names. ok (if tag p = 2 then names @ [bytes p] else names)) (map (bytes_field 2) xs) acc = ok (acc @ xs)"
  "fold_res (\<lambda>p names. ok (if tag p = 2 then names @ [bytes p] else names)) (map (\<lambda>i. varint_field 3 (g i)) is) acc
    = ok acc"
  by (induction xs arbitrary: acc, simp_all add: field_sel, induction "is" arbitrary: acc) (simp_all add: field_sel)

lemma fold_indexes:
  "fold_res (index_field pw 3) (map (bytes_field 2) xs) acc' = ok acc'"
  "fold_res (index_field pw 3) (map (\<lambda>i. varint_field 3 (g i)) is) acc = ok (acc @ map g is)"
  by (induction xs, simp_all add: field_sel index_field_def, induction "is" arbitrary: acc)
    (simp_all add: field_sel index_field_def)

lemma fold_string:
  "fold_res (\<lambda>f s. ok (if tag f = Suc 0 then bytes f else s)) (map (bytes_field 2) xs) acc = ok acc"
  "fold_res (\<lambda>f s. ok (if tag f = Suc 0 then bytes f else s)) (map (\<lambda>i. varint_field 3 (g i)) is) acc = ok acc"
  by (induction xs, simp_all add: field_sel, induction "is") (simp_all add: field_sel)

lemma arena_named_tuple_refs:
  assumes "list_all2 (refers ns vals) is ws" and "length ns \<le> 2 ^ 32"
  shows "arena_named_tuple pw ((fieldBytes pw 1 n @ concat (map (fieldBytes pw 2) names)) @ refs 3 is) vals
    = Inr (VNamedTuple n names ws)"
proof -
  define items where "items = BytesItem 1 n # map (BytesItem 2) names @ map (\<lambda>i. VarintItem 3 (ucast i)) is"
  have body: "(fieldBytes pw 1 n @ concat (map (fieldBytes pw 2) names)) @ refs 3 is = concat (map (put_item pw) items)"
    by (simp add: items_def comp_def)
  have valid: "\<forall>i \<in> set items. valid_tag (item_tag i)"
    by (auto simp: items_def valid_tag_def)
  have fields: "map item_field items = bytes_field 1 n # map (bytes_field 2) names @ map (\<lambda>i. varint_field 3 (ucast i)) is"
    by (simp add: items_def comp_def)
  have "fold_res (\<lambda>p names. ok (if tag p = 2 then names @ [bytes p] else names)) (map item_field items) []
    = (names, None :: go_error option)"
    by (simp add: fields fold_res_append fold_names field_sel)
  moreover have "fold_res (index_field pw 3) (map item_field items) [] = ok (map ucast is)"
    by (simp add: fields fold_res_append fold_indexes) (simp add: index_field_def field_sel)
  moreover have "fold_res (\<lambda>f s. ok (if tag f = Suc 0 then bytes f else s)) (map item_field items) []
    = (n, None :: go_error option)"
    by (simp add: fields fold_res_append fold_string field_sel)
  ultimately show ?thesis
    unfolding body
    by (simp add: arena_named_tuple_def arena_items_def indexes_def parse_result_def decodeStringField_def
      parse_ignore_def parse_items [OF valid] map_arenaRef [OF assms])
qed

lemma adds_named_tuple:
  assumes "list_all2 (adds pw) bs ws"
  shows "adds pw (fieldMessage pw 13 (fieldString pw 1 n @ concat (map (fieldString pw 2) names) @ repeated pw 3 bs))
    (VNamedTuple n names ws)" (is "adds pw (fieldMessage pw 13 ?x) _")
proof (rule adds_body)
  fix ns vals
  assume "holds pw ns vals"
  let ?head = "fieldBytes pw 1 n @ concat (map (fieldBytes pw 2) names)"
  from add_refs [OF assms \<open>holds pw ns vals\<close>, of 3 ?head] obtain "is" new extra where
    r: "fold_res (\<lambda>b. add_ref pw (addLegacy pw) 3 b) bs (ns, ?head) = ok (ns @ new, ?head @ refs 3 is)"
    "holds pw (ns @ new) (vals @ extra)" "list_all2 (refers (ns @ new) (vals @ extra)) is ws" by blast
  let ?fn = "\<lambda>c (ns, body). if tag c = 3 then add_ref pw (addLegacy pw) 3 (bytes c) (ns, body)
        else ok (ns, body @ fieldBytes pw (tag c) (bytes c))"
  have "parseFields pw (concat (map (fieldBytes pw 3) bs)) ?fn (ns, ?head) = ok (ns @ new, ?head @ refs 3 is)"
    using parse_field_list [of 3 "\<lambda>x. x" bs "[]" ?fn "(ns, ?head)"] r(1)
    by (simp add: bytes_field_def valid_tag_def case_prod_beta' del: One_nat_def)
  then have body: "add_body pw (addLegacy pw) (bytes_field 13 ?x) ns = Inr (ns @ new, ?head @ refs 3 is)"
    by (simp add: add_body_def add_named_tuple_def parse_result_def fieldString_def [abs_def] fieldMessage_def [abs_def]
      wire_simps valid_tag_def bytes_field_def parse_tuple_names del: One_nat_def)
  show "\<exists>new extra body. add_body pw (addLegacy pw) (bytes_field 13 ?x) ns = Inr (ns @ new, body)
      \<and> holds pw (ns @ new) (vals @ extra)
      \<and> (length (ns @ new) < 2 ^ 32 \<longrightarrow> arena_kind pw (vals @ extra) (bytes_field 13 body) = Inr (VNamedTuple n names ws))"
    using r(2) body arena_named_tuple_refs [OF r(3), of n names]
    by (intro exI [of _ new] exI [of _ extra] exI [of _ "?head @ refs 3 is"])
      (simp add: arena_kind_def expected_type_def field_sel del: One_nat_def append_assoc)
qed simp

section \<open>Every message that the encoder writes\<close>

lemma message_adds: "message pw b w \<Longrightarrow> adds pw b w"
proof (induction rule: message.induct)
  case (leaf i w)
  then show ?case by (rule adds_leaf)
next
  case (time x)
  show ?case by (rule adds_time)
next
  case (type_value s)
  show ?case by (rule adds_type)
next
  case (list bs ws)
  then have "list_all2 (adds pw) bs ws" by (rule list_all2_conj_right)
  then show ?case by (rule adds_container) (simp_all add: arena_kind_def expected_type_def bytes_field_def)
next
  case (tuple bs ws)
  then have "list_all2 (adds pw) bs ws" by (rule list_all2_conj_right)
  then show ?case by (rule adds_container) (simp_all add: arena_kind_def expected_type_def bytes_field_def)
next
  case (set bs ws)
  then have "list_all2 (adds pw) bs ws" by (rule list_all2_conj_right)
  then show ?case by (rule adds_container) (simp_all add: arena_kind_def expected_type_def bytes_field_def)
next
  case (frozenset bs ws)
  then have "list_all2 (adds pw) bs ws" by (rule list_all2_conj_right)
  then show ?case by (rule adds_container) (simp_all add: arena_kind_def expected_type_def bytes_field_def)
next
  case (dict bs e)
  then have "list_all2 pair_adds bs e" by (rule list_all2_mono) blast
  then show ?case by (rule adds_dict)
next
  case (named_tuple bs ws n names)
  then have "list_all2 (adds pw) bs ws" by (rule list_all2_conj_right)
  then show ?case by (rule adds_named_tuple)
next
  case (module_value bs e n i)
  then have "list_all2 pair_adds bs e" by (rule list_all2_mono) blast
  then show ?case by (rule adds_module)
qed

lemma arena_add_adds:
  assumes "encodeValue pw h v = Inr b"
  shows "\<exists>w. denotes h v w \<and> adds pw b w"
  using encode_sound [of h "[]" 0 v b] assms message_adds unfolding encodeValue_def by blast

section \<open>The whole arena\<close>

lemma decodeArena_encode: "decodeArena pw (arena_encode pw ns) = decode_nodes pw [] ns"
proof -
  let ?fn = "\<lambda>f values. if tag f \<noteq> 2 then ok values
        else if wtype f \<noteq> BytesType then fail values (Errorf ''arena node must be a message'' [])
        else set_or_fail (decode_node pw values (bytes f)) (\<lambda>v. values @ [v]) values"
  have "result_of (parseFields pw (repeated pw 2 ns) ?fn vals) = decode_nodes pw vals ns" for vals
  proof (induction ns arbitrary: vals)
    case (Cons n ns)
    then show ?case
      by (cases "decode_node pw vals n")
        (simp_all add: fieldMessage_def bytes_field_def wire_simps valid_tag_def)
  qed simp
  then show ?thesis
    by (simp add: decodeArena_def arena_encode_def parse_result_def wire_simps valid_tag_def varint_field_def)
qed

end

text \<open>Adding several values to one arena, as the requests do.\<close>

fun arena_add_all :: "protowire \<Rightarrow> heap \<Rightarrow> Value list \<Rightarrow> nodes \<Rightarrow> go_error + uint32 list \<times> nodes" where
  "arena_add_all pw h [] ns = Inr ([], ns)"
| "arena_add_all pw h (v # vs) ns =
     bind_res (arena_add pw h v ns) (\<lambda>(i, ns').
       bind_res (arena_add_all pw h vs ns') (\<lambda>(is, ns''). Inr (i # is, ns'')))"

context wire_format begin

lemma arena_add_all_holds:
  assumes "holds pw ns vals" and "arena_add_all pw h xs ns = Inr (is, ns')"
  shows "\<exists>new extra ws. ns' = ns @ new \<and> holds pw ns' (vals @ extra) \<and> list_all2 (denotes h) xs ws
    \<and> list_all2 (refers ns' (vals @ extra)) is ws"
  using assms
proof (induction xs arbitrary: ns vals "is")
  case Nil
  then show ?case by (intro exI [of _ "[]"]) simp
next
  case (Cons x xs)
  from Cons.prems(2) obtain b i js ns1 where
    e: "encodeValue pw h x = Inr b" "addLegacy pw b ns = Inr (i, ns1)" "arena_add_all pw h xs ns1 = Inr (js, ns')" "is = i # js"
    by (auto simp: arena_add_def bind_res_eq_Inr)
  from arena_add_adds [OF e(1)] Cons.prems(1) e(2) obtain w new extra where
    w: "denotes h x w" "ns1 = ns @ new" "holds pw (ns @ new) (vals @ extra)" "refers (ns @ new) (vals @ extra) i w"
    unfolding adds_def by fastforce
  from Cons.IH [OF w(3)] e(3) w(2) obtain new' extra' ws where
    r: "ns' = (ns @ new) @ new'" "holds pw ns' ((vals @ extra) @ extra')" "list_all2 (denotes h) xs ws"
    "list_all2 (refers ns' ((vals @ extra) @ extra')) js ws" by blast
  have "refers ns' ((vals @ extra) @ extra') i w"
    unfolding r(1) by (rule refers_mono [OF w(4)])
  with r w(1) e(4) show ?case
    by (intro exI [of _ "new @ new'"] exI [of _ "extra @ extra'"] exI [of _ "w # ws"]) simp
qed

lemma arena_roundtrip_lists:
  assumes "arena_add_all pw h xs [] = Inr (is, ns)" and "length ns \<le> 2 ^ 32"
  shows "\<exists>vals ws. decodeArena pw (arena_encode pw ns) = Inr vals \<and> list_all2 (denotes h) xs ws
    \<and> map_res (arenaRef vals) (map ucast is) = Inr ws"
proof -
  have "holds pw [] []" by (simp add: holds_def)
  from arena_add_all_holds [OF this assms(1)] obtain vals ws where
    "holds pw ns vals" "list_all2 (denotes h) xs ws" "list_all2 (refers ns vals) is ws" by auto
  then show ?thesis
    using assms(2) map_arenaRef by (auto simp: decodeArena_encode holds_def)
qed

text \<open>The arena accepts every value the encoder accepts.\<close>

lemma arena_add_accepts:
  assumes "encodeValue pw h v = Inr b" and "decode_nodes pw [] ns = Inr vals"
  shows "\<exists>i ns'. arena_add pw h v ns = Inr (i, ns')"
proof -
  have "holds pw ns vals" using assms(2) by (simp add: holds_def)
  with arena_add_adds [OF assms(1)] assms(1) show ?thesis
    unfolding adds_def by (fastforce simp: arena_add_def)
qed

end

end
