(* ===== verification/Exc_Data.thy ===== *)
theory Exc_Data
  imports Protowire_Ref
begin

text \<open>
  Structured exception payloads (\<open>exception_data.go\<close>): their encoder, the decoder with its size
  limits, and what the decoder promises of every payload it accepts.
\<close>

definition maxExceptionDataFieldSize :: nat where "maxExceptionDataFieldSize = 65536"

definition encodeUnicodeData :: "protowire \<Rightarrow> unicode_error_data \<Rightarrow> bytes" where
  "encodeUnicodeData pw x =
     fieldString pw 1 (ud_Encoding x)
     @ (case ud_ObjectString x of Some s \<Rightarrow> fieldString pw 3 s | None \<Rightarrow> fieldBytes pw 2 (ud_ObjectBytes x))
     @ fieldVarint pw 4 (ud_Start x)
     @ fieldVarint pw 5 (ud_End x)
     @ fieldString pw 6 (ud_Reason x)"

definition encodeJSONData :: "protowire \<Rightarrow> json_error_data \<Rightarrow> bytes" where
  "encodeJSONData pw x =
     fieldString pw 1 (jd_Message x)
     @ (case jd_Document x of None \<Rightarrow> [] | Some s \<Rightarrow> fieldString pw 2 s)
     @ fieldVarint pw 3 (jd_Position x)
     @ fieldVarint pw 4 (jd_Line x)
     @ fieldVarint pw 5 (jd_Column x)"

definition encodeExceptionData :: "protowire \<Rightarrow> exception_data option \<Rightarrow> bytes" where
  "encodeExceptionData pw data =
     (case data of
        Some (UnicodeErrorData x) \<Rightarrow> fieldMessage pw 1 (encodeUnicodeData pw x)
      | Some (JSONErrorData x) \<Rightarrow> fieldMessage pw 2 (encodeJSONData pw x)
      | None \<Rightarrow> [])"

section \<open>The decoder\<close>

definition unicode_field ::
  "wire_field \<Rightarrow> unicode_error_data \<times> bool \<Rightarrow> (unicode_error_data \<times> bool) \<times> go_error option" where
  "unicode_field p s =
     (case s of (x, objectSeen) \<Rightarrow>
      let invalid = Errorf ''invalid UnicodeErrorData field %d'' [AInt (int (tag p))] in
      if tag p \<in> {1, 2, 3, 6} \<and> wtype p \<noteq> BytesType then fail s invalid
      else if tag p \<in> {1, 2, 3, 6} \<and> maxExceptionDataFieldSize < length (bytes p)
        then fail s (Errorf ''UnicodeErrorData field %d exceeds 64 KiB'' [AInt (int (tag p))])
      else if tag p \<in> {4, 5} \<and> wtype p \<noteq> VarintType then fail s invalid
      else if tag p = 1 then ok (x\<lparr>ud_Encoding := bytes p\<rparr>, objectSeen)
      else if tag p = 2 \<or> tag p = 3 then
        (if objectSeen then fail s (Errorf ''UnicodeErrorData has multiple objects'' [])
         else if tag p = 2 then ok (x\<lparr>ud_ObjectBytes := bytes p\<rparr>, True)
         else ok (x\<lparr>ud_ObjectString := Some (bytes p)\<rparr>, True))
      else if tag p = 4 then ok (x\<lparr>ud_Start := varint p\<rparr>, objectSeen)
      else if tag p = 5 then ok (x\<lparr>ud_End := varint p\<rparr>, objectSeen)
      else if tag p = 6 then ok (x\<lparr>ud_Reason := bytes p\<rparr>, objectSeen)
      else ok s)"

definition decodeUnicodeData :: "protowire \<Rightarrow> bytes \<Rightarrow> go_error + unicode_error_data" where
  "decodeUnicodeData pw data =
     bind_res (parse_result pw data unicode_field
        (\<lparr>ud_Encoding = [], ud_ObjectBytes = [], ud_ObjectString = None, ud_Start = 0, ud_End = 0, ud_Reason = []\<rparr>, False))
       (\<lambda>(x, objectSeen). if \<not> objectSeen then Inl (Errorf ''UnicodeErrorData has no object'' []) else Inr x)"

definition json_field :: "nat \<Rightarrow> wire_field \<Rightarrow> json_error_data \<Rightarrow> json_error_data \<times> go_error option" where
  "json_field messageLimit p x =
     (if (tag p = 1 \<or> tag p = 2) \<and> wtype p \<noteq> BytesType
         \<or> (3 \<le> tag p \<and> tag p \<le> 5) \<and> wtype p \<noteq> VarintType
        then fail x (Errorf ''invalid JSONErrorData field %d'' [AInt (int (tag p))])
      else if tag p = 2 \<and> maxExceptionDataFieldSize < length (bytes p)
         \<or> tag p = 1 \<and> messageLimit < length (bytes p)
        then fail x (Errorf ''JSONErrorData field %d exceeds its size limit'' [AInt (int (tag p))])
      else if tag p = 1 then ok (x\<lparr>jd_Message := bytes p\<rparr>)
      else if tag p = 2 then ok (x\<lparr>jd_Document := Some (bytes p)\<rparr>)
      else if tag p = 3 then ok (x\<lparr>jd_Position := varint p\<rparr>)
      else if tag p = 4 then ok (x\<lparr>jd_Line := varint p\<rparr>)
      else if tag p = 5 then ok (x\<lparr>jd_Column := varint p\<rparr>)
      else ok x)"

definition decodeJSONData :: "protowire \<Rightarrow> nat \<Rightarrow> bytes \<Rightarrow> go_error + json_error_data" where
  "decodeJSONData pw messageLimit data = parse_result pw data (json_field messageLimit)
     \<lparr>jd_Message = [], jd_Document = None, jd_Position = 0, jd_Line = 0, jd_Column = 0\<rparr>"

definition payload_field ::
  "protowire \<Rightarrow> nat \<Rightarrow> wire_field \<Rightarrow> exception_data option \<Rightarrow> exception_data option \<times> go_error option" where
  "payload_field pw messageLimit f result =
     (if tag f \<noteq> 1 \<and> tag f \<noteq> 2 then ok result
      else if result \<noteq> None \<or> wtype f \<noteq> BytesType
        then fail result (Errorf ''invalid structured exception payload'' [])
      else if tag f = 1 then
        (case decodeUnicodeData pw (bytes f) of
           Inl e \<Rightarrow> fail result e | Inr x \<Rightarrow> ok (Some (UnicodeErrorData x)))
      else
        (case decodeJSONData pw messageLimit (bytes f) of
           Inl e \<Rightarrow> fail result e | Inr x \<Rightarrow> ok (Some (JSONErrorData x))))"

definition decodeExceptionDataWithLimit ::
  "protowire \<Rightarrow> bytes \<Rightarrow> nat \<Rightarrow> go_error + exception_data option" where
  "decodeExceptionDataWithLimit pw data messageLimit =
     parse_result pw data (payload_field pw messageLimit) None"

definition decodeExceptionData :: "protowire \<Rightarrow> bytes \<Rightarrow> go_error + exception_data option" where
  "decodeExceptionData pw data = decodeExceptionDataWithLimit pw data maxExceptionDataFieldSize"

section \<open>Limits\<close>

text \<open>The promise: sizes within the limits, and only one of the two object representations.\<close>

fun payload_ok :: "nat \<Rightarrow> exception_data \<Rightarrow> bool" where
  "payload_ok limit (UnicodeErrorData x) \<longleftrightarrow>
     length (ud_Encoding x) \<le> 65536 \<and> length (ud_ObjectBytes x) \<le> 65536 \<and> length (ud_Reason x) \<le> 65536
     \<and> (case ud_ObjectString x of None \<Rightarrow> True | Some s \<Rightarrow> length s \<le> 65536 \<and> ud_ObjectBytes x = [])"
| "payload_ok limit (JSONErrorData x) \<longleftrightarrow>
     length (jd_Message x) \<le> limit \<and> (case jd_Document x of None \<Rightarrow> True | Some s \<Rightarrow> length s \<le> 65536)"

lemma parse_result_invariant:
  assumes "P s" and "\<And>f s. P s \<Longrightarrow> P (fst (fn f s))" and "parse_result pw data fn s = Inr s'"
  shows "P s'"
  using parseFields_invariant [of P s fn pw data] assms
  by (cases "parseFields pw data fn s") (auto simp: parse_result_def result_of_eq_Inr)

definition unicode_inv :: "unicode_error_data \<times> bool \<Rightarrow> bool" where
  "unicode_inv s \<longleftrightarrow> payload_ok 0 (UnicodeErrorData (fst s))
     \<and> (\<not> snd s \<longrightarrow> ud_ObjectBytes (fst s) = [] \<and> ud_ObjectString (fst s) = None)"

lemma unicode_field_inv: "unicode_inv s \<Longrightarrow> unicode_inv (fst (unicode_field p s))"
  by (cases s) (simp add: unicode_field_def unicode_inv_def maxExceptionDataFieldSize_def Let_def split: option.splits)

lemma decodeUnicodeData_ok:
  assumes "decodeUnicodeData pw data = Inr x"
  shows "payload_ok limit (UnicodeErrorData x)"
proof -
  let ?init = "(\<lparr>ud_Encoding = [], ud_ObjectBytes = [], ud_ObjectString = None, ud_Start = 0, ud_End = 0,
    ud_Reason = []\<rparr>, False)"
  from assms obtain seen where "parse_result pw data unicode_field ?init = Inr (x, seen)"
    by (auto simp: decodeUnicodeData_def bind_res_eq_Inr split: if_splits)
  then have "unicode_inv (x, seen)"
    by (rule parse_result_invariant [rotated 2]) (simp_all add: unicode_field_inv, simp add: unicode_inv_def)
  then show ?thesis by (simp add: unicode_inv_def)
qed

lemma decodeJSONData_ok: "decodeJSONData pw limit data = Inr x \<Longrightarrow> payload_ok limit (JSONErrorData x)"
  unfolding decodeJSONData_def
  by (drule parse_result_invariant [where P = "\<lambda>x. payload_ok limit (JSONErrorData x)", rotated 2])
    (auto simp: json_field_def maxExceptionDataFieldSize_def split: option.splits)

lemma decodeExceptionDataWithLimit_ok:
  assumes "decodeExceptionDataWithLimit pw data limit = Inr (Some x)"
  shows "payload_ok limit x"
proof -
  have "case Some x of None \<Rightarrow> True | Some x \<Rightarrow> payload_ok limit x"
    using assms unfolding decodeExceptionDataWithLimit_def
    by (rule parse_result_invariant [rotated 2])
      (auto simp: payload_field_def decodeUnicodeData_ok decodeJSONData_ok simp del: payload_ok.simps split: sum.splits)
  then show ?thesis by simp
qed

section \<open>Round trip\<close>

context wire_format begin

lemmas payload_parse = wire_simps fieldString_def fieldMessage_def varint_field_def bytes_field_def valid_tag_def

lemma decodeUnicodeData_encode:
  "payload_ok limit (UnicodeErrorData x) \<Longrightarrow> decodeUnicodeData pw (encodeUnicodeData pw x) = Inr x"
  by (cases x; cases "ud_ObjectString x")
    (simp_all add: decodeUnicodeData_def encodeUnicodeData_def parse_result_def payload_parse unicode_field_def
      maxExceptionDataFieldSize_def Let_def)

lemma decodeJSONData_encode:
  "payload_ok limit (JSONErrorData x) \<Longrightarrow> decodeJSONData pw limit (encodeJSONData pw x) = Inr x"
  by (cases x; cases "jd_Document x")
    (simp_all add: decodeJSONData_def encodeJSONData_def parse_result_def payload_parse json_field_def
      maxExceptionDataFieldSize_def)

lemma decodeExceptionDataWithLimit_encode:
  assumes "pred_option (payload_ok limit) x"
  shows "decodeExceptionDataWithLimit pw (encodeExceptionData pw x) limit = Inr x"
proof (cases x)
  case (Some d)
  with assms show ?thesis
    by (cases d) (simp_all add: decodeExceptionDataWithLimit_def encodeExceptionData_def parse_result_def payload_parse
      payload_field_def decodeUnicodeData_encode [of limit] decodeJSONData_encode del: payload_ok.simps)
qed (simp add: decodeExceptionDataWithLimit_def encodeExceptionData_def)

text \<open>An encoded payload of a present value is not empty, so \<open>encodeRaised\<close> never leaves it out.\<close>

lemma encodeExceptionData_empty: "encodeExceptionData pw x = [] \<longleftrightarrow> x = None"
  using field_nonempty(3) [of 1 _ "[]"] field_nonempty(3) [of 2 _ "[]"]
  by (auto simp: encodeExceptionData_def fieldMessage_def valid_tag_def split: option.splits exception_data.splits)

end

end
