(* ===== verification/Protocol.thy ===== *)
theory Protocol
  imports Arena_Roundtrip Exc_Data
begin

text \<open>
  The messages between host and worker (\<open>protocol.go\<close>): the requests the host writes, the
  event envelope \<open>decodeEvent\<close> and the event bodies.  A request is its kind and its body.
\<close>

section \<open>Requests\<close>

datatype request_kind =
    reqConfigure | reqInstall | reqFeed | reqResumeCall | reqResumeName | reqResumeFutures
  | reqDump | reqLoad | reqReset | reqShutdown | reqAbortFeed

fun request_number :: "request_kind \<Rightarrow> nat" where
  "request_number reqConfigure = 1"
| "request_number reqInstall = 2"
| "request_number reqFeed = 3"
| "request_number reqResumeCall = 4"
| "request_number reqResumeName = 5"
| "request_number reqResumeFutures = 6"
| "request_number reqDump = 7"
| "request_number reqLoad = 8"
| "request_number reqReset = 9"
| "request_number reqShutdown = 10"
| "request_number reqAbortFeed = 11"

record request =
  rq_kind :: request_kind
  rq_body :: bytes

definition request_encode :: "protowire \<Rightarrow> request \<Rightarrow> bytes" where
  "request_encode pw r = fieldMessage pw (request_number (rq_kind r)) (rq_body r)"

abbreviation request :: "request_kind \<Rightarrow> bytes \<Rightarrow> request" where
  "request k b \<equiv> \<lparr>rq_kind = k, rq_body = b\<rparr>"

text \<open>Durations are \<open>int64\<close> nanoseconds.\<close>

definition Microsecond :: uint64 where "Microsecond = 1000"
definition Millisecond :: uint64 where "Millisecond = 1000000"
definition Second :: uint64 where "Second = 1000000000"

record resource_limits =
  rl_MaxDuration :: uint64
  rl_MaxFeedDuration :: uint64
  rl_MaxTurnDuration :: uint64
  rl_MaxTotalSleep :: uint64
  rl_MaxMemory :: uint64
  rl_GCInterval :: uint64
  rl_MaxRecursionDepth :: uint64
  rl_MaxSuspensions :: uint64

text \<open>The type-check format is a string; \<open>TypeCheckFormat.wire\<close> gives its number, 0 for an unknown one.\<close>

definition TypeCheckFormat_wire :: "string \<Rightarrow> uint64" where
  "TypeCheckFormat_wire f =
     (if f = [] \<or> f = ''full'' then 1
      else if f = ''concise'' then 2
      else if f = ''azure'' then 3
      else if f = ''json'' then 4
      else if f = ''jsonlines'' then 5
      else if f = ''rdjson'' then 6
      else if f = ''pylint'' then 7
      else if f = ''gitlab'' then 8
      else if f = ''github'' then 9
      else 0)"

record configure_wire =
  cw_scriptName :: string
  cw_limits :: resource_limits
  cw_typeCheck :: bool
  cw_typeCheckStubs :: "string option"
  cw_typeCheckFormat :: string
  cw_typeCheckColor :: bool
  cw_assertAnnotations :: "uint32 option"
  cw_printFlushInterval :: uint64
  cw_osPolicy :: bytes

text \<open>The order of the limit fields is that of the code.  Durations count when positive as \<open>int64\<close>.\<close>

definition positive_micros :: "protowire \<Rightarrow> nat \<Rightarrow> uint64 \<Rightarrow> bytes" where
  "positive_micros pw t d = (if 0 <s d then fieldVarint pw t (go_div d Microsecond) else [])"

definition nonzero_field :: "protowire \<Rightarrow> nat \<Rightarrow> uint64 \<Rightarrow> bytes" where
  "nonzero_field pw t n = (if 0 < n then fieldVarint pw t n else [])"

definition encodeLimits :: "protowire \<Rightarrow> resource_limits \<Rightarrow> bytes" where
  "encodeLimits pw x =
     positive_micros pw 6 (rl_MaxFeedDuration x)
     @ positive_micros pw 7 (rl_MaxTurnDuration x)
     @ nonzero_field pw 5 (rl_MaxSuspensions x)
     @ positive_micros pw 8 (rl_MaxTotalSleep x)
     @ nonzero_field pw 2 (rl_MaxMemory x)
     @ nonzero_field pw 3 (rl_GCInterval x)
     @ nonzero_field pw 4 (rl_MaxRecursionDepth x)"

definition configureRequest :: "protowire \<Rightarrow> configure_wire \<Rightarrow> request" where
  "configureRequest pw x = request reqConfigure
     (fieldString pw 1 (cw_scriptName x)
      @ (let limits = encodeLimits pw (cw_limits x) in if limits \<noteq> [] then fieldMessage pw 2 limits else [])
      @ fieldBool pw 3 (cw_typeCheck x)
      @ opt_field (fieldString pw 4) (cw_typeCheckStubs x)
      @ fieldString pw 5 RuntimeVersion
      @ opt_field (\<lambda>a. fieldVarint pw 6 (ucast a)) (cw_assertAnnotations x)
      @ fieldVarint pw 7 (TypeCheckFormat_wire (cw_typeCheckFormat x))
      @ fieldBool pw 8 (cw_typeCheckColor x)
      @ fieldVarint pw 9 protocolVersion
      @ fieldVarint pw 10 (go_div (cw_printFlushInterval x) Millisecond)
      @ (if cw_osPolicy x \<noteq> [] then fieldMessage pw 11 (cw_osPolicy x) else []))"

text \<open>
  \<open>inputs\<close> is a Go map: an association list with distinct names.  The names are sorted, so the
  request does not depend on the map's order.
\<close>

definition feed_input ::
  "protowire \<Rightarrow> heap \<Rightarrow> string \<times> Value \<Rightarrow> bytes \<times> nodes \<Rightarrow> (bytes \<times> nodes) \<times> go_error option" where
  "feed_input pw h p s =
     (case s of (b, ns) \<Rightarrow>
      (case arena_add pw h (snd p) ns of
         Inl e \<Rightarrow> fail s (Errorf ''input %q: %w'' [AStr (fst p), AErr e])
       | Inr (i, ns') \<Rightarrow> ok (b @ fieldMessage pw 2 (fieldString pw 1 (fst p) @ fieldVarint pw 2 (ucast i)), ns')))"

definition feedRequest ::
  "protowire \<Rightarrow> heap \<Rightarrow> string \<Rightarrow> (string \<times> Value) list \<Rightarrow> bool \<Rightarrow> string \<Rightarrow> go_error + request" where
  "feedRequest pw h code inputs skip cwd =
     bind_res (result_of (fold_res (feed_input pw h) (sort_key fst inputs) (fieldString pw 1 code, [])))
       (\<lambda>(b, ns). Inr (request reqFeed
          (b @ fieldMessage pw 3 (arena_encode pw ns) @ fieldBool pw 4 skip
           @ (if cwd \<noteq> [] then fieldString pw 5 cwd else []))))"

section \<open>Exceptions\<close>

definition encodeFrame :: "protowire \<Rightarrow> stack_frame \<Rightarrow> bytes" where
  "encodeFrame pw f =
     fieldString pw 1 (sf_Filename f)
     @ fieldMessage pw 2 (fieldVarint pw 1 (ucast (sf_Line f)) @ fieldVarint pw 2 (ucast (sf_Column f)))
     @ fieldMessage pw 3 (fieldVarint pw 1 (ucast (sf_EndLine f)) @ fieldVarint pw 2 (ucast (sf_EndColumn f)))
     @ (if sf_FrameName f \<noteq> [] then fieldString pw 4 (sf_FrameName f) else [])
     @ (if sf_PreviewLine f \<noteq> [] then fieldString pw 5 (sf_PreviewLine f) else [])
     @ fieldBool pw 6 (sf_HideCaret f)
     @ fieldBool pw 7 (sf_HideFrameName f)"

definition encodeRaised :: "protowire \<Rightarrow> raised_exception \<Rightarrow> bytes" where
  "encodeRaised pw x =
     fieldString pw 1 (ex_Type x)
     @ (if ex_Message x \<noteq> [] then fieldString pw 2 (ex_Message x) else [])
     @ concat (map (\<lambda>f. fieldMessage pw 3 (encodeFrame pw f)) (ex_Frames x))
     @ (let data = encodeExceptionData pw (ex_Data x) in if data \<noteq> [] then fieldMessage pw 4 data else [])"

section \<open>Resuming\<close>

text \<open>\<open>resumeResult\<close>: the first field that is set, in the order of the code, decides.\<close>

record resume_result =
  rr_value :: Value
  rr_err :: "raised_exception option"
  rr_future :: "uint32 option"
  rr_notFound :: "string option"
  rr_notHandled :: bool

definition resume_value :: "Value \<Rightarrow> resume_result" where
  "resume_value v = \<lparr>rr_value = v, rr_err = None, rr_future = None, rr_notFound = None, rr_notHandled = False\<rparr>"

definition resume_raise :: "raised_exception \<Rightarrow> resume_result" where
  "resume_raise x = (resume_value VNil)\<lparr>rr_err := Some x\<rparr>"

definition encodeResumeResultArena ::
  "protowire \<Rightarrow> heap \<Rightarrow> resume_result \<Rightarrow> nodes \<Rightarrow> go_error + bytes \<times> nodes" where
  "encodeResumeResultArena pw h x ns =
     (case rr_err x of
        Some e \<Rightarrow> Inr (fieldMessage pw 2 (encodeRaised pw e), ns)
      | None \<Rightarrow>
     (case rr_future x of
        Some f \<Rightarrow> Inr (fieldVarint pw 3 (ucast f), ns)
      | None \<Rightarrow>
     (case rr_notFound x of
        Some n \<Rightarrow> Inr (fieldString pw 4 n, ns)
      | None \<Rightarrow>
     if rr_notHandled x then Inr (fieldMessage pw 5 [], ns)
     else bind_res (arena_add pw h (rr_value x) ns) (\<lambda>(i, ns'). Inr (fieldVarint pw 1 (ucast i), ns')))))"

definition resumeCallRequest :: "protowire \<Rightarrow> heap \<Rightarrow> uint32 \<Rightarrow> resume_result \<Rightarrow> go_error + request" where
  "resumeCallRequest pw h callID result =
     bind_res (encodeResumeResultArena pw h result []) (\<lambda>(r, ns).
       Inr (request reqResumeCall
         (fieldVarint pw 1 (ucast callID) @ fieldMessage pw 2 r @ fieldMessage pw 3 (arena_encode pw ns))))"

definition resumeNameValueRequest :: "protowire \<Rightarrow> heap \<Rightarrow> Value \<Rightarrow> go_error + request" where
  "resumeNameValueRequest pw h v =
     bind_res (arena_add pw h v []) (\<lambda>(i, ns).
       Inr (request reqResumeName (fieldMessage pw 1 (arena_encode pw ns) @ fieldVarint pw 2 (ucast i))))"

definition resumeNameUndefinedRequest :: "protowire \<Rightarrow> request" where
  "resumeNameUndefinedRequest pw = request reqResumeName (fieldMessage pw 3 [])"

definition resume_future ::
  "protowire \<Rightarrow> heap \<Rightarrow> uint32 \<times> resume_result \<Rightarrow> bytes \<times> nodes \<Rightarrow> (bytes \<times> nodes) \<times> go_error option" where
  "resume_future pw h x s =
     (case s of (b, ns) \<Rightarrow>
      set_or_fail (encodeResumeResultArena pw h (snd x) ns)
        (\<lambda>(r, ns'). (b @ fieldMessage pw 1 (fieldVarint pw 1 (ucast (fst x)) @ fieldMessage pw 2 r), ns')) s)"

definition resumeFuturesRequest :: "protowire \<Rightarrow> heap \<Rightarrow> (uint32 \<times> resume_result) list \<Rightarrow> go_error + request" where
  "resumeFuturesRequest pw h results =
     bind_res (result_of (fold_res (resume_future pw h) results ([], []))) (\<lambda>(b, ns).
       Inr (request reqResumeFutures (b @ fieldMessage pw 2 (arena_encode pw ns))))"

section \<open>The event envelope\<close>

datatype event_kind =
    eventPrint | eventFunctionCall | eventOSCall | eventNameLookup | eventResolveFutures | eventComplete
  | eventError | eventTypingError | eventDump | eventOK | eventFatal | eventShutdownDump

fun event_number :: "event_kind \<Rightarrow> nat" where
  "event_number eventPrint = 1"
| "event_number eventFunctionCall = 2"
| "event_number eventOSCall = 3"
| "event_number eventNameLookup = 4"
| "event_number eventResolveFutures = 5"
| "event_number eventComplete = 6"
| "event_number eventError = 7"
| "event_number eventTypingError = 8"
| "event_number eventDump = 9"
| "event_number eventOK = 10"
| "event_number eventFatal = 11"
| "event_number eventShutdownDump = 12"

definition event_kinds :: "event_kind list" where
  "event_kinds = [eventPrint, eventFunctionCall, eventOSCall, eventNameLookup, eventResolveFutures, eventComplete,
     eventError, eventTypingError, eventDump, eventOK, eventFatal, eventShutdownDump]"

lemma nth_event_number: "event_kinds ! (event_number k - 1) = k"
  by (cases k) (simp_all add: event_kinds_def)

lemma event_number_inj: "event_number x = event_number y \<Longrightarrow> x = y"
  by (metis nth_event_number)

text \<open>The code compares kinds as numbers (\<open>e.kind >= eventError\<close>).\<close>

instantiation event_kind :: linorder
begin

definition less_eq_event_kind :: "event_kind \<Rightarrow> event_kind \<Rightarrow> bool" where
  "less_eq_event_kind x y \<longleftrightarrow> event_number x \<le> event_number y"

definition less_event_kind :: "event_kind \<Rightarrow> event_kind \<Rightarrow> bool" where
  "less_event_kind x y \<longleftrightarrow> event_number x < event_number y"

instance
proof
  fix x y z :: event_kind
  show "x < y \<longleftrightarrow> x \<le> y \<and> \<not> y \<le> x" by (simp add: less_eq_event_kind_def less_event_kind_def less_le_not_le)
  show "x \<le> x" by (simp add: less_eq_event_kind_def)
  show "x \<le> y \<Longrightarrow> y \<le> z \<Longrightarrow> x \<le> z" by (simp add: less_eq_event_kind_def)
  show "x \<le> y \<Longrightarrow> y \<le> x \<Longrightarrow> x = y"
    by (rule event_number_inj) (simp add: less_eq_event_kind_def)
  show "x \<le> y \<or> y \<le> x" by (auto simp: less_eq_event_kind_def)
qed

end

lemmas event_order = less_eq_event_kind_def less_event_kind_def

text \<open>The zero kind of a fresh event is \<^const>\<open>None\<close>.\<close>

record child_event =
  ce_kind :: "event_kind option"
  ce_body :: bytes
  ce_totalExecutionMicros :: uint64
  ce_maxSuspensions :: "uint64 option"
  ce_maxTotalSleepMicros :: "uint64 option"
  ce_restoredScriptName :: "string option"

definition no_event :: child_event where
  "no_event = \<lparr>ce_kind = None, ce_body = [], ce_totalExecutionMicros = 0, ce_maxSuspensions = None,
     ce_maxTotalSleepMicros = None, ce_restoredScriptName = None\<rparr>"

definition event_field :: "wire_field \<Rightarrow> child_event \<Rightarrow> child_event \<times> go_error option" where
  "event_field f e =
     (if 1 \<le> tag f \<and> tag f \<le> 12 then
        (if ce_kind e \<noteq> None then fail e (Errorf ''child event has multiple kinds'' [])
         else ok (e\<lparr>ce_kind := Some (event_kinds ! (tag f - 1)), ce_body := bytes f\<rparr>))
      else if tag f = 20 then ok (e\<lparr>ce_totalExecutionMicros := varint f\<rparr>)
      else if tag f = 22 then ok (e\<lparr>ce_maxSuspensions := Some (varint f)\<rparr>)
      else if tag f = 23 then ok (e\<lparr>ce_restoredScriptName := Some (bytes f)\<rparr>)
      else if tag f = 27 then
        (if wtype f \<noteq> VarintType then fail e (Errorf ''total sleep limit must be a varint'' [])
         else ok (e\<lparr>ce_maxTotalSleepMicros := Some (varint f)\<rparr>))
      else ok e)"

definition decodeEvent :: "protowire \<Rightarrow> bytes \<Rightarrow> go_error + child_event" where
  "decodeEvent pw data =
     bind_res (parse_result pw data event_field no_event)
       (\<lambda>e. if ce_kind e = None then Inl (Errorf ''child event has no kind'' []) else Inr e)"

section \<open>Event bodies\<close>

record print_event =
  pe_Stream :: uint32
  pe_Text :: string

definition decodePrint :: "protowire \<Rightarrow> bytes \<Rightarrow> print_event" where
  "decodePrint pw data = parse_ignore pw data
     (\<lambda>f x. let x = (if tag f = 1 then x\<lparr>pe_Stream := ucast (varint f)\<rparr> else x)
            in if tag f = 2 then x\<lparr>pe_Text := bytes f\<rparr> else x) \<lparr>pe_Stream = 0, pe_Text = []\<rparr>"

definition decodePrintSegments :: "protowire \<Rightarrow> bytes \<Rightarrow> print_event list" where
  "decodePrintSegments pw data = parse_ignore pw data
     (\<lambda>f out. if tag f = 1 \<and> wtype f = BytesType then out @ [decodePrint pw (bytes f)] else out) []"

record source_range =
  sr_Filename :: string
  sr_Start :: uint32
  sr_End :: uint32

definition decodeSourceRange :: "protowire \<Rightarrow> bytes \<Rightarrow> source_range" where
  "decodeSourceRange pw data = parse_ignore pw data
     (\<lambda>f x. let x = (if tag f = 2 then x\<lparr>sr_Start := ucast (varint f)\<rparr> else x)
            in if tag f = 3 then x\<lparr>sr_End := ucast (varint f)\<rparr> else x)
     \<lparr>sr_Filename = decodeStringField pw data 1, sr_Start = 0, sr_End = 0\<rparr>"

definition decodeUint32List :: "protowire \<Rightarrow> bytes \<Rightarrow> nat \<Rightarrow> uint32 list" where
  "decodeUint32List pw data t = map ucast (fst (parseFields pw data (index_field pw t) []))"

record call_event =
  ca_Position :: source_range
  ca_Name :: string
  ca_Args :: "Value list"
  ca_Kwargs :: dict
  ca_CallID :: uint32
  ca_MethodCall :: bool
  ca_ObjectID :: "uuid option"
  ca_OS :: bool
  ca_AllowEagerAwait :: bool

definition call_field ::
  "protowire \<Rightarrow> Value list \<Rightarrow> wire_field \<Rightarrow> call_event \<Rightarrow> call_event \<times> go_error option" where
  "call_field pw values f x =
     (if tag f = 3 then
        set_or_fail (arenaPairs pw (fieldMessage pw 1 (bytes f)) values) (\<lambda>d. x\<lparr>ca_Kwargs := ca_Kwargs x @ d\<rparr>) x
      else if tag f = 4 then ok (x\<lparr>ca_CallID := ucast (varint f)\<rparr>)
      else if tag f = 5 then
        set_or_fail (decodeUUID pw (bytes f)) (\<lambda>i. x\<lparr>ca_ObjectID := Some i, ca_MethodCall := True\<rparr>) x
      else if tag f = 6 then ok (x\<lparr>ca_AllowEagerAwait := varint f \<noteq> 0\<rparr>)
      else ok x)"

definition decodeFunctionCall :: "protowire \<Rightarrow> bytes \<Rightarrow> go_error + call_event" where
  "decodeFunctionCall pw data =
     bind_res (messageArena pw data 7) (\<lambda>values.
     bind_res (arena_items pw data 2 values) (\<lambda>args.
       parse_result pw data (call_field pw values)
         \<lparr>ca_Position = decodeSourceRange pw (decodeBytesField pw data 8), ca_Name = decodeStringField pw data 1,
          ca_Args = args, ca_Kwargs = [], ca_CallID = 0, ca_MethodCall = False, ca_ObjectID = None,
          ca_OS = False, ca_AllowEagerAwait = False\<rparr>))"

definition decodeComplete :: "protowire \<Rightarrow> bytes \<Rightarrow> go_error + Value" where
  "decodeComplete pw data =
     bind_res (messageArena pw data 2) (\<lambda>values.
     bind_res (parse_result pw data (\<lambda>f i. ok (if tag f = 1 then varint f else i)) 0) (\<lambda>i.
       arenaRef values i))"

end
