(* ===== verification/Floats.thy ===== *)
theory Floats
  imports Prelude "HOL-Library.Log_Nat"
begin

text \<open>
  The \<open>float64\<close> arithmetic of sleep durations: \<open>time.Duration(x * float64(time.Second))\<close>,
  \<open>Duration.Seconds\<close> and the range check of \<open>decodeOSCall\<close>, on IEEE 754 bit patterns with
  rounding to nearest, ties to even.
\<close>

definition f64_exp :: "uint64 \<Rightarrow> nat" where
  "f64_exp w = unat w div 2 ^ 52 mod 2048"

definition f64_mant :: "uint64 \<Rightarrow> nat" where
  "f64_mant w = unat w mod 2 ^ 52"

definition f64_is_nan :: "uint64 \<Rightarrow> bool" where
  "f64_is_nan w \<longleftrightarrow> f64_exp w = 2047 \<and> f64_mant w \<noteq> 0"

definition f64_is_inf :: "uint64 \<Rightarrow> bool" where
  "f64_is_inf w \<longleftrightarrow> f64_exp w = 2047 \<and> f64_mant w = 0"

text \<open>Negative zero is not below zero.\<close>

definition f64_negative :: "uint64 \<Rightarrow> bool" where
  "f64_negative w \<longleftrightarrow> 2 ^ 63 < unat w"

text \<open>
  \<open>float64(math.MaxInt64)/float64(time.Second)\<close>, and the test that a duration is none that
  \<open>decodeOSCall\<close> refuses; non-negative floats are ordered as their bits.
\<close>

definition sleep_bound :: uint64 where "sleep_bound = 4756133310154331797"

definition valid_sleep :: "uint64 \<Rightarrow> bool" where
  "valid_sleep w \<longleftrightarrow> \<not> f64_is_nan w \<and> \<not> f64_is_inf w \<and> \<not> f64_negative w
     \<and> \<not> (sleep_bound \<le> w \<and> w < 2 ^ 63)"

section \<open>Rounding\<close>

definition round_ratio :: "nat \<Rightarrow> nat \<Rightarrow> nat" where
  "round_ratio a b =
     (let q = a div b; r = a mod b in if b < 2 * r \<or> (2 * r = b \<and> odd q) then Suc q else q)"

text \<open>The magnitude of a finite float is \<open>fst (f64_parts w) * 2 ^ snd (f64_parts w) / 2 ^ 1074\<close>.\<close>

definition f64_parts :: "uint64 \<Rightarrow> nat \<times> nat" where
  "f64_parts w = (if f64_exp w = 0 then (f64_mant w, 0) else (2 ^ 52 + f64_mant w, f64_exp w - 1))"

text \<open>\<open>time.Duration(x * 1e9)\<close> for a valid sleep: the rounded product, truncated.\<close>

definition duration_of_seconds :: "uint64 \<Rightarrow> uint64" where
  "duration_of_seconds w =
     (case f64_parts w of (m, e) \<Rightarrow>
      let p = m * 10 ^ 9;
          k = floorlog 2 p - 53;
          q = round_ratio p (2 ^ k)
      in of_nat (if 1074 \<le> k + e then q * 2 ^ (k + e - 1074) else q div 2 ^ (1074 - (k + e))))"

text \<open>The float nearest to \<open>q / 2 ^ s\<close>, for values in the normal range.\<close>

definition f64_of_scaled :: "nat \<Rightarrow> nat \<Rightarrow> uint64" where
  "f64_of_scaled q s =
     (if q = 0 then 0 else
      let l = floorlog 2 q;
          q' = (if l \<le> 53 then q * 2 ^ (53 - l) else round_ratio q (2 ^ (l - 53)))
      in of_nat ((l + 1021 - s) * 2 ^ 52 + q'))"

text \<open>\<open>float64(nsec) / 1e9\<close> as \<open>q / 2 ^ t\<close> with 53 significant bits.\<close>

definition nanos_fraction :: "nat \<Rightarrow> nat \<times> nat" where
  "nanos_fraction n =
     (if n = 0 then (0, 0) else
      let t = 83 - floorlog 2 n;
          t = (if 2 ^ 53 * 10 ^ 9 \<le> n * 2 ^ t then t - 1 else t)
      in (round_ratio (n * 2 ^ t) (10 ^ 9), t))"

text \<open>\<open>Duration.Seconds\<close> of a non-negative duration: \<open>float64(sec) + float64(nsec)/1e9\<close>.\<close>

definition duration_seconds :: "uint64 \<Rightarrow> uint64" where
  "duration_seconds d =
     (let sec = unat d div 10 ^ 9 in
      case nanos_fraction (unat d mod 10 ^ 9) of (q, t) \<Rightarrow> f64_of_scaled (sec * 2 ^ t + q) t)"

end
