(* ===== verification/Events.thy ===== *)
theory Events
  imports Protocol Floats
begin

text \<open>
  The bodies of OS calls and of error events (\<open>decodeOSCall\<close>, \<open>decodeRaised\<close>,
  \<open>decodeErrorEvent\<close> of \<open>protocol.go\<close>).
\<close>

section \<open>OS calls\<close>

text \<open>The calls with one path argument.\<close>

definition path_calls :: "(nat \<times> string) list" where
  "path_calls =
     [(2, ''Path.exists''), (3, ''Path.is_file''), (4, ''Path.is_dir''), (5, ''Path.is_symlink''),
      (6, ''Path.read_text''), (7, ''Path.read_bytes''), (8, ''Path.stat''), (9, ''Path.iterdir''),
      (10, ''Path.resolve''), (11, ''Path.absolute''), (12, ''Path.unlink''), (13, ''Path.rmdir'')]"

definition sleep_calls :: "(nat \<times> string) list" where
  "sleep_calls = [(27, ''time.sleep''), (28, ''asyncio.sleep''), (29, ''system.sleep''), (30, ''system.async_sleep'')]"

text \<open>Two string or bytes fields of a message, errors ignored.\<close>

definition two_fields :: "protowire \<Rightarrow> bytes \<Rightarrow> bytes \<times> bytes" where
  "two_fields pw data = parse_ignore pw data
     (\<lambda>v (a, b). (if tag v = 1 then bytes v else a, if tag v = 2 then bytes v else b)) ([], [])"

definition mkdir_fields :: "protowire \<Rightarrow> bytes \<Rightarrow> string \<times> bool \<times> bool" where
  "mkdir_fields pw data = parse_ignore pw data
     (\<lambda>v (p, parents, exist).
        (if tag v = 1 then bytes v else p,
         if tag v = 2 then varint v \<noteq> 0 else parents,
         if tag v = 3 then varint v \<noteq> 0 else exist)) ([], False, False)"

text \<open>
  \<open>os.getenv\<close>: the default is a reference into the arena of the whole call.  An error of the
  arena stops the inner loop and is then dropped; only an error of the reference is kept.
\<close>

definition getenv_field ::
  "protowire \<Rightarrow> bytes \<Rightarrow> wire_field \<Rightarrow> string \<times> Value \<times> go_error option
     \<Rightarrow> (string \<times> Value \<times> go_error option) \<times> go_error option" where
  "getenv_field pw data v s =
     (case s of (key, def, decErr) \<Rightarrow>
      let key = (if tag v = 1 then bytes v else key) in
      if tag v = 2 then
        (case messageArena pw data 50 of
           Inl e \<Rightarrow> fail (key, def, decErr) e
         | Inr values \<Rightarrow>
             (case arenaRef values (varint v) of
                Inl e \<Rightarrow> fail (key, VNil, Some e) e
              | Inr d \<Rightarrow> ok (key, d, None)))
      else ((key, def, decErr), decErr))"

definition decode_getenv :: "protowire \<Rightarrow> bytes \<Rightarrow> bytes \<Rightarrow> go_error + string \<times> Value" where
  "decode_getenv pw data body =
     (case fst (parseFields pw body (getenv_field pw data) ([], VNil, None)) of
        (key, def, Some e) \<Rightarrow> Inl e
      | (key, def, None) \<Rightarrow> Inr (key, def))"

definition decode_sleep :: "protowire \<Rightarrow> bytes \<Rightarrow> go_error + uint64" where
  "decode_sleep pw body =
     bind_res (parse_result pw body (\<lambda>v s. ok (if tag v = 1 then fixed64 v else s)) 0) (\<lambda>seconds.
       if valid_sleep seconds then Inr seconds else Inl (Errorf ''invalid sleep duration'' []))"

definition decode_import :: "protowire \<Rightarrow> bytes \<Rightarrow> go_error + string" where
  "decode_import pw body = parse_result pw body
     (\<lambda>v name. if tag v = 1 then
        (if wtype v \<noteq> BytesType then fail name (Errorf ''import module name must be a string'' [])
         else ok (bytes v)) else ok name) []"

definition decode_import_stubs :: "protowire \<Rightarrow> bytes \<Rightarrow> go_error + string list" where
  "decode_import_stubs pw body = parse_result pw body
     (\<lambda>v names. if tag v = 1 then
        (if wtype v \<noteq> BytesType then fail names (Errorf ''import module name must be a string'' [])
         else if bytes v \<in> set names
           then fail names (Errorf ''duplicate import stub module %q'' [AStr (bytes v)])
         else ok (names @ [bytes v])) else ok names) []"

record scan_args =
  sc_path :: string
  sc_depth :: Value
  sc_follow :: bool
  sc_pattern :: "string list"
  sc_caseSensitive :: Value
  sc_recurse :: bool

definition scan_field :: "wire_field \<Rightarrow> scan_args \<Rightarrow> scan_args \<times> go_error option" where
  "scan_field v x =
     (if tag v = 1 \<or> tag v = 4 then
        (if wtype v \<noteq> BytesType then fail x (Errorf ''scan path/pattern must be a string'' [])
         else if tag v = 1 then ok (x\<lparr>sc_path := bytes v\<rparr>)
         else ok (x\<lparr>sc_pattern := sc_pattern x @ [bytes v]\<rparr>))
      else if tag v \<in> {2, 3, 5, 6} then
        (if wtype v \<noteq> VarintType then fail x (Errorf ''scan option must be a varint'' [])
         else if tag v = 2 then
           (if 2 ^ 32 - 1 < varint v then fail x (Errorf ''scan depth exceeds uint32'' [])
            else ok (x\<lparr>sc_depth := HUint Uint32 (varint v)\<rparr>))
         else if tag v = 3 then ok (x\<lparr>sc_follow := varint v \<noteq> 0\<rparr>)
         else if tag v = 5 then ok (x\<lparr>sc_caseSensitive := VBool (varint v \<noteq> 0)\<rparr>)
         else ok (x\<lparr>sc_recurse := varint v \<noteq> 0\<rparr>))
      else ok x)"

definition decode_scan :: "protowire \<Rightarrow> bytes \<Rightarrow> go_error + scan_args" where
  "decode_scan pw body = parse_result pw body scan_field
     \<lparr>sc_path = [], sc_depth = VNil, sc_follow = False, sc_pattern = [], sc_caseSensitive = VNil, sc_recurse = False\<rparr>"

definition scan_values :: "scan_args \<Rightarrow> Value list" where
  "scan_values x = [VString (sc_path x), sc_depth x, VBool (sc_follow x), VList (map VString (sc_pattern x)),
     sc_caseSensitive x, VBool (sc_recurse x)]"

text \<open>
  The call a field names, with its arguments; \<^const>\<open>None\<close> for a field that names no call.  First the calls
  for the environment, the clock, sleeps, imports and the scan.
\<close>

definition os_system_call :: "protowire \<Rightarrow> wire_field \<Rightarrow> go_error + (string \<times> Value list option) option" where
  "os_system_call pw f =
     (let call = (\<lambda>name args. Inr (Some (name, Some args))) in
     if tag f = 22 then Inr (Some (''os.environ'', None))
     else if tag f = 23 then Inr (Some (''date.today'', None))
     else if tag f = 25 then
       bind_res (parse_result pw (bytes f) (\<lambda>v size. ok (if tag v = 1 then varint v else size)) 0)
         (\<lambda>size. call ''os.urandom'' [HUint Uint64 size])
     else if tag f = 26 then call ''time.time'' [VString (decodeStringField pw (bytes f) 1)]
     else if tag f \<in> {27, 28, 29, 30} then
       bind_res (decode_sleep pw (bytes f))
         (\<lambda>seconds. call (the (map_of sleep_calls (tag f))) [VFloat64 seconds])
     else if tag f = 24 then
       call ''datetime.now'' [parse_ignore pw (bytes f)
         (\<lambda>v tz. if tag v = 1 then VTimeZone (decodeTimeZone pw (bytes v)) else tz) VNil]
     else if tag f = 31 then
       (if wtype f \<noteq> BytesType then Inl (Errorf ''import call must be a message'' [])
        else bind_res (decode_import pw (bytes f)) (\<lambda>name. call ''import'' [VString name]))
     else if tag f = 32 then
       (if wtype f \<noteq> BytesType then Inl (Errorf ''import stubs call must be a message'' [])
        else bind_res (decode_import_stubs pw (bytes f)) (\<lambda>names. call ''import_stubs'' [VList (map VString names)]))
     else if tag f = 33 then
       (if wtype f \<noteq> BytesType then Inl (Errorf ''scan call must be a message'' [])
        else bind_res (decode_scan pw (bytes f)) (\<lambda>x. call ''Path.scan'' (scan_values x)))
     else Inr None)"

text \<open>The calls on files, and \<open>os.getenv\<close>.\<close>

definition os_call :: "protowire \<Rightarrow> bytes \<Rightarrow> wire_field \<Rightarrow> go_error + (string \<times> Value list option) option" where
  "os_call pw data f =
     (let call = (\<lambda>name args. Inr (Some (name, Some args))) in
      case map_of path_calls (tag f) of
        Some name \<Rightarrow> call name [VString (bytes f)]
      | None \<Rightarrow>
     if tag f = 14 \<or> tag f = 15 then
       (case two_fields pw (bytes f) of (p, d) \<Rightarrow>
          call (if tag f = 14 then ''Path.write_text'' else ''Path.append_text'') [VString p, VString d])
     else if tag f = 16 \<or> tag f = 17 then
       (case two_fields pw (bytes f) of (p, d) \<Rightarrow>
          call (if tag f = 16 then ''Path.write_bytes'' else ''Path.append_bytes'') [VString p, VBytes d])
     else if tag f = 18 then
       (case two_fields pw (bytes f) of (p, m) \<Rightarrow> call ''open'' [VString p, VString m])
     else if tag f = 19 then
       (case mkdir_fields pw (bytes f) of (p, parents, exist) \<Rightarrow>
          call ''Path.mkdir'' [VString p, VBool parents, VBool exist])
     else if tag f = 20 then
       (case two_fields pw (bytes f) of (a, b) \<Rightarrow> call ''Path.rename'' [VString a, VString b])
     else if tag f = 21 then
       bind_res (decode_getenv pw data (bytes f)) (\<lambda>(key, def). call ''os.getenv'' [VString key, def])
     else os_system_call pw f)"

text \<open>A call without arguments leaves \<open>x.Args\<close> as it was.\<close>

definition os_field :: "protowire \<Rightarrow> bytes \<Rightarrow> wire_field \<Rightarrow> call_event \<Rightarrow> call_event \<times> go_error option" where
  "os_field pw data f x =
     (if tag f = 51 then ok (x\<lparr>ca_AllowEagerAwait := varint f \<noteq> 0\<rparr>)
      else if tag f = 1 then ok (x\<lparr>ca_CallID := ucast (varint f)\<rparr>)
      else set_or_fail (os_call pw data f)
        (\<lambda>r. case r of
           None \<Rightarrow> x
         | Some (name, None) \<Rightarrow> x\<lparr>ca_Name := name\<rparr>
         | Some (name, Some args) \<Rightarrow> x\<lparr>ca_Name := name, ca_Args := args\<rparr>) x)"

definition decodeOSCall :: "protowire \<Rightarrow> bytes \<Rightarrow> go_error + call_event" where
  "decodeOSCall pw data = parse_result pw data (os_field pw data)
     \<lparr>ca_Position = decodeSourceRange pw (decodeBytesField pw data 52), ca_Name = [], ca_Args = [], ca_Kwargs = [],
      ca_CallID = 0, ca_MethodCall = False, ca_ObjectID = None, ca_OS = True, ca_AllowEagerAwait = False\<rparr>"

section \<open>Exceptions\<close>

definition decode_position :: "protowire \<Rightarrow> bytes \<Rightarrow> uint32 \<times> uint32 \<Rightarrow> uint32 \<times> uint32" where
  "decode_position pw data s = parse_ignore pw data
     (\<lambda>l (line, col). (if tag l = 1 then ucast (varint l) else line, if tag l = 2 then ucast (varint l) else col)) s"

definition frame_field :: "protowire \<Rightarrow> wire_field \<Rightarrow> stack_frame \<Rightarrow> stack_frame" where
  "frame_field pw v sf =
     (if tag v = 1 then sf\<lparr>sf_Filename := bytes v\<rparr>
      else if tag v = 2 then
        (case decode_position pw (bytes v) (sf_Line sf, sf_Column sf) of (l, c) \<Rightarrow> sf\<lparr>sf_Line := l, sf_Column := c\<rparr>)
      else if tag v = 3 then
        (case decode_position pw (bytes v) (sf_EndLine sf, sf_EndColumn sf) of (l, c) \<Rightarrow>
           sf\<lparr>sf_EndLine := l, sf_EndColumn := c\<rparr>)
      else if tag v = 4 then sf\<lparr>sf_FrameName := bytes v\<rparr>
      else if tag v = 5 then sf\<lparr>sf_PreviewLine := bytes v\<rparr>
      else if tag v = 6 then sf\<lparr>sf_HideCaret := varint v \<noteq> 0\<rparr>
      else if tag v = 7 then sf\<lparr>sf_HideFrameName := varint v \<noteq> 0\<rparr>
      else sf)"

definition decodeFrame :: "protowire \<Rightarrow> bytes \<Rightarrow> go_error + stack_frame" where
  "decodeFrame pw data = parse_result pw data (\<lambda>v sf. ok (frame_field pw v sf))
     \<lparr>sf_Filename = [], sf_Line = 0, sf_Column = 0, sf_EndLine = 0, sf_EndColumn = 0, sf_FrameName = [],
      sf_PreviewLine = [], sf_HideCaret = False, sf_HideFrameName = False\<rparr>"

definition raised_field ::
  "protowire \<Rightarrow> wire_field \<Rightarrow> raised_exception \<times> bytes option \<Rightarrow> (raised_exception \<times> bytes option) \<times> go_error option" where
  "raised_field pw f s =
     (case s of (x, structured) \<Rightarrow>
      if tag f = 4 then
        (if wtype f \<noteq> BytesType then fail s (Errorf ''structured exception data must be a message'' [])
         else ok (x, Some (bytes f)))
      else if tag f = 1 then ok (x\<lparr>ex_Type := bytes f\<rparr>, structured)
      else if tag f = 2 then ok (x\<lparr>ex_Message := bytes f\<rparr>, structured)
      else if tag f = 3 then
        set_or_fail (decodeFrame pw (bytes f)) (\<lambda>sf. (x\<lparr>ex_Frames := ex_Frames x @ [sf]\<rparr>, structured)) s
      else ok s)"

definition decodeRaised :: "protowire \<Rightarrow> bytes \<Rightarrow> go_error + raised_exception" where
  "decodeRaised pw data =
     bind_res (parse_result pw data (raised_field pw) (simple_raised [] [], None))
       (\<lambda>(x, structured).
          case structured of
            None \<Rightarrow> Inr x
          | Some d \<Rightarrow>
              bind_res (decodeExceptionDataWithLimit pw d (max maxExceptionDataFieldSize (length (ex_Message x))))
                (\<lambda>p. Inr (x\<lparr>ex_Data := p\<rparr>)))"

definition decodeErrorEvent :: "protowire \<Rightarrow> bytes \<Rightarrow> go_error + raised_exception" where
  "decodeErrorEvent pw data =
     bind_res (parse_result pw data
        (\<lambda>f s. if tag f = 1 then set_or_fail (decodeRaised pw (bytes f)) (\<lambda>x. Some x) s else ok s) None)
       (\<lambda>s. case s of None \<Rightarrow> Inl (Errorf ''error event missing exception'' []) | Some x \<Rightarrow> Inr x)"

section \<open>Exceptions survive the wire\<close>

context wire_format begin

lemmas message_parse = wire_simps leaf_simps field_sel

lemma ucast_ucast_32_64: "ucast (ucast (l :: uint32) :: uint64) = l"
  by (rule bit_word_eqI) (simp add: bit_simps)

lemma decode_position_pair:
  "decode_position pw (fieldVarint pw 1 (ucast (l :: uint32)) @ fieldVarint pw 2 (ucast (c :: uint32))) s = (l, c)"
  by (cases s) (simp add: decode_position_def message_parse ucast_ucast_32_64)

lemma decodeFrame_encodeFrame: "decodeFrame pw (encodeFrame pw f) = Inr f"
  by (cases f) (simp add: decodeFrame_def encodeFrame_def frame_field_def parse_result_def message_parse
    decode_position_pair del: One_nat_def)

text \<open>The frames of an exception, after which \<open>rest\<close> follows.\<close>

lemma parse_frames:
  "parseFields pw (concat (map (\<lambda>f. fieldMessage pw 3 (encodeFrame pw f)) fs) @ rest) (raised_field pw) (x, st)
     = parseFields pw rest (raised_field pw) (x\<lparr>ex_Frames := ex_Frames x @ fs\<rparr>, st)"
proof (induction fs arbitrary: x)
  case (Cons f fs)
  have "raised_field pw (bytes_field 3 (encodeFrame pw f)) (x, st) = ok (x\<lparr>ex_Frames := ex_Frames x @ [f]\<rparr>, st)"
    by (simp add: raised_field_def field_sel decodeFrame_encodeFrame)
  with Cons show ?case by (simp add: fieldMessage_def wire_simps valid_tag_def)
qed simp

lemma decodeRaised_encodeRaised:
  assumes "pred_option (payload_ok (max 65536 (length (ex_Message x)))) (ex_Data x)"
  shows "decodeRaised pw (encodeRaised pw x) = Inr x"
proof -
  let ?tail = "(let data = encodeExceptionData pw (ex_Data x) in if data \<noteq> [] then fieldMessage pw 4 data else [])"
  let ?st = "map_option (\<lambda>d. encodeExceptionData pw (Some d)) (ex_Data x)"
  have tail: "parseFields pw ?tail (raised_field pw) (y, None) = ok (y, ?st)" for y
    by (cases "ex_Data x") (simp_all add: encodeExceptionData_empty fieldMessage_def wire_simps valid_tag_def
      raised_field_def field_sel)
  define y where "y = (simple_raised [] [])\<lparr>ex_Type := ex_Type x\<rparr>"
  have "parseFields pw ((if ex_Message x \<noteq> [] then fieldString pw 2 (ex_Message x) else [])
      @ concat (map (\<lambda>f. fieldMessage pw 3 (encodeFrame pw f)) (ex_Frames x)) @ ?tail) (raised_field pw) (y, None)
      = ok (y\<lparr>ex_Message := ex_Message x, ex_Frames := ex_Frames x\<rparr>, ?st)"
  proof (cases "ex_Message x = []")
    case True
    then show ?thesis by (simp add: parse_frames tail del: fieldMessage_def) (simp add: y_def simple_raised_def)
  next
    case False
    have "raised_field pw (bytes_field 2 (ex_Message x)) (y, None) = ok (y\<lparr>ex_Message := ex_Message x\<rparr>, None)"
      by (simp add: raised_field_def field_sel)
    with False show ?thesis
      by (simp add: fieldString_def wire_simps valid_tag_def parse_frames tail) (simp add: y_def simple_raised_def)
  qed
  moreover have "raised_field pw (bytes_field 1 (ex_Type x)) (simple_raised [] [], None) = ok (y, None)"
    by (simp add: raised_field_def field_sel y_def)
  ultimately have "parseFields pw (encodeRaised pw x) (raised_field pw) (simple_raised [] [], None)
      = ok (y\<lparr>ex_Message := ex_Message x, ex_Frames := ex_Frames x\<rparr>, ?st)"
    by (simp add: encodeRaised_def fieldString_def [of _ 1] wire_simps valid_tag_def del: One_nat_def)
  then have "decodeRaised pw (encodeRaised pw x)
      = (case ex_Data x of None \<Rightarrow> Inr (y\<lparr>ex_Message := ex_Message x, ex_Frames := ex_Frames x\<rparr>)
         | Some d \<Rightarrow> Inr (y\<lparr>ex_Message := ex_Message x, ex_Frames := ex_Frames x, ex_Data := ex_Data x\<rparr>))"
    using decodeExceptionDataWithLimit_encode [of "max 65536 (length (ex_Message x))" "ex_Data x"] assms
    by (cases "ex_Data x") (simp_all add: decodeRaised_def parse_result_def maxExceptionDataFieldSize_def
      y_def simple_raised_def)
  then show ?thesis
    by (cases x; cases "ex_Data x") (simp_all add: y_def simple_raised_def)
qed

lemma decodeErrorEvent_encodeRaised:
  assumes "pred_option (payload_ok (max 65536 (length (ex_Message x)))) (ex_Data x)"
  shows "decodeErrorEvent pw (fieldMessage pw 1 (encodeRaised pw x)) = Inr x"
  by (simp add: decodeErrorEvent_def parse_result_def fieldMessage_def wire_simps valid_tag_def field_sel
    decodeRaised_encodeRaised [OF assms])

end

end
