(* ===== verification/Snapshot.thy ===== *)
theory Snapshot
  imports Arena
begin

text \<open>
  Snapshots (\<open>snapshot.go\<close>): the worker's opaque dump with the budgets the host enforces.
\<close>

definition snapshotMagic :: bytes where
  "snapshotMagic = ''monty-go snapshot'' @ [CHR 0x00, CHR 0x01]"

record snapshot_metadata =
  sm_duration :: uint64
  sm_suspensions :: uint64
  sm_sleepUsed :: uint64
  sm_hasSleepUsage :: bool

definition encodeSnapshot :: "protowire \<Rightarrow> bytes \<Rightarrow> snapshot_metadata \<Rightarrow> bytes" where
  "encodeSnapshot pw state m =
     snapshotMagic
     @ fieldBytes pw 1 state
     @ fieldString pw 2 RuntimeVersion
     @ fieldVarint pw 3 (sm_duration m)
     @ fieldVarint pw 4 (sm_suspensions m)
     @ fieldVarint pw 5 (sm_sleepUsed m)"

record snapshot_parse =
  sp_state :: bytes
  sp_version :: string
  sp_meta :: snapshot_metadata
  sp_seen :: "nat list"

definition no_metadata :: snapshot_metadata where
  "no_metadata = \<lparr>sm_duration = 0, sm_suspensions = 0, sm_sleepUsed = 0, sm_hasSleepUsage = False\<rparr>"

definition snapshot_field :: "wire_field \<Rightarrow> snapshot_parse \<Rightarrow> snapshot_parse \<times> go_error option" where
  "snapshot_field f s =
     (if tag f < 1 \<or> 5 < tag f then ok s
      else if tag f \<in> set (sp_seen s) then fail s (Errorf ''snapshot field %d repeated'' [AInt (int (tag f))])
      else let s = s\<lparr>sp_seen := tag f # sp_seen s\<rparr>; m = sp_meta s in
      if wtype f \<noteq> (if tag f \<le> 2 then BytesType else VarintType)
        then fail s (Errorf ''invalid snapshot field %d wire type'' [AInt (int (tag f))])
      else if tag f = 1 then ok (s\<lparr>sp_state := bytes f\<rparr>)
      else if tag f = 2 then ok (s\<lparr>sp_version := bytes f\<rparr>)
      else if tag f = 3 then
        (if 2 ^ 63 - 1 < varint f then fail s (Errorf ''invalid snapshot duration'' [])
         else ok (s\<lparr>sp_meta := m\<lparr>sm_duration := varint f\<rparr>\<rparr>))
      else if tag f = 4 then ok (s\<lparr>sp_meta := m\<lparr>sm_suspensions := varint f\<rparr>\<rparr>)
      else
        (if 2 ^ 63 - 1 < varint f then fail s (Errorf ''invalid snapshot sleep usage'' [])
         else ok (s\<lparr>sp_meta := m\<lparr>sm_sleepUsed := varint f, sm_hasSleepUsage := True\<rparr>\<rparr>)))"

definition decodeSnapshot :: "protowire \<Rightarrow> bytes \<Rightarrow> go_error + bytes \<times> snapshot_metadata" where
  "decodeSnapshot pw data =
     (if take (length snapshotMagic) data \<noteq> snapshotMagic then Inl (Errorf ''invalid Monty Go snapshot format'' [])
      else bind_res (parse_result pw (drop (length snapshotMagic) data) snapshot_field
             \<lparr>sp_state = [], sp_version = [], sp_meta = no_metadata, sp_seen = []\<rparr>)
        (\<lambda>s. if sp_state s = [] then Inl (Errorf ''snapshot has no worker state'' [])
             else if sp_version s \<noteq> RuntimeVersion
               then Inl (Errorf ''snapshot requires Monty %s; installed runtime is %s''
                      [AStr (sp_version s), AStr RuntimeVersion])
             else Inr (sp_state s, sp_meta s)))"

context wire_format begin

text \<open>A snapshot of a state with non-negative durations is read back; only a duration above
  \<open>math.MaxInt64\<close> is refused.\<close>

lemma decodeSnapshot_encodeSnapshot:
  "decodeSnapshot pw (encodeSnapshot pw state m) =
     (if 2 ^ 63 - 1 < sm_duration m then Inl (Errorf ''invalid snapshot duration'' [])
      else if 2 ^ 63 - 1 < sm_sleepUsed m then Inl (Errorf ''invalid snapshot sleep usage'' [])
      else if state = [] then Inl (Errorf ''snapshot has no worker state'' [])
      else Inr (state, m\<lparr>sm_hasSleepUsage := True\<rparr>))"
  by (cases m) (auto simp: decodeSnapshot_def encodeSnapshot_def parse_result_def wire_simps leaf_simps
    snapshot_field_def Let_def no_metadata_def RuntimeVersion_def)

end

text \<open>What every accepted snapshot satisfies.\<close>

definition snapshot_inv :: "snapshot_parse \<Rightarrow> bool" where
  "snapshot_inv s \<longleftrightarrow> sm_duration (sp_meta s) \<le> 2 ^ 63 - 1 \<and> sm_sleepUsed (sp_meta s) \<le> 2 ^ 63 - 1
     \<and> (sm_hasSleepUsage (sp_meta s) \<longrightarrow> 5 \<in> set (sp_seen s)) \<and> distinct (sp_seen s)"

lemma snapshot_field_inv: "snapshot_inv s \<Longrightarrow> snapshot_inv (fst (snapshot_field f s))"
  by (auto simp: snapshot_field_def snapshot_inv_def Let_def not_less)

lemma decodeSnapshot_ok:
  assumes "decodeSnapshot pw data = Inr (state, m)"
  shows "state \<noteq> [] \<and> sm_duration m \<le> 2 ^ 63 - 1 \<and> sm_sleepUsed m \<le> 2 ^ 63 - 1
    \<and> take (length snapshotMagic) data = snapshotMagic"
proof -
  let ?init = "\<lparr>sp_state = [], sp_version = [], sp_meta = no_metadata, sp_seen = []\<rparr>"
  from assms obtain s where s: "parse_result pw (drop (length snapshotMagic) data) snapshot_field ?init = Inr s"
    "state = sp_state s" "m = sp_meta s" "sp_state s \<noteq> []" "take (length snapshotMagic) data = snapshotMagic"
    by (auto simp: decodeSnapshot_def bind_res_eq_Inr split: if_splits)
  have "snapshot_inv (fst (parseFields pw (drop (length snapshotMagic) data) snapshot_field ?init))"
    by (rule parseFields_invariant) (simp_all add: snapshot_field_inv, simp add: snapshot_inv_def no_metadata_def)
  then have "snapshot_inv s"
    using s(1) by (simp add: parse_result_def result_of_eq_Inr)
  with s show ?thesis by (simp add: snapshot_inv_def)
qed

end
