(* ===== verification/Raise.thy ===== *)
theory Raise
  imports Errors
begin

text \<open>
  Turning host errors into Python exceptions and back (\<open>errors.go\<close>): the \<open>errors.As\<close> chain,
  \<open>raisedFromError\<close>, \<open>classifyRuntime\<close> and \<open>Traceback\<close>.
\<close>

section \<open>Chains\<close>

text \<open>The argument of the \<open>%w\<close> verb is what \<open>Unwrap\<close> gives.\<close>

fun wrapped_arg :: "string \<Rightarrow> fmt_arg list \<Rightarrow> go_error option" where
  "wrapped_arg (c # d # rest) args =
     (if c = CHR ''%'' then
        (case args of [] \<Rightarrow> None
         | a # args' \<Rightarrow>
             (case a of
                AErr e \<Rightarrow> if d = CHR ''w'' then Some e else wrapped_arg rest args'
              | _ \<Rightarrow> wrapped_arg rest args'))
      else wrapped_arg (d # rest) args)"
| "wrapped_arg f args = None"

fun unwrap :: "go_error \<Rightarrow> go_error option" where
  "unwrap (Errorf f args) = wrapped_arg f args"
| "unwrap (CrashedError m t s cause) = cause"
| "unwrap e = None"

lemma wrapped_arg_size: "wrapped_arg f args = Some e \<Longrightarrow> size e < Suc (size_list size args)"
  by (induction f args rule: wrapped_arg.induct) (force split: if_splits list.splits fmt_arg.splits)+

lemma unwrap_size: "unwrap e = Some e' \<Longrightarrow> size e' < size e"
  by (cases e) (auto dest: wrapped_arg_size)

function error_chain :: "go_error \<Rightarrow> go_error list" where
  "error_chain e = e # (case unwrap e of None \<Rightarrow> [] | Some e' \<Rightarrow> error_chain e')"
  by pat_completeness auto
termination by (relation "measure size") (simp_all add: unwrap_size)

declare error_chain.simps [simp del]

text \<open>\<open>errors.As\<close>: the first error of the chain with the wanted dynamic type.\<close>

fun as_host :: "go_error \<Rightarrow> raised_exception option" where
  "as_host (HostError ty msg d) = Some \<lparr>ex_Type = ty, ex_Message = msg, ex_Frames = [], ex_Data = d\<rparr>"
| "as_host e = None"

fun as_runtime :: "go_error \<Rightarrow> raised_exception option" where
  "as_runtime (RuntimeError x) = Some x"
| "as_runtime e = None"

fun as_raised :: "go_error \<Rightarrow> raised_exception option" where
  "as_raised (RaisedValue x) = Some x"
| "as_raised e = None"

fun as_raised_ptr :: "go_error \<Rightarrow> raised_exception option" where
  "as_raised_ptr (RaisedPtr x) = Some x"
| "as_raised_ptr e = None"

fun first_some :: "('a \<Rightarrow> 'b option) \<Rightarrow> 'a list \<Rightarrow> 'b option" where
  "first_some f [] = None"
| "first_some f (x # xs) = (case f x of None \<Rightarrow> first_some f xs | Some y \<Rightarrow> Some y)"

definition errors_as :: "(go_error \<Rightarrow> 'b option) \<Rightarrow> go_error \<Rightarrow> 'b option" where
  "errors_as f e = first_some f (error_chain e)"

text \<open>The nil error is \<^const>\<open>None\<close>; \<open>pt\<close> is the text of a \<open>protowire\<close> parse error.\<close>

definition raisedFromError :: "(int \<Rightarrow> string) \<Rightarrow> go_error option \<Rightarrow> raised_exception" where
  "raisedFromError pt err =
     (case err of
        None \<Rightarrow> simple_raised ''RuntimeError'' ''host error''
      | Some e \<Rightarrow>
     (case errors_as as_host e of Some x \<Rightarrow> x | None \<Rightarrow>
     (case errors_as as_runtime e of Some x \<Rightarrow> x | None \<Rightarrow>
     (case errors_as as_raised e of Some x \<Rightarrow> x | None \<Rightarrow>
     (case errors_as as_raised_ptr e of Some x \<Rightarrow> x | None \<Rightarrow>
        simple_raised ''RuntimeError'' (error_text pt e))))))"

definition classifyRuntime :: "raised_exception \<Rightarrow> go_error" where
  "classifyRuntime x =
     (if ex_Type x = ''SyntaxError'' \<or> ex_Type x = ''IndentationError'' \<or> ex_Type x = ''TabError''
      then SyntaxError x else RuntimeError x)"

section \<open>Traceback\<close>

definition traceback_frame :: "stack_frame \<Rightarrow> string" where
  "traceback_frame f =
     (let name = (if sf_FrameName f = [] then ''<module>'' else sf_FrameName f) in
      sprintf ''  File %q, line %d'' [sf_Filename f, decimal_nat (unat (sf_Line f))]
      @ (if sf_HideFrameName f then [] else '', in '' @ name)
      @ [CHR 0x0A]
      @ (if sf_PreviewLine f \<noteq> [] then ''    '' @ sf_PreviewLine f @ [CHR 0x0A] else []))"

definition Traceback :: "raised_exception \<Rightarrow> string" where
  "Traceback e =
     (if ex_Frames e \<noteq> [] then ''Traceback (most recent call last):'' @ [CHR 0x0A] else [])
     @ concat (map traceback_frame (ex_Frames e))
     @ RaisedException_Error e"

section \<open>What a host error becomes\<close>

lemma errors_as_unfold: "errors_as f e = (case f e of Some y \<Rightarrow> Some y | None \<Rightarrow>
    (case unwrap e of None \<Rightarrow> None | Some e' \<Rightarrow> errors_as f e'))"
  by (simp add: errors_as_def error_chain.simps [of e] split: option.split)

text \<open>Wrapping an error with \<open>%w\<close> does not hide the exception inside it.\<close>

lemma errors_as_wrapped: "unwrap e = Some e' \<Longrightarrow> f e = None \<Longrightarrow> errors_as f e = errors_as f e'"
  by (subst errors_as_unfold) simp

text \<open>The first \<open>HostError\<close> of a chain decides the Python exception, however deep it is wrapped.\<close>

lemma first_host_error:
  assumes "error_chain e = us @ HostError ty msg d # vs" and "\<forall>u \<in> set us. as_host u = None"
  shows "raisedFromError pt (Some e) = \<lparr>ex_Type = ty, ex_Message = msg, ex_Frames = [], ex_Data = d\<rparr>"
proof -
  have "first_some as_host (us @ HostError ty msg d # vs) = Some \<lparr>ex_Type = ty, ex_Message = msg, ex_Frames = [], ex_Data = d\<rparr>"
    using assms(2) by (induction us) simp_all
  then show ?thesis by (simp add: raisedFromError_def errors_as_def assms(1))
qed

end
