(* ===== verification/OS_Policy.thy ===== *)
theory OS_Policy
  imports Arena Durations Floats "HOL-Library.Log_Nat"
begin

text \<open>
  The OS policy of a session (\<open>os_policy.go\<close>) and the two's-complement encoding of random seeds.
\<close>

unbundle bit_operations_syntax

section \<open>Random seeds\<close>

text \<open>\<open>big.Int.BitLen\<close> is the bit length of the magnitude; \<open>FillBytes\<close> and the loop that reverses
  its result give the little-endian digits.\<close>

definition bit_len :: "int \<Rightarrow> nat" where
  "bit_len z = floorlog 2 (nat \<bar>z\<bar>)"

definition seed_bytes :: "int \<Rightarrow> bytes" where
  "seed_bytes z =
     (let size = (bit_len z + 8) div 8;
          size = (if size = 0 then 1 else size);
          z' = (if z < 0 then z + 2 ^ (size * 8) else z)
      in le_bytes size (nat z'))"

text \<open>The seed is any Go value; \<open>HBigInt\<close> is \<open>*big.Int\<close> and \<open>VBigInt\<close> \<open>big.Int\<close>.  The nil
  pointer of type \<open>*big.Int\<close> is \<open>HNilPtr\<close>.\<close>

definition encodeRandomSeed :: "protowire \<Rightarrow> Value \<Rightarrow> go_error + bytes" where
  "encodeRandomSeed pw v =
     (let integer = (\<lambda>z. Inr (fieldBytes pw 1 (seed_bytes z)));
          float = (\<lambda>w. if f64_is_nan w \<or> f64_is_inf w then Inl (Errorf ''OSPolicy.RandomSeed float must be finite'' [])
                       else Inr (fieldFixed64 pw 2 w))
      in case v of
           HNilPtr \<Rightarrow> Inl (Errorf ''OSPolicy.RandomSeed cannot be a nil *big.Int'' [])
         | HBigInt z \<Rightarrow> integer z
         | VBigInt z \<Rightarrow> integer z
         | VBytes b \<Rightarrow> Inr (fieldBytes pw 4 b)
         | VInt64 w \<Rightarrow> integer (sint w)
         | HInt k w \<Rightarrow> integer (sint w)
         | HDuration w \<Rightarrow> integer (sint w)
         | HUint k u \<Rightarrow> integer (uint u)
         | VFloat64 w \<Rightarrow> float w
         | HFloat32 w \<Rightarrow> float w
         | VString s \<Rightarrow> Inr (fieldString pw 3 s)
         | VType s \<Rightarrow> Inr (fieldString pw 3 s)
         | VInstanceType s \<Rightarrow> Inr (fieldString pw 3 s)
         | VBuiltinFunction s \<Rightarrow> Inr (fieldString pw 3 s)
         | VPath s \<Rightarrow> Inr (fieldString pw 3 s)
         | VRepr s \<Rightarrow> Inr (fieldString pw 3 s)
         | _ \<Rightarrow> Inl (Errorf ''unsupported OSPolicy.RandomSeed type %T'' [AStr (type_name v)]))"

section \<open>The policy\<close>

definition UnlimitedSleep :: uint64 where "UnlimitedSleep = -1"

record os_policy =
  op_DateTime :: string
  op_FixedDateTime :: "go_time option"
  op_TimeZone :: string
  op_FixedTimeZone :: "timezone option"
  op_Sleep :: string
  op_SleepSystemMax :: "uint64 option"
  op_Random :: string
  op_RandomSeed :: "Value option"
  op_ProcessTime :: string

definition policy_datetime :: "protowire \<Rightarrow> os_policy \<Rightarrow> go_error + bytes" where
  "policy_datetime pw x =
     (case op_FixedDateTime x of
        Some t \<Rightarrow>
          if op_DateTime x \<noteq> [] then Inl (Errorf ''OSPolicy.FixedDateTime cannot be combined with DateTime'' [])
          else Inr (fieldMessage pw 3 (fieldVarint pw 1 (gt_Unix t) @ fieldVarint pw 2 (go_div (gt_Nanosecond t) 1000)))
      | None \<Rightarrow>
          if op_DateTime x = [] \<or> op_DateTime x = ''system'' then Inr []
          else if op_DateTime x = ''call_host'' then Inr (fieldMessage pw 2 [])
          else Inl (Errorf ''unknown OSPolicy.DateTime %q'' [AStr (op_DateTime x)]))"

definition policy_timezone :: "protowire \<Rightarrow> os_policy \<Rightarrow> go_error + bytes" where
  "policy_timezone pw x =
     (case op_FixedTimeZone x of
        Some z \<Rightarrow>
          if op_TimeZone x \<noteq> [] then Inl (Errorf ''OSPolicy.FixedTimeZone cannot be combined with TimeZone'' [])
          else if sint (tz_OffsetSeconds z) < -86399 \<or> 86399 < sint (tz_OffsetSeconds z)
            then Inl (Errorf ''OSPolicy.FixedTimeZone offset must be within 86399 seconds of UTC'' [])
          else Inr (fieldMessage pw 4 (fieldMessage pw 3 (encodeTimeZone pw z)))
      | None \<Rightarrow>
          if op_TimeZone x \<noteq> [] then
            Inr (fieldMessage pw 4 (if op_TimeZone x \<noteq> ''utc'' then fieldString pw 2 (op_TimeZone x)
                                    else fieldMessage pw 1 []))
          else Inr [])"

text \<open>The sleep field, if any, and the cap of one system sleep.\<close>

definition policy_sleep :: "protowire \<Rightarrow> os_policy \<Rightarrow> go_error + bytes option \<times> uint64" where
  "policy_sleep pw x =
     (let default = 10 * 1000000000 in
      if op_Sleep x = [] \<or> op_Sleep x = ''system'' then
        (case op_SleepSystemMax x of
           None \<Rightarrow> Inr (None, default)
         | Some c \<Rightarrow>
             if c <s 0 \<and> c \<noteq> UnlimitedSleep
               then Inl (Errorf ''OSPolicy.SleepSystemMax must be non-negative or UnlimitedSleep'' [])
             else if c = UnlimitedSleep then Inr (Some (fieldMessage pw 1 (fieldVarint pw 1 (-1))), c)
             else let c = c - go_mod c 1000 in
               Inr (Some (fieldMessage pw 1 (fieldVarint pw 1 (go_div c 1000))), c))
      else if op_Sleep x = ''call_host'' \<or> op_Sleep x = ''zero'' then
        (case op_SleepSystemMax x of
           Some c \<Rightarrow> Inl (Errorf ''OSPolicy.SleepSystemMax only applies to system sleeps'' [])
         | None \<Rightarrow> Inr (Some (fieldMessage pw (if op_Sleep x = ''zero'' then 3 else 2) []), default))
      else Inl (Errorf ''unknown OSPolicy.Sleep %q'' [AStr (op_Sleep x)]))"

definition policy_random :: "protowire \<Rightarrow> os_policy \<Rightarrow> go_error + bytes" where
  "policy_random pw x =
     (case op_RandomSeed x of
        Some v \<Rightarrow>
          if op_Random x \<noteq> [] then Inl (Errorf ''OSPolicy.RandomSeed cannot be combined with Random'' [])
          else bind_res (encodeRandomSeed pw v) (\<lambda>seed. Inr (fieldMessage pw 8 seed))
      | None \<Rightarrow>
          if op_Random x = [] \<or> op_Random x = ''system'' then Inr []
          else if op_Random x = ''call_host'' then Inr (fieldMessage pw 7 [])
          else Inl (Errorf ''unknown OSPolicy.Random %q'' [AStr (op_Random x)]))"

definition policy_process_time :: "protowire \<Rightarrow> os_policy \<Rightarrow> go_error + bytes" where
  "policy_process_time pw x =
     (if op_ProcessTime x = [] \<or> op_ProcessTime x = ''zero'' then Inr []
      else if op_ProcessTime x = ''elapsed'' then Inr (fieldMessage pw 10 [])
      else Inl (Errorf ''unknown OSPolicy.ProcessTime %q'' [AStr (op_ProcessTime x)]))"

definition encodeOSPolicy :: "protowire \<Rightarrow> os_policy \<Rightarrow> go_error + bytes \<times> uint64" where
  "encodeOSPolicy pw x =
     bind_res (policy_datetime pw x) (\<lambda>dt.
     bind_res (policy_timezone pw x) (\<lambda>tz.
     bind_res (policy_sleep pw x) (\<lambda>(sleep, cap).
     bind_res (policy_random pw x) (\<lambda>rnd.
     bind_res (policy_process_time pw x) (\<lambda>pt.
       Inr (dt @ tz @ (case sleep of None \<Rightarrow> [] | Some s \<Rightarrow> fieldMessage pw 5 s) @ rnd @ pt, cap))))))"

section \<open>Two's complement\<close>

text \<open>What the bytes mean: signed, little-endian.\<close>

definition twos_value :: "bytes \<Rightarrow> int" where
  "twos_value b =
     (let n = int (le_value b) in if 2 ^ (8 * length b) \<le> 2 * n then n - 2 ^ (8 * length b) else n)"

lemma bit_len_bound: "nat \<bar>z\<bar> < 2 ^ bit_len z"
proof (cases "z = 0")
  case False
  then have "0 < nat \<bar>z\<bar>" by simp
  from floorlog_bounds [OF this, of 2] show ?thesis by (simp add: bit_len_def)
qed (simp add: bit_len_def)

lemma seed_size:
  obtains k where "0 < k" and "\<bar>z\<bar> < 2 ^ (8 * k - 1)" and "length (seed_bytes z) = k"
    and "seed_bytes z = le_bytes k (nat (if z < 0 then z + 2 ^ (8 * k) else z))"
proof -
  define k where "k = (bit_len z + 8) div 8"
  have k: "0 < k" "bit_len z < 8 * k" by (simp_all add: k_def)
  have "nat \<bar>z\<bar> < 2 ^ bit_len z" by (rule bit_len_bound)
  also have "(2 :: nat) ^ bit_len z \<le> 2 ^ (8 * k - 1)" using k by (intro power_increasing) simp_all
  finally have "\<bar>z\<bar> < 2 ^ (8 * k - 1)" by (simp add: nat_less_iff)
  moreover have "seed_bytes z = le_bytes k (nat (if z < 0 then z + 2 ^ (8 * k) else z))"
    using k by (simp add: seed_bytes_def Let_def k_def [symmetric] mult.commute)
  ultimately show ?thesis using that [of k] k(1) by simp
qed

lemma twos_value_seed_bytes: "twos_value (seed_bytes z) = z"
proof -
  obtain k where k: "0 < k" "\<bar>z\<bar> < 2 ^ (8 * k - 1)" "length (seed_bytes z) = k"
    "seed_bytes z = le_bytes k (nat (if z < 0 then z + 2 ^ (8 * k) else z))" by (rule seed_size)
  define H :: int where "H = 2 ^ (8 * k - 1)"
  have two: "(2 :: int) ^ (8 * k) = 2 * H" using k(1) unfolding H_def by (simp flip: power_Suc)
  have z: "\<bar>z\<bar> < H" using k(2) by (simp add: H_def)
  define n where "n = nat (if z < 0 then z + 2 * H else z)"
  have n: "int n = (if z < 0 then z + 2 * H else z)" unfolding n_def using z by auto
  have "int n < 2 ^ (8 * k)" unfolding n two using z by auto
  then have "int n < int (256 ^ k)" by (simp add: power_mult)
  then have "n < 256 ^ k" by linarith
  moreover have "seed_bytes z = le_bytes k n" unfolding k(4) two n_def ..
  ultimately have "le_value (seed_bytes z) = n" by (simp only: le_value_le_bytes mod_less)
  then show ?thesis
    unfolding twos_value_def Let_def k(3) two by (simp only: n, use z in auto)
qed

text \<open>The bytes hold the value with its sign.\<close>

lemma seed_bytes_range:
  "- (2 ^ (8 * length (seed_bytes z) - 1)) \<le> z \<and> z < 2 ^ (8 * length (seed_bytes z) - 1)"
proof -
  obtain k where k: "\<bar>z\<bar> < 2 ^ (8 * k - 1)" "length (seed_bytes z) = k" by (rule seed_size)
  show ?thesis unfolding k(2) using k(1) by linarith
qed

section \<open>The sleep cap\<close>

text \<open>The cap that the host enforces is the one it sends: whole microseconds, or none.\<close>

lemma policy_sleep_cap:
  assumes "policy_sleep pw x = Inr (s, cap)"
  shows "cap = UnlimitedSleep \<or> 0 \<le> sint cap \<and> sint cap mod 1000 = 0"
proof -
  have "0 \<le> sint (c - go_mod c 1000) \<and> sint (c - go_mod c 1000) mod 1000 = 0" if "0 \<le> sint c" for c :: uint64
  proof -
    have r: "sint (go_mod c 1000) = sint c mod 1000" using that by (subst sint_go_mod) simp_all
    have "0 \<le> sint c mod 1000" "sint c mod 1000 \<le> sint c"
      using that by (simp_all add: zmod_le_nonneg_dividend)
    then have "sint (c - go_mod c 1000) = sint c - sint c mod 1000"
      using sint_range [of c] by (subst sint_minus) (simp_all add: r)
    with \<open>sint c mod 1000 \<le> sint c\<close> show ?thesis by (simp add: minus_mod_eq_mult_div)
  qed
  then show ?thesis
    using assms
    by (auto simp: policy_sleep_def Let_def word_sless_alt UnlimitedSleep_def not_less
      split: if_splits option.splits)
qed

end
