(* ===== verification/Host_Modules.thy ===== *)
theory Host_Modules
  imports Encode "HOL-Library.Sublist" "HOL-Library.AList"
begin

text \<open>
  Host modules (\<open>module.go\<close> from line 50 on): identifiers, construction, the module value that an
  import answers, the stubs, and the resolution of a dotted function name.

  The classification of code points by the \<open>unicode\<close> package is the parameter \<open>uc\<close>; the predicate
  \<open>unicode_tables\<close> states what it does on ASCII.
\<close>

section \<open>Strings\<close>

text \<open>Ranging over a string decodes UTF-8; an invalid byte is the rune U+FFFD of size one.\<close>

definition continuation :: "char \<Rightarrow> bool" where
  "continuation c \<longleftrightarrow> 0x80 \<le> (of_char c :: nat) \<and> (of_char c :: nat) \<le> 0xBF"

definition decode_rune :: "char \<Rightarrow> string \<Rightarrow> nat \<times> nat" where
  "decode_rune c rest =
     (let b = of_char c :: nat;
          payload = (\<lambda>i. of_char (rest ! i) mod 64);
          second = (\<lambda>lo hi. rest \<noteq> [] \<and> lo \<le> (of_char (rest ! 0) :: nat) \<and> (of_char (rest ! 0) :: nat) \<le> hi);
          follow = (\<lambda>i. i < length rest \<and> continuation (rest ! i));
          invalid = (0xFFFD, 1)
      in if b < 0x80 then (b, 1)
         else if 0xC2 \<le> b \<and> b \<le> 0xDF then
           (if second 0x80 0xBF then (b mod 32 * 64 + payload 0, 2) else invalid)
         else if 0xE0 \<le> b \<and> b \<le> 0xEF then
           (if second (if b = 0xE0 then 0xA0 else 0x80) (if b = 0xED then 0x9F else 0xBF) \<and> follow 1
            then (b mod 16 * 4096 + payload 0 * 64 + payload 1, 3) else invalid)
         else if 0xF0 \<le> b \<and> b \<le> 0xF4 then
           (if second (if b = 0xF0 then 0x90 else 0x80) (if b = 0xF4 then 0x8F else 0xBF) \<and> follow 1 \<and> follow 2
            then (b mod 8 * 262144 + payload 0 * 4096 + payload 1 * 64 + payload 2, 4) else invalid)
         else invalid)"

fun runes_from :: "nat \<Rightarrow> string \<Rightarrow> (nat \<times> nat) list" where
  "runes_from i [] = []"
| "runes_from i (c # rest) =
     (case decode_rune c rest of (r, n) \<Rightarrow> (i, r) # runes_from (i + n) (drop (n - 1) rest))"

text \<open>\<open>strings.Split(name, ".")\<close>\<close>

fun split_dots :: "string \<Rightarrow> string list" where
  "split_dots [] = [[]]"
| "split_dots (c # cs) =
     (if c = CHR ''.'' then [] # split_dots cs
      else (c # hd (split_dots cs)) # tl (split_dots cs))"

definition contains_str :: "string \<Rightarrow> string \<Rightarrow> bool" where
  "contains_str s sub \<longleftrightarrow> list_ex (prefix sub) (suffixes s)"

lemma contains_str_simps:
  "contains_str [] sub \<longleftrightarrow> sub = []" "contains_str (c # s) sub \<longleftrightarrow> prefix sub (c # s) \<or> contains_str s sub"
  by (auto simp: contains_str_def)

section \<open>Identifiers\<close>

record unicode =
  uc_letter :: "nat \<Rightarrow> bool"
  uc_digit :: "nat \<Rightarrow> bool"
  uc_mark :: "nat \<Rightarrow> bool"

definition unicode_tables :: "unicode \<Rightarrow> bool" where
  "unicode_tables uc \<longleftrightarrow> (\<forall>r < 128. (uc_letter uc r \<longleftrightarrow> 65 \<le> r \<and> r \<le> 90 \<or> 97 \<le> r \<and> r \<le> 122)
     \<and> (uc_digit uc r \<longleftrightarrow> 48 \<le> r \<and> r \<le> 57) \<and> \<not> uc_mark uc r)"

definition python_keywords :: string where
  "python_keywords = '' False None True and as assert async await break class continue def del elif else except finally for from global if import in is lambda nonlocal not or pass raise return try while with yield ''"

definition identifier_rune :: "unicode \<Rightarrow> nat \<times> nat \<Rightarrow> bool" where
  "identifier_rune uc p =
     (case p of (i, r) \<Rightarrow> r = 95 \<or> uc_letter uc r \<or> 0 < i \<and> (uc_digit uc r \<or> uc_mark uc r))"

definition pythonIdentifier :: "unicode \<Rightarrow> string \<Rightarrow> bool" where
  "pythonIdentifier uc name \<longleftrightarrow>
     \<not> contains_str python_keywords ('' '' @ name @ '' '')
     \<and> list_all (identifier_rune uc) (runes_from 0 name) \<and> name \<noteq> []"

section \<open>Construction\<close>

definition isHostFunction :: "Value \<Rightarrow> bool" where
  "isHostFunction v = (case v of HAsync f \<Rightarrow> True | HFunc n d \<Rightarrow> True | _ \<Rightarrow> False)"

text \<open>Only named function types can have a \<open>Docstring\<close> method; \<open>AsyncFunction\<close> has none.\<close>

definition functionDoc :: "Value \<Rightarrow> string option" where
  "functionDoc v = (case v of HFunc n d \<Rightarrow> d | _ \<Rightarrow> None)"

text \<open>The random bytes of a fresh identity, with the version and variant bits of UUID 4.\<close>

definition fresh_id :: "uuid \<Rightarrow> uuid" where
  "fresh_id r =
     (let b = uuid_bytes r in
      uuid_of_bytes (b[6 := char_of (of_char (b ! 6) mod 16 + 64 :: nat), 8 := char_of (of_char (b ! 8) mod 64 + 128 :: nat)]))"

record module_options =
  mo_ID :: uuid
  mo_Stubs :: string

text \<open>
  The attributes come in the order in which the range over the map gives them; \<^const>\<open>None\<close> is the nil
  \<open>*ExternalModule\<close>.  \<open>rand\<close> is what \<open>rand.Read\<close> gives.
\<close>

definition module_attr ::
  "unicode \<Rightarrow> string \<times> Value option \<Rightarrow> (string \<times> Value) list \<Rightarrow> (string \<times> Value) list \<times> go_error option" where
  "module_attr uc a attrs =
     (case a of (name, v) \<Rightarrow>
      if prefix ''_'' name then ok attrs
      else if \<not> pythonIdentifier uc name then fail attrs (Errorf ''invalid module attribute %q'' [AStr name])
      else (case v of
              None \<Rightarrow> fail attrs (Errorf ''nil submodule %q'' [AStr name])
            | Some v \<Rightarrow> ok (attrs @ [(name, v)])))"

definition NewExternalModule ::
  "unicode \<Rightarrow> uuid \<Rightarrow> (string \<times> Value option) list \<Rightarrow> module_options list \<Rightarrow> go_error + Value external_module" where
  "NewExternalModule uc rand attrs options =
     (if 1 < length options
      then Inl (Errorf ''NewExternalModule accepts at most one ExternalModuleOptions value'' [])
      else let o1 = (case options of [] \<Rightarrow> \<lparr>mo_ID = 0, mo_Stubs = []\<rparr> | o1 # _ \<Rightarrow> o1);
               i = (if mo_ID o1 = 0 then fresh_id rand else mo_ID o1)
           in bind_res (result_of (fold_res (module_attr uc) attrs []))
                (\<lambda>kept. Inr (ExternalModule i kept (mo_Stubs o1))))"

section \<open>Use\<close>

definition dotted :: "string \<Rightarrow> string \<Rightarrow> string" where
  "dotted name key = name @ ''.'' @ key"

function module_content :: "Value external_module \<Rightarrow> string \<Rightarrow> nat \<Rightarrow> go_error + Value module_value" where
  "module_content m name depth =
     (if 64 < depth then Inl (Errorf ''nil or excessively nested external module %q'' [AStr name])
      else bind_res (map_res
        (\<lambda>(key, v). case v of
             VExternalModule child \<Rightarrow>
               bind_res (module_content child (dotted name key) (depth + 1)) (\<lambda>c. Inr (VString key, VModule c))
           | _ \<Rightarrow> Inr (VString key,
               if isHostFunction v then VFunction \<lparr>fn_Name = dotted name key, fn_Docstring = functionDoc v\<rparr> else v))
        (sort_key fst (em_attrs m)))
        (\<lambda>attrs. Inr (Module name (em_id m) attrs)))"
  by pat_completeness auto
termination by (relation "measure (\<lambda>(m, name, depth). 65 - depth)") auto

declare module_content.simps [simp del]

text \<open>The map of stubs by dotted module name; a later entry overrides an earlier one.\<close>

lemma external_module_size:
  "(key, VExternalModule c) \<in> set (em_attrs m) \<Longrightarrow> size_external_module size c < size_external_module size m"
  by (cases m) (auto dest!: size_list_estimation' [OF _ order_refl, where f = "size_prod (\<lambda>_. 0) size"])

function collectStubs :: "Value external_module \<Rightarrow> string \<Rightarrow> (string \<times> Value) list \<Rightarrow> (string \<times> Value) list" where
  "collectStubs m name stubs =
     fold (\<lambda>(key, v) st. case v of VExternalModule child \<Rightarrow> collectStubs child (dotted name key) st | _ \<Rightarrow> st)
       (em_attrs m)
       (AList.update name (if em_stubs m \<noteq> [] then VString (em_stubs m) else VNil) stubs)"
  by pat_completeness auto
termination
  by (relation "measure (\<lambda>(m, name, stubs). size_external_module size m)") (auto dest: external_module_size)

declare collectStubs.simps [simp del]

fun function_module :: "Value external_module option \<Rightarrow> string list \<Rightarrow> Value external_module option" where
  "function_module m [] = m"
| "function_module None (p # ps) = None"
| "function_module (Some m) (p # ps) =
     (if prefix ''_'' p then None
      else function_module (case map_of (em_attrs m) p of Some (VExternalModule c) \<Rightarrow> Some c | _ \<Rightarrow> None) ps)"

definition modules_function :: "(string \<times> Value external_module) list \<Rightarrow> string \<Rightarrow> Value option" where
  "modules_function modules name =
     (let parts = split_dots name in
      if length parts < 2 then None
      else case function_module (map_of modules (hd parts)) (butlast (tl parts)) of
             None \<Rightarrow> None
           | Some m \<Rightarrow>
               if prefix ''_'' (last parts) then None
               else (case map_of (em_attrs m) (last parts) of
                       Some fn \<Rightarrow> if isHostFunction fn then Some fn else None
                     | None \<Rightarrow> None))"

section \<open>Dotted names\<close>

lemma decode_rune_skips:
  assumes "decode_rune c rest = (r, n)" and "x \<in> set (take (n - 1) rest)"
  shows "0x80 \<le> (of_char x :: nat)"
proof -
  have cases3: "x \<in> {rest ! 0, rest ! 1, rest ! 2}" if "n \<le> 4"
  proof -
    from assms(2) obtain i where i: "i < n - 1" "x = rest ! i" by (auto simp: in_set_conv_nth)
    with that have "i = 0 \<or> i = 1 \<or> i = 2" by auto
    with i(2) show ?thesis by auto
  qed
  show ?thesis
    using assms(1) cases3 assms(2)
    by (cases rest; cases "tl rest")
      (auto simp: decode_rune_def continuation_def Let_def split: if_splits)
qed

lemma identifier_no_dot:
  assumes "unicode_tables uc"
  shows "list_all (identifier_rune uc) (runes_from i s) \<Longrightarrow> CHR ''.'' \<notin> set s"
proof (induction i s rule: runes_from.induct)
  case (2 i c rest)
  obtain r n where r: "decode_rune c rest = (r, n)" by (cases "decode_rune c rest")
  with 2 have "identifier_rune uc (i, r)" and later: "CHR ''.'' \<notin> set (drop (n - 1) rest)" by auto
  have "c \<noteq> CHR ''.''"
  proof
    assume "c = CHR ''.''"
    with r have "r = 46" by (simp add: decode_rune_def)
    with \<open>identifier_rune uc (i, r)\<close> show False
      using assms by (simp add: identifier_rune_def unicode_tables_def)
  qed
  moreover have "CHR ''.'' \<notin> set (take (n - 1) rest)"
    using decode_rune_skips [OF r, of "CHR ''.''"] by auto
  ultimately show ?case
    using later set_append [of "take (n - 1) rest" "drop (n - 1) rest"] by auto
qed simp

lemma split_dots_none: "CHR ''.'' \<notin> set s \<Longrightarrow> split_dots s = [s]"
  by (induction s) auto

lemma split_dots_not_Nil [simp]: "split_dots s \<noteq> []"
  by (induction s) auto

lemma split_dots_dotted: "CHR ''.'' \<notin> set k \<Longrightarrow> split_dots (dotted s k) = split_dots s @ [k]"
  unfolding dotted_def
  by (induction s) (simp_all add: split_dots_none)

lemma split_dots_path:
  "(\<forall>k \<in> set p. CHR ''.'' \<notin> set k) \<Longrightarrow> split_dots (foldl dotted s p) = split_dots s @ p"
  by (induction p arbitrary: s) (simp_all add: split_dots_dotted)

section \<open>Functions of a module\<close>

text \<open>A module as the constructor makes it, all the way down.\<close>

inductive module_ok :: "unicode \<Rightarrow> Value external_module \<Rightarrow> bool" for uc where
  "distinct (map fst (em_attrs m)) \<Longrightarrow>
   (\<And>k v. (k, v) \<in> set (em_attrs m) \<Longrightarrow> pythonIdentifier uc k \<and> \<not> prefix ''_'' k) \<Longrightarrow>
   (\<And>k c. (k, VExternalModule c) \<in> set (em_attrs m) \<Longrightarrow> module_ok uc c) \<Longrightarrow> module_ok uc m"

inductive function_at :: "Value external_module \<Rightarrow> string list \<Rightarrow> Value \<Rightarrow> bool" where
  here: "(k, f) \<in> set (em_attrs m) \<Longrightarrow> isHostFunction f \<Longrightarrow> function_at m [k] f"
| child: "(k, VExternalModule c) \<in> set (em_attrs m) \<Longrightarrow> function_at c p f \<Longrightarrow> function_at m (k # p) f"

inductive marker_at :: "Value module_value \<Rightarrow> string list \<Rightarrow> string \<Rightarrow> bool" where
  here: "(VString k, VFunction f) \<in> set (mod_Attrs m) \<Longrightarrow> marker_at m [k] (fn_Name f)"
| child: "(VString k, VModule c) \<in> set (mod_Attrs m) \<Longrightarrow> marker_at c p n \<Longrightarrow> marker_at m (k # p) n"

lemma map_res_in: "map_res f xs = Inr ys \<Longrightarrow> x \<in> set xs \<Longrightarrow> \<exists>y \<in> set ys. f x = Inr y"
  by (induction xs arbitrary: ys) (auto simp: bind_res_eq_Inr)

lemma content_attr:
  assumes "module_content m name depth = Inr c" and "(k, v) \<in> set (em_attrs m)"
  shows "isHostFunction v \<Longrightarrow>
      (VString k, VFunction \<lparr>fn_Name = dotted name k, fn_Docstring = functionDoc v\<rparr>) \<in> set (mod_Attrs c)"
    and "v = VExternalModule e \<Longrightarrow>
      \<exists>x. (VString k, VModule x) \<in> set (mod_Attrs c) \<and> module_content e (dotted name k) (depth + 1) = Inr x"
  using assms(1) [unfolded module_content.simps [of m]] assms(2)
  by (auto simp: bind_res_eq_Inr isHostFunction_def split: if_splits Value.splits
    dest!: map_res_in [where x = "(k, v)"])

lemma content_marker:
  assumes "function_at m p f" and "module_content m name depth = Inr c"
  shows "marker_at c p (foldl dotted name p)"
  using assms
proof (induction arbitrary: name depth c rule: function_at.induct)
  case (here k f m)
  from marker_at.here [OF content_attr(1) [OF here(3,1,2)]] show ?case by simp
next
  case (child k c' m p f)
  from content_attr(2) [OF child.prems child.hyps(1) refl] obtain x where
    "(VString k, VModule x) \<in> set (mod_Attrs c)" "module_content c' (dotted name k) (depth + 1) = Inr x" by blast
  with child.IH [OF this(2)] show ?case by (simp add: marker_at.child)
qed

lemma function_at_resolves:
  assumes "function_at m p f" and "module_ok uc m"
  shows "\<exists>m' k. p = butlast p @ [k] \<and> function_module (Some m) (butlast p) = Some m' \<and> \<not> prefix ''_'' k
    \<and> map_of (em_attrs m') k = Some f \<and> isHostFunction f \<and> (\<forall>k \<in> set p. pythonIdentifier uc k)"
  using assms
proof (induction rule: function_at.induct)
  case (here k f m)
  then show ?case by (auto elim!: module_ok.cases)
next
  case (child k c m p f)
  from child.prems child.hyps(1) have k: "pythonIdentifier uc k" "\<not> prefix ''_'' k" "module_ok uc c"
    "map_of (em_attrs m) k = Some (VExternalModule c)" by (auto elim!: module_ok.cases)
  from child.IH [OF k(3)] have "p \<noteq> []" by auto
  with child.IH [OF k(3)] k show ?case by auto
qed

lemma module_function_resolves:
  assumes "unicode_tables uc" and "map_of modules name = Some m" and "pythonIdentifier uc name" and "module_ok uc m"
    and "function_at m p f" and "module_content m name 0 = Inr c"
  shows "\<exists>n. marker_at c p n \<and> modules_function modules n = Some f"
proof -
  let ?n = "foldl dotted name p"
  from function_at_resolves [OF assms(5,4)] obtain m' k where p: "p = butlast p @ [k]"
    "function_module (Some m) (butlast p) = Some m'" "\<not> prefix ''_'' k" "map_of (em_attrs m') k = Some f"
    "isHostFunction f" "\<forall>k \<in> set p. pythonIdentifier uc k" by blast
  have nodot: "CHR ''.'' \<notin> set s" if "pythonIdentifier uc s" for s
    using that identifier_no_dot [OF assms(1)] by (auto simp: pythonIdentifier_def)
  have "split_dots ?n = name # p"
    using nodot [OF assms(3)] nodot p(6) by (simp add: split_dots_path split_dots_none)
  moreover have "last p = k" "p \<noteq> []" by (metis p(1) last_snoc, metis p(1) snoc_eq_iff_butlast)
  ultimately have "modules_function modules ?n = Some f"
    using p(2-5) assms(2) by (simp add: modules_function_def Let_def Suc_le_eq)
  then show ?thesis using content_marker [OF assms(5,6)] by blast
qed

section \<open>The constructor\<close>

text \<open>The attributes that the constructor keeps.\<close>

fun public_attrs :: "(string \<times> Value option) list \<Rightarrow> (string \<times> Value) list" where
  "public_attrs [] = []"
| "public_attrs ((k, v) # attrs) =
     (case v of None \<Rightarrow> public_attrs attrs
      | Some x \<Rightarrow> if prefix ''_'' k then public_attrs attrs else (k, x) # public_attrs attrs)"

lemma public_attrs_iff: "(k, v) \<in> set (public_attrs attrs) \<longleftrightarrow> (k, Some v) \<in> set attrs \<and> \<not> prefix ''_'' k"
  by (induction attrs rule: public_attrs.induct) (auto split: option.splits)

lemma public_attrs_distinct: "distinct (map fst attrs) \<Longrightarrow> distinct (map fst (public_attrs attrs))"
  by (induction attrs rule: public_attrs.induct)
    (auto simp: public_attrs_iff image_iff split: option.splits, metis fst_conv)

lemma module_attr_kept:
  assumes "fold_res (module_attr uc) attrs kept = ok r"
  shows "r = kept @ public_attrs attrs
    \<and> (\<forall>(k, v) \<in> set attrs. prefix ''_'' k \<or> pythonIdentifier uc k \<and> v \<noteq> None)"
  using assms
proof (induction attrs arbitrary: kept)
  case (Cons a attrs)
  obtain k v where a: "a = (k, v)" by (cases a)
  show ?case
  proof (cases "module_attr uc a kept")
    case (Pair kept' e)
    with Cons.prems have e: "e = None" by (cases e) auto
    with Pair Cons have IH: "r = kept' @ public_attrs attrs
      \<and> (\<forall>(k, v) \<in> set attrs. prefix ''_'' k \<or> pythonIdentifier uc k \<and> v \<noteq> None)" by simp
    show ?thesis using Pair [unfolded e a] IH
      by (auto simp: a module_attr_def split: if_splits option.splits)
  qed
qed simp

lemma uuid_bytes_uuid_of_bytes: "length b = 16 \<Longrightarrow> uuid_bytes (uuid_of_bytes b) = b"
proof -
  assume b: "length b = 16"
  have "(256 :: nat) ^ 16 = 2 ^ LENGTH(128)" by simp
  with le_value_bound [of b] b have "le_value b < 2 ^ LENGTH(128)" by metis
  then have "unat (uuid_of_bytes b) = le_value b"
    by (simp only: uuid_of_bytes_def unsigned_of_nat take_bit_nat_eq_self of_nat_id)
  then show ?thesis
    using le_bytes_le_value [of b] unfolding b uuid_bytes_def by metis
qed

lemma le_bytes_zero: "le_bytes k 0 = replicate k (char_of (0 :: nat))"
  by (induction k) simp_all

lemma fresh_id_nonzero: "fresh_id r \<noteq> 0"
proof
  assume 0: "fresh_id r = 0"
  define x where "x = (of_char (uuid_bytes r ! 6) mod 16 + 64 :: nat)"
  define b where "b = (uuid_bytes r)[6 := char_of x, 8 := char_of (of_char (uuid_bytes r ! 8) mod 64 + 128 :: nat)]"
  have "length b = 16" by (simp add: b_def)
  then have "uuid_bytes (fresh_id r) = b"
    unfolding fresh_id_def Let_def x_def [symmetric] b_def [symmetric] by (rule uuid_bytes_uuid_of_bytes)
  with 0 have "b ! 6 = uuid_bytes 0 ! 6" by simp
  also have "\<dots> = char_of (0 :: nat)"
    unfolding uuid_bytes_def unsigned_0 le_bytes_zero by (rule nth_replicate) simp
  finally have "char_of x = (char_of (0 :: nat) :: char)" by (simp add: b_def)
  then have "x mod 256 = 0" by (metis of_char_of mod_0)
  moreover have "x < 256" "0 < x" by (simp_all add: x_def)
  ultimately show False by simp
qed

lemma NewExternalModule_ok:
  assumes "NewExternalModule uc rand attrs options = Inr m" and "distinct (map fst attrs)"
    and "\<And>k c. (k, Some (VExternalModule c)) \<in> set attrs \<Longrightarrow> module_ok uc c"
  shows "module_ok uc m \<and> em_id m \<noteq> 0"
proof -
  from assms(1) obtain r st i where r: "fold_res (module_attr uc) attrs [] = ok r" "m = ExternalModule i r st" "i \<noteq> 0"
    using fresh_id_nonzero by (auto simp: NewExternalModule_def Let_def bind_res_eq_Inr result_of_eq_Inr split: if_splits)
  from module_attr_kept [OF r(1)] have m: "em_attrs m = public_attrs attrs"
    and names: "\<And>k v. (k, v) \<in> set attrs \<Longrightarrow> prefix ''_'' k \<or> pythonIdentifier uc k \<and> v \<noteq> None"
    by (auto simp: r(2))
  have "distinct (map fst (em_attrs m))" unfolding m using assms(2) by (rule public_attrs_distinct)
  moreover have "pythonIdentifier uc k \<and> \<not> prefix ''_'' k" if "(k, v) \<in> set (em_attrs m)" for k v
    using that names unfolding m public_attrs_iff by blast
  moreover have "module_ok uc c" if "(k, VExternalModule c) \<in> set (em_attrs m)" for k c
    using that assms(3) unfolding m public_attrs_iff by blast
  ultimately have "module_ok uc m" by (rule module_ok.intros)
  with r(2,3) show ?thesis by simp
qed

end
