(* ===== verification/Session.thy ===== *)
theory Session
  imports Events Snapshot Raise OS_Policy Host_Modules
begin

text \<open>
  The session and its feeds (\<open>session.go\<close>).  A \<open>Session\<close> and the \<open>runState\<close>s and snapshots
  that point to it share memory; the record \<open>session\<close> holds them all, a \<open>*runState\<close> is its
  index in \<open>se_runs\<close>, a snapshot its index in \<open>se_snaps\<close>, where the flag is its \<open>used\<close>.
  \<open>se_sent\<close> records the requests handed to the worker, \<open>se_released\<close> what \<open>Close\<close> told the pool.

  The worker is the environment: an operation that talks to it takes the list of the answers
  that \<open>worker.exchange\<close> will give and uses them up in order; the operation has not returned
  (\<^const>\<open>None\<close>) when the list is too short.  A run's \<open>step\<close> is a natural number: the
  \<open>uint64\<close> of the code does not wrap before \<open>2 ^ 64\<close> resumes of one feed.
\<close>

section \<open>State\<close>

text \<open>
  \<open>ExternalLookup\<close> is an association list with distinct names; its values are any Go values, functions
  included.  The handler \<open>OS\<close> is a host closure: the options say whether there is one, and the
  operations that call it take its answer from their environment.
\<close>

record feed_options =
  fo_Inputs :: "(string \<times> Value) list"
  fo_ExternalLookup :: "(string \<times> Value) list"
  fo_OS :: bool
  fo_SkipTypeCheck :: bool
  fo_Cwd :: string

definition no_options :: feed_options where
  "no_options = \<lparr>fo_Inputs = [], fo_ExternalLookup = [], fo_OS = False, fo_SkipTypeCheck = False, fo_Cwd = []\<rparr>"

text \<open>A pending host future is a channel: empty (\<^const>\<open>None\<close>) until its callback ends.\<close>

type_synonym future_outcome = "go_error + Value"

record run_state =
  rs_options :: feed_options
  rs_futures :: "(uint32 \<times> future_outcome option) list"
  rs_step :: nat
  rs_suspensions :: uint64
  rs_restoring :: bool
  rs_restoreSleepCharged :: bool
  rs_cancelled :: bool

definition newRunState :: "feed_options \<Rightarrow> run_state" where
  "newRunState o1 = \<lparr>rs_options = o1, rs_futures = [], rs_step = 0, rs_suspensions = 0, rs_restoring = False,
     rs_restoreSleepCharged = False, rs_cancelled = False\<rparr>"

datatype snapshot_kind =
    FunctionSnapshot call_event
  | NameLookupSnapshot source_range string "uuid option"
  | FutureSnapshot source_range "uint32 list"

record snapshot =
  sn_state :: nat
  sn_step :: nat
  sn_kind :: snapshot_kind

record session =
  se_closed :: bool
  se_used :: bool
  se_inTurn :: bool
  se_pending :: "nat option"
  se_scriptName :: string
  se_externalModules :: "(string \<times> Value external_module) list option"
  se_maxDuration :: uint64
  se_maxSuspensions :: uint64
  se_maxTotalSleep :: uint64
  se_hasSleepLimit :: bool
  se_sleepUsed :: uint64
  se_systemSleepMax :: uint64
  se_execution :: uint64
  se_durationGrace :: uint64
  se_durationBackstop :: bool
  se_runs :: "run_state list"
  se_snaps :: "(snapshot \<times> bool) list"
  se_sent :: "request list"
  se_released :: "bool option"

type_synonym answers = "(go_error + child_event) list"

text \<open>\<open>Progress\<close>: a finished feed or a snapshot.\<close>

datatype Progress = Complete Value | Suspended nat

definition plain_error :: "string \<Rightarrow> go_error" where
  "plain_error m = Errorf m []"

text \<open>The session that \<open>Checkout\<close> hands out.\<close>

definition new_session ::
  "string \<Rightarrow> (string \<times> Value external_module) list option \<Rightarrow> resource_limits \<Rightarrow> uint64 \<Rightarrow> uint64 \<Rightarrow> bool \<Rightarrow> session" where
  "new_session name modules limits sleepCap grace backstop =
     \<lparr>se_closed = False, se_used = False, se_inTurn = False, se_pending = None, se_scriptName = name,
      se_externalModules = modules, se_maxDuration = rl_MaxDuration limits, se_maxSuspensions = rl_MaxSuspensions limits,
      se_maxTotalSleep = rl_MaxTotalSleep limits, se_hasSleepLimit = (0 <s rl_MaxTotalSleep limits), se_sleepUsed = 0,
      se_systemSleepMax = sleepCap, se_execution = 0, se_durationGrace = grace, se_durationBackstop = backstop,
      se_runs = [], se_snaps = [], se_sent = [], se_released = None\<rparr>"

definition update_run :: "nat \<Rightarrow> (run_state \<Rightarrow> run_state) \<Rightarrow> session \<Rightarrow> session" where
  "update_run r f s = s\<lparr>se_runs := (se_runs s)[r := f (se_runs s ! r)]\<rparr>"

definition cancel_run :: "nat \<Rightarrow> session \<Rightarrow> session" where
  "cancel_run r = update_run r (\<lambda>x. x\<lparr>rs_cancelled := True\<rparr>)"

definition add_snapshot :: "nat \<Rightarrow> snapshot_kind \<Rightarrow> session \<Rightarrow> Progress \<times> session" where
  "add_snapshot r k s = (Suspended (length (se_snaps s)),
     s\<lparr>se_snaps := se_snaps s @ [(\<lparr>sn_state = r, sn_step = rs_step (se_runs s ! r), sn_kind = k\<rparr>, False)]\<rparr>)"

section \<open>Exchanges\<close>

definition maxMicros :: uint64 where "maxMicros = 9223372036854775"

definition observeEvent :: "child_event \<Rightarrow> session \<Rightarrow> session" where
  "observeEvent e s =
     (let s = (case ce_maxSuspensions e of None \<Rightarrow> s | Some n \<Rightarrow> s\<lparr>se_maxSuspensions := n\<rparr>);
          s = s\<lparr>se_execution := ce_totalExecutionMicros e * Microsecond\<rparr>
      in case ce_maxTotalSleepMicros e of
           None \<Rightarrow> s
         | Some n \<Rightarrow>
             let limit = min n maxMicros * Microsecond;
                 s = (if \<not> se_hasSleepLimit s \<or> limit <s se_maxTotalSleep s
                      then s\<lparr>se_maxTotalSleep := limit\<rparr> else s)
             in s\<lparr>se_hasSleepLimit := True\<rparr>)"

definition budget_exhausted :: "session \<Rightarrow> bool" where
  "budget_exhausted s \<longleftrightarrow> se_durationBackstop s \<and> 0 <s se_maxDuration s
     \<and> se_maxDuration s - se_execution s + se_durationGrace s \<le>s 0"

definition duration_exhausted :: go_error where
  "duration_exhausted = CrashedError ''Monty execution duration limit exhausted'' True [] None"

text \<open>\<open>worker.exchange\<close> records the request; \<open>executionExchange\<close> adds the duration watchdog.\<close>

definition worker_exchange ::
  "request \<Rightarrow> session \<Rightarrow> answers \<Rightarrow> ((go_error + child_event) \<times> session \<times> answers) option" where
  "worker_exchange req s as =
     (case as of [] \<Rightarrow> None | a # rest \<Rightarrow> Some (a, s\<lparr>se_sent := se_sent s @ [req]\<rparr>, rest))"

definition executionExchange ::
  "request \<Rightarrow> session \<Rightarrow> answers \<Rightarrow> ((go_error + child_event) \<times> session \<times> answers) option" where
  "executionExchange req s as =
     (if budget_exhausted s then Some (Inl duration_exhausted, s, as)
      else (case worker_exchange req s as of
              None \<Rightarrow> None
            | Some (Inl e, s, rest) \<Rightarrow> Some (Inl e, s, rest)
            | Some (Inr e, s, rest) \<Rightarrow> Some (Inr e, observeEvent e s, rest)))"

lemma executionExchange_shorter:
  "executionExchange req s as = Some (Inr e, s', rest) \<Longrightarrow> length rest < length as"
  by (auto simp: executionExchange_def worker_exchange_def split: if_splits list.splits sum.splits)

section \<open>Progress\<close>

text \<open>
  What \<open>runState.progress\<close> does with one event: it returns, or it aborts the feed with an
  exception and goes on with the worker's next event.
\<close>

datatype event_action = Return "go_error + Progress" session | Abort raised_exception session

definition suspension_event :: "event_kind \<Rightarrow> bool" where
  "suspension_event k \<longleftrightarrow> eventFunctionCall \<le> k \<and> k \<le> eventResolveFutures"

definition suspension_limit :: "session \<Rightarrow> uint64" where
  "suspension_limit s = (if se_maxSuspensions s = 0 then 1000 else se_maxSuspensions s)"

definition count_suspension :: "nat \<Rightarrow> session \<Rightarrow> session" where
  "count_suspension r = update_run r (\<lambda>x.
     if rs_restoring x then x\<lparr>rs_restoring := False\<rparr> else x\<lparr>rs_suspensions := rs_suspensions x + 1\<rparr>)"

definition too_many_suspensions :: raised_exception where
  "too_many_suspensions = simple_raised ''RuntimeError'' ''Monty maximum suspension count exceeded''"

definition too_much_sleep :: raised_exception where
  "too_much_sleep = simple_raised ''TimeoutError'' ''Monty maximum total system sleep exceeded''"

definition protocol_failure :: "(int \<Rightarrow> string) \<Rightarrow> go_error \<Rightarrow> go_error" where
  "protocol_failure pt e = ProtocolError (error_text pt e)"

text \<open>The delay of a system sleep, capped by the policy.\<close>

definition sleep_delay :: "session \<Rightarrow> uint64 \<Rightarrow> uint64" where
  "sleep_delay s w =
     (let d = duration_of_seconds w in
      if se_systemSleepMax s = UnlimitedSleep then d
      else if se_systemSleepMax s <s d then se_systemSleepMax s else d)"

definition is_system_sleep :: "call_event \<Rightarrow> bool" where
  "is_system_sleep c \<longleftrightarrow> ca_Name c = ''system.sleep'' \<or> ca_Name c = ''system.async_sleep''"

definition maxDurationValue :: uint64 where "maxDurationValue = 2 ^ 63 - 1"

text \<open>\<open>c.Args[0].(float64)\<close> panics on anything else; \<open>decodeOSCall\<close> gives these calls one float.\<close>

definition charge_sleep :: "nat \<Rightarrow> bool \<Rightarrow> call_event \<Rightarrow> session \<Rightarrow> event_action" where
  "charge_sleep r restoring c s =
     (case ca_Args c of
        VFloat64 w # rest \<Rightarrow>
          let delay = sleep_delay s w;
              c = c\<lparr>ca_Args := VFloat64 (duration_seconds delay) # rest\<rparr>;
              alreadyCharged = (restoring \<and> rs_restoreSleepCharged (se_runs s ! r))
          in if se_hasSleepLimit s \<and> (se_maxTotalSleep s <s se_sleepUsed s
                 \<or> (\<not> alreadyCharged \<and> se_maxTotalSleep s - se_sleepUsed s <s delay))
             then Abort too_much_sleep s
             else let s = (if alreadyCharged then s
                           else if maxDurationValue - se_sleepUsed s <s delay then s\<lparr>se_sleepUsed := maxDurationValue\<rparr>
                           else s\<lparr>se_sleepUsed := se_sleepUsed s + delay\<rparr>)
                  in (case add_snapshot r (FunctionSnapshot c) s of (p, s) \<Rightarrow> Return (Inr p) s)
      | _ \<Rightarrow> Return (Inl NoProgress) s)"

definition lookup_snapshot :: "protowire \<Rightarrow> bytes \<Rightarrow> go_error + snapshot_kind" where
  "lookup_snapshot pw body =
     bind_res (parse_result pw body
        (\<lambda>f i. if tag f = 2 then set_or_fail (decodeUUID pw (bytes f)) (\<lambda>u. Some u) i else ok i) None)
       (\<lambda>i. Inr (NameLookupSnapshot (decodeSourceRange pw (decodeBytesField pw body 3)) (decodeStringField pw body 1) i))"

text \<open>The switch on the kind, after the bookkeeping.\<close>

definition dispatch_event ::
  "protowire \<Rightarrow> (int \<Rightarrow> string) \<Rightarrow> nat \<Rightarrow> bool \<Rightarrow> event_kind \<Rightarrow> bytes \<Rightarrow> session \<Rightarrow> event_action" where
  "dispatch_event pw pt r restoring k body s =
     (let failed = (\<lambda>e. Return (Inl (protocol_failure pt e)) s);
          suspended = (\<lambda>k. case add_snapshot r k s of (p, s) \<Rightarrow> Return (Inr p) s)
      in case k of
        eventComplete \<Rightarrow>
          (case decodeComplete pw body of
             Inl e \<Rightarrow> failed e
           | Inr v \<Rightarrow> Return (Inr (Complete v)) (s\<lparr>se_pending := None\<rparr>))
      | eventFunctionCall \<Rightarrow>
          (case decodeFunctionCall pw body of Inl e \<Rightarrow> failed e | Inr c \<Rightarrow> suspended (FunctionSnapshot c))
      | eventOSCall \<Rightarrow>
          (case decodeOSCall pw body of
             Inl e \<Rightarrow> failed e
           | Inr c \<Rightarrow> if is_system_sleep c then charge_sleep r restoring c s else suspended (FunctionSnapshot c))
      | eventNameLookup \<Rightarrow>
          (case lookup_snapshot pw body of Inl e \<Rightarrow> failed e | Inr k \<Rightarrow> suspended k)
      | eventResolveFutures \<Rightarrow>
          suspended (FutureSnapshot (decodeSourceRange pw (decodeBytesField pw body 2)) (decodeUint32List pw body 1))
      | eventError \<Rightarrow>
          (case decodeErrorEvent pw body of
             Inl e \<Rightarrow> Return (Inl (protocol_failure pt e)) (s\<lparr>se_pending := None\<rparr>)
           | Inr x \<Rightarrow> Return (Inl (classifyRuntime x)) (s\<lparr>se_pending := None\<rparr>))
      | eventTypingError \<Rightarrow> Return (Inl (TypingError (decodeStringField pw body 1))) (s\<lparr>se_pending := None\<rparr>)
      | eventFatal \<Rightarrow> Return (Inl (ProtocolError (decodeStringField pw body 1))) (s\<lparr>se_pending := None\<rparr>)
      | _ \<Rightarrow> Return (Inl (ProtocolError (sprintf ''unexpected event kind %d during feed''
                [decimal_nat (event_number k)]))) s)"

definition progress_action ::
  "protowire \<Rightarrow> (int \<Rightarrow> string) \<Rightarrow> nat \<Rightarrow> child_event \<Rightarrow> session \<Rightarrow> event_action" where
  "progress_action pw pt r e s =
     (let k = the (ce_kind e);
          restoring = rs_restoring (se_runs s ! r);
          s = (if k = eventComplete \<or> eventError \<le> k then cancel_run r s else s);
          s = (if suspension_event k then count_suspension r s else s)
      in if suspension_event k \<and> suspension_limit s < rs_suspensions (se_runs s ! r)
         then Abort too_many_suspensions s
         else dispatch_event pw pt r restoring k (ce_body e) s)"

definition abort_request :: "protowire \<Rightarrow> raised_exception \<Rightarrow> request" where
  "abort_request pw x = request reqAbortFeed (fieldMessage pw 1 (encodeRaised pw x))"

function progress ::
  "protowire \<Rightarrow> (int \<Rightarrow> string) \<Rightarrow> nat \<Rightarrow> child_event \<Rightarrow> session \<Rightarrow> answers
     \<Rightarrow> ((go_error + Progress) \<times> session \<times> answers) option" where
  "progress pw pt r e s as =
     (case progress_action pw pt r e s of
        Return p s \<Rightarrow> Some (p, s, as)
      | Abort x s \<Rightarrow>
          (case executionExchange (abort_request pw x) s as of
             None \<Rightarrow> None
           | Some (Inl err, s, rest) \<Rightarrow> Some (Inl err, cancel_run r s, rest)
           | Some (Inr e, s, rest) \<Rightarrow> progress pw pt r e s rest))"
  by pat_completeness auto
termination
  by (relation "measure (\<lambda>(pw, pt, r, e, s, as). length as)") (auto dest: executionExchange_shorter)

declare progress.simps [simp del]

end
