(* ===== verification/Session_Ops.thy ===== *)
theory Session_Ops
  imports Session
begin

text \<open>
  The operations of a session and of its snapshots (\<open>session.go\<close>).

  The code holds the session's mutex in short sections and lets go of it while the worker runs a
  feed; \<open>inTurn\<close> marks that window.  An operation with such a window is modelled by its locked
  sections (\<open>FeedStart_begin\<close>, \<open>FeedStart_end\<close>, \<open>exchange_begin\<close>, \<open>exchange_end\<close>,
  \<open>Close_begin\<close>, \<open>Close_end\<close>), and by their composition for a caller that runs alone.  The
  other operations keep the mutex all the time.
\<close>

type_synonym 'a outcome = "((go_error + 'a) \<times> session \<times> answers) option"

definition closed_error :: go_error where "closed_error = plain_error ''Monty session is closed''"
definition turn_error :: go_error where "turn_error = plain_error ''Monty session already has an active protocol turn''"
definition resumed_error :: go_error where "resumed_error = plain_error ''snapshot has already been resumed''"

text \<open>An event that an operation without progress does not expect.\<close>

definition eventErrorValue :: "protowire \<Rightarrow> (int \<Rightarrow> string) \<Rightarrow> child_event \<Rightarrow> go_error" where
  "eventErrorValue pw pt e =
     (case the (ce_kind e) of
        eventError \<Rightarrow>
          (case decodeErrorEvent pw (ce_body e) of
             Inl err \<Rightarrow> ProtocolError (error_text pt err)
           | Inr x \<Rightarrow> classifyRuntime x)
      | eventTypingError \<Rightarrow> TypingError (decodeStringField pw (ce_body e) 1)
      | eventFatal \<Rightarrow> ProtocolError (decodeStringField pw (ce_body e) 1)
      | k \<Rightarrow> ProtocolError (sprintf ''unexpected event kind %d'' [decimal_nat (event_number k)]))"

section \<open>Starting a feed\<close>

definition valid_cwd :: "string \<Rightarrow> bool" where
  "valid_cwd cwd \<longleftrightarrow> cwd = [] \<or> (hd cwd = CHR ''/'' \<and> CHR 0x00 \<notin> set cwd)"

definition feed_guard :: "session \<Rightarrow> go_error option" where
  "feed_guard s =
     (if se_closed s then Some closed_error
      else if se_pending s \<noteq> None
        then Some (plain_error ''Monty session has a suspended feed; resume it before starting another'')
      else if se_inTurn s then Some turn_error
      else None)"

definition FeedStart_begin ::
  "protowire \<Rightarrow> heap \<Rightarrow> string \<Rightarrow> feed_options list \<Rightarrow> session \<Rightarrow> go_error + nat \<times> request \<times> session" where
  "FeedStart_begin pw h code options s =
     (if 1 < length options then Inl (plain_error ''FeedStart accepts at most one FeedOptions value'')
      else let o1 = (case options of [] \<Rightarrow> no_options | o1 # _ \<Rightarrow> o1) in
      if \<not> valid_cwd (fo_Cwd o1)
        then Inl (plain_error ''Cwd must be an absolute virtual POSIX path without NUL bytes'')
      else bind_res (feedRequest pw h code (fo_Inputs o1) (fo_SkipTypeCheck o1) (fo_Cwd o1)) (\<lambda>req.
        case feed_guard s of
          Some e \<Rightarrow> Inl e
        | None \<Rightarrow> Inr (length (se_runs s), req,
            s\<lparr>se_used := True, se_inTurn := True, se_runs := se_runs s @ [newRunState o1]\<rparr>)))"

text \<open>The second locked section, with what \<open>executionExchange\<close> returned.\<close>

definition FeedStart_end ::
  "protowire \<Rightarrow> (int \<Rightarrow> string) \<Rightarrow> nat \<Rightarrow> go_error + child_event \<Rightarrow> session \<Rightarrow> answers \<Rightarrow> Progress outcome" where
  "FeedStart_end pw pt r res s as =
     (let s = s\<lparr>se_inTurn := False\<rparr> in
      case res of
        Inl e \<Rightarrow> Some (Inl e, cancel_run r s, as)
      | Inr e \<Rightarrow>
          (case progress pw pt r e s as of
             None \<Rightarrow> None
           | Some (Inl err, s, as) \<Rightarrow> Some (Inl err, s, as)
           | Some (Inr p, s, as) \<Rightarrow>
               Some (Inr p, (case p of Complete v \<Rightarrow> s | Suspended i \<Rightarrow> s\<lparr>se_pending := Some r\<rparr>), as)))"

definition FeedStart ::
  "protowire \<Rightarrow> (int \<Rightarrow> string) \<Rightarrow> heap \<Rightarrow> string \<Rightarrow> feed_options list \<Rightarrow> session \<Rightarrow> answers \<Rightarrow> Progress outcome" where
  "FeedStart pw pt h code options s as =
     (case FeedStart_begin pw h code options s of
        Inl e \<Rightarrow> Some (Inl e, s, as)
      | Inr (r, req, s) \<Rightarrow>
          (case executionExchange req s as of
             None \<Rightarrow> None
           | Some (res, s, as) \<Rightarrow> FeedStart_end pw pt r res s as))"

section \<open>Resuming\<close>

definition exchange_begin :: "nat \<Rightarrow> nat \<Rightarrow> session \<Rightarrow> go_error + session" where
  "exchange_begin r step s =
     (if se_closed s then Inl closed_error
      else if se_pending s \<noteq> Some r
        then Inl (plain_error ''snapshot no longer belongs to the session's active feed'')
      else if se_inTurn s then Inl turn_error
      else if rs_step (se_runs s ! r) \<noteq> step then Inl resumed_error
      else Inr ((update_run r (\<lambda>x. x\<lparr>rs_step := rs_step x + 1\<rparr>) s)\<lparr>se_inTurn := True\<rparr>))"

definition exchange_end ::
  "protowire \<Rightarrow> (int \<Rightarrow> string) \<Rightarrow> nat \<Rightarrow> go_error + child_event \<Rightarrow> session \<Rightarrow> answers \<Rightarrow> Progress outcome" where
  "exchange_end pw pt r res s as =
     (let s = s\<lparr>se_inTurn := False\<rparr> in
      case res of
        Inl e \<Rightarrow> Some (Inl e, cancel_run r (s\<lparr>se_pending := None\<rparr>), as)
      | Inr e \<Rightarrow> progress pw pt r e s as)"

definition exchange ::
  "protowire \<Rightarrow> (int \<Rightarrow> string) \<Rightarrow> nat \<Rightarrow> request \<Rightarrow> nat \<Rightarrow> session \<Rightarrow> answers \<Rightarrow> Progress outcome" where
  "exchange pw pt r req step s as =
     (case exchange_begin r step s of
        Inl e \<Rightarrow> Some (Inl e, s, as)
      | Inr s \<Rightarrow>
          (case executionExchange req s as of
             None \<Rightarrow> None
           | Some (res, s, as) \<Rightarrow> exchange_end pw pt r res s as))"

text \<open>\<open>claim\<close> of the three snapshot types: the compare-and-swap of \<open>used\<close>.\<close>

definition claim :: "nat \<Rightarrow> session \<Rightarrow> go_error + session" where
  "claim i s =
     (case se_snaps s ! i of (sn, used) \<Rightarrow>
      if used then Inl resumed_error else Inr (s\<lparr>se_snaps := (se_snaps s)[i := (sn, True)]\<rparr>))"

definition snap :: "session \<Rightarrow> nat \<Rightarrow> snapshot" where
  "snap s i = fst (se_snaps s ! i)"

text \<open>A resume: claim the snapshot, make the request, hand it to the run's \<open>exchange\<close>.\<close>

definition resume_with ::
  "protowire \<Rightarrow> (int \<Rightarrow> string) \<Rightarrow> nat \<Rightarrow> go_error + request \<Rightarrow> session \<Rightarrow> answers \<Rightarrow> Progress outcome" where
  "resume_with pw pt i req s as =
     (case req of
        Inl e \<Rightarrow> Some (Inl e, s, as)
      | Inr req \<Rightarrow> exchange pw pt (sn_state (snap s i)) req (sn_step (snap s i)) s as)"

definition claimed ::
  "nat \<Rightarrow> (session \<Rightarrow> answers \<Rightarrow> 'a outcome) \<Rightarrow> session \<Rightarrow> answers \<Rightarrow> 'a outcome" where
  "claimed i run s as = (case claim i s of Inl e \<Rightarrow> Some (Inl e, s, as) | Inr s \<Rightarrow> run s as)"

subsection \<open>Calls\<close>

text \<open>
  \<open>FunctionSnapshot.resume\<close>: a value that cannot cross the boundary is raised inside Python.
\<close>

definition call_answer :: "protowire \<Rightarrow> (int \<Rightarrow> string) \<Rightarrow> heap \<Rightarrow> uint32 \<Rightarrow> resume_result \<Rightarrow> go_error + request" where
  "call_answer pw pt h callID result =
     (case resumeCallRequest pw h callID result of
        Inl e \<Rightarrow> resumeCallRequest pw h callID (resume_raise (simple_raised ''RuntimeError'' (error_text pt e)))
      | Inr req \<Rightarrow> Inr req)"

definition future_result :: "(int \<Rightarrow> string) \<Rightarrow> future_outcome \<Rightarrow> resume_result" where
  "future_result pt out = (case out of Inr v \<Rightarrow> resume_value v | Inl e \<Rightarrow> resume_raise (raisedFromError pt (Some e)))"

definition eager_answer ::
  "protowire \<Rightarrow> (int \<Rightarrow> string) \<Rightarrow> heap \<Rightarrow> uint32 \<Rightarrow> future_outcome \<Rightarrow> go_error + request" where
  "eager_answer pw pt h callID outcome =
     (case resumeFuturesRequest pw h [(callID, future_result pt outcome)] of
        Inl e \<Rightarrow> resumeFuturesRequest pw h
          [(callID, resume_raise (simple_raised ''RuntimeError'' (error_text pt e)))]
      | Inr req \<Rightarrow> Inr req)"

definition call_of :: "session \<Rightarrow> nat \<Rightarrow> call_event" where
  "call_of s i = (case sn_kind (snap s i) of FunctionSnapshot c \<Rightarrow> c | _ \<Rightarrow> undefined)"

definition function_resume ::
  "protowire \<Rightarrow> (int \<Rightarrow> string) \<Rightarrow> heap \<Rightarrow> nat \<Rightarrow> resume_result \<Rightarrow> session \<Rightarrow> answers \<Rightarrow> Progress outcome" where
  "function_resume pw pt h i result s as =
     resume_with pw pt i (call_answer pw pt h (ca_CallID (call_of s i)) result) s as"

definition function_resumeError where
  "function_resumeError pw pt h i err = function_resume pw pt h i (resume_raise (raisedFromError pt err))"

definition function_resumeEager where
  "function_resumeEager pw pt h i outcome s as =
     resume_with pw pt i (eager_answer pw pt h (ca_CallID (call_of s i)) outcome) s as"

definition FunctionSnapshot_Resume where
  "FunctionSnapshot_Resume pw pt h i v = claimed i (function_resume pw pt h i (resume_value v))"

definition FunctionSnapshot_ResumeError where
  "FunctionSnapshot_ResumeError pw pt h i err = claimed i (function_resumeError pw pt h i err)"

definition FunctionSnapshot_ResumeNotHandled where
  "FunctionSnapshot_ResumeNotHandled pw pt h i s as =
     (if \<not> ca_OS (call_of s i) then Some (Inl (plain_error ''NotHandled is only valid for OS calls''), s, as)
      else claimed i (function_resume pw pt h i ((resume_value VNil)\<lparr>rr_notHandled := True\<rparr>)) s as)"

definition FunctionSnapshot_ResumeNotFound where
  "FunctionSnapshot_ResumeNotFound pw pt h i s as =
     claimed i (function_resume pw pt h i ((resume_value VNil)\<lparr>rr_notFound := Some (ca_Name (call_of s i))\<rparr>)) s as"

definition FunctionSnapshot_ResumeFuture where
  "FunctionSnapshot_ResumeFuture pw pt h i s as =
     claimed i (function_resume pw pt h i ((resume_value VNil)\<lparr>rr_future := Some (ca_CallID (call_of s i))\<rparr>)) s as"

definition not_eager :: go_error where "not_eager = plain_error ''this call does not allow eager await''"

definition FunctionSnapshot_ResumeEager where
  "FunctionSnapshot_ResumeEager pw pt h i v s as =
     (if \<not> ca_AllowEagerAwait (call_of s i) then Some (Inl not_eager, s, as)
      else claimed i (function_resumeEager pw pt h i (Inr v)) s as)"

text \<open>A nil error counts as the result \<open>None\<close>.\<close>

definition FunctionSnapshot_ResumeEagerError where
  "FunctionSnapshot_ResumeEagerError pw pt h i err s as =
     (if \<not> ca_AllowEagerAwait (call_of s i) then Some (Inl not_eager, s, as)
      else claimed i (function_resumeEager pw pt h i (case err of None \<Rightarrow> Inr VNil | Some e \<Rightarrow> Inl e)) s as)"

subsection \<open>Names\<close>

definition name_of :: "session \<Rightarrow> nat \<Rightarrow> string \<times> uuid option" where
  "name_of s i = (case sn_kind (snap s i) of NameLookupSnapshot p n j \<Rightarrow> (n, j) | _ \<Rightarrow> ([], None))"

definition name_resume where
  "name_resume pw pt h i v s as = resume_with pw pt i (resumeNameValueRequest pw h v) s as"

definition name_undefined where
  "name_undefined pw pt i s as = resume_with pw pt i (Inr (resumeNameUndefinedRequest pw)) s as"

definition NameLookupSnapshot_Resume where
  "NameLookupSnapshot_Resume pw pt h i v = claimed i (name_resume pw pt h i v)"

definition NameLookupSnapshot_ResumeUndefined where
  "NameLookupSnapshot_ResumeUndefined pw pt i = claimed i (name_undefined pw pt i)"

definition NameLookupSnapshot_ResumeError where
  "NameLookupSnapshot_ResumeError pw pt i err = claimed i (resume_with pw pt i
     (Inr (request reqResumeName (fieldMessage pw 4 (encodeRaised pw (raisedFromError pt err))))))"

text \<open>What \<open>ResumeAuto\<close> answers for a name.\<close>

definition auto_name :: "feed_options \<Rightarrow> string \<times> uuid option \<Rightarrow> Value option" where
  "auto_name o1 n =
     (case snd n of
        Some _ \<Rightarrow> None
      | None \<Rightarrow>
          (case map_of (fo_ExternalLookup o1) (fst n) of
             None \<Rightarrow> None
           | Some v \<Rightarrow>
               Some (if isHostFunction v then VFunction \<lparr>fn_Name = fst n, fn_Docstring = functionDoc v\<rparr> else v)))"

definition options_of :: "session \<Rightarrow> nat \<Rightarrow> feed_options" where
  "options_of s i = rs_options (se_runs s ! sn_state (snap s i))"

definition NameLookupSnapshot_ResumeAuto where
  "NameLookupSnapshot_ResumeAuto pw pt h i = claimed i (\<lambda>s as.
     case auto_name (options_of s i) (name_of s i) of
       None \<Rightarrow> name_undefined pw pt i s as
     | Some v \<Rightarrow> name_resume pw pt h i v s as)"

subsection \<open>Automatic answers to calls\<close>

text \<open>
  \<open>ResumeAuto\<close> either knows the answer, or runs a callback of the host and answers with what that
  gives.  A callback is a sleep, a call of the OS handler, or a call of a host function.
\<close>

datatype callback =
    SleepFor uint64
  | OSHandlerCall string "Value list" "(string \<times> Value) list"
  | HostCall Value "Value list" dict

datatype callback_result = CbValue Value | CbNotHandled | CbError go_error

datatype auto_plan = Answer resume_result | RunCallback bool callback

definition kwargsMap :: "dict \<Rightarrow> go_error + (string \<times> Value) list" where
  "kwargsMap d = result_of (fold_res (\<lambda>p m. case fst p of
       VString k \<Rightarrow> ok (AList.update k (snd p) m)
     | k \<Rightarrow> fail m (Errorf ''keyword name has type %T'' [AStr (type_name k)])) d [])"

definition mustKwargs :: "dict \<Rightarrow> (string \<times> Value) list" where
  "mustKwargs d = (case kwargsMap d of Inl e \<Rightarrow> [] | Inr m \<Rightarrow> m)"

definition resume_error :: "(int \<Rightarrow> string) \<Rightarrow> go_error \<Rightarrow> auto_plan" where
  "resume_error pt e = Answer (resume_raise (raisedFromError pt (Some e)))"

definition imported_module :: "(string \<times> Value external_module) list option \<Rightarrow> call_event \<Rightarrow> (string \<times> Value external_module) option" where
  "imported_module modules c =
     (case ca_Args c of
        VString name # _ \<Rightarrow>
          (case modules of None \<Rightarrow> None
           | Some ms \<Rightarrow> (case map_of ms name of None \<Rightarrow> None | Some m \<Rightarrow> Some (name, m)))
      | _ \<Rightarrow> None)"

definition stubs_value :: "(string \<times> Value external_module) list \<Rightarrow> call_event \<Rightarrow> Value" where
  "stubs_value modules c =
     (let names = (case ca_Args c of VList ns # _ \<Rightarrow> ns | _ \<Rightarrow> []);
          stubs = fold (\<lambda>n st. case n of
              VString name \<Rightarrow> (case map_of modules name of None \<Rightarrow> st | Some m \<Rightarrow> collectStubs m name st)
            | _ \<Rightarrow> st) names []
      in HMap True (map (\<lambda>(k, v). (VString k, v)) stubs))"

definition auto_os :: "(int \<Rightarrow> string) \<Rightarrow> (string \<times> Value external_module) list option \<Rightarrow> bool \<Rightarrow> call_event \<Rightarrow> auto_plan" where
  "auto_os pt modules handler c =
     (let host = (if handler then RunCallback False (OSHandlerCall (ca_Name c) (ca_Args c) (mustKwargs (ca_Kwargs c)))
                  else Answer ((resume_value VNil)\<lparr>rr_notHandled := True\<rparr>))
      in if ca_Name c = ''import'' \<and> imported_module modules c \<noteq> None then
           (let (name, m) = the (imported_module modules c) in
            case module_content m name 0 of
              Inl e \<Rightarrow> resume_error pt e
            | Inr v \<Rightarrow> Answer (resume_value (VModule v)))
         else if ca_Name c = ''import_stubs'' \<and> modules \<noteq> None then
           Answer (resume_value (stubs_value (the modules) c))
         else host)"

definition auto_function ::
  "(int \<Rightarrow> string) \<Rightarrow> (string \<times> Value external_module) list option \<Rightarrow> feed_options \<Rightarrow> call_event \<Rightarrow> auto_plan" where
  "auto_function pt modules o1 c =
     (if ca_MethodCall c then
        resume_error pt (HostError ''RuntimeError'' (''method calls on host objects are not supported: '' @ ca_Name c) None)
      else let fn = (case map_of (fo_ExternalLookup o1) (ca_Name c) of
                       Some f \<Rightarrow> if isHostFunction f then Some f else None
                     | None \<Rightarrow> modules_function (case modules of None \<Rightarrow> [] | Some ms \<Rightarrow> ms) (ca_Name c))
      in case fn of
           None \<Rightarrow> resume_error pt (HostError ''NameError'' (''external function not found: '' @ ca_Name c) None)
         | Some f \<Rightarrow> RunCallback (case f of HAsync g \<Rightarrow> True | _ \<Rightarrow> False) (HostCall f (ca_Args c) (ca_Kwargs c)))"

definition auto_call ::
  "(int \<Rightarrow> string) \<Rightarrow> (string \<times> Value external_module) list option \<Rightarrow> feed_options \<Rightarrow> call_event \<Rightarrow> auto_plan" where
  "auto_call pt modules o1 c =
     (if ca_OS c \<and> is_system_sleep c then
        RunCallback (ca_Name c = ''system.async_sleep'')
          (SleepFor (case ca_Args c of VFloat64 w # _ \<Rightarrow> duration_of_seconds w | _ \<Rightarrow> 0))
      else if ca_OS c then auto_os pt modules (fo_OS o1) c
      else auto_function pt modules o1 c)"

text \<open>
  \<open>NotHandled\<close> is a value of its own type, which cannot be encoded, outside an OS handler.  A sleep
  has no value.
\<close>

definition callback_outcome :: "callback \<Rightarrow> callback_result \<Rightarrow> future_outcome" where
  "callback_outcome cb r =
     (case r of
        CbError e \<Rightarrow> Inl e
      | CbNotHandled \<Rightarrow> Inr (HOther ''monty.notHandled'')
      | CbValue v \<Rightarrow> Inr (case cb of SleepFor d \<Rightarrow> VNil | _ \<Rightarrow> v))"

definition sync_answer :: "(int \<Rightarrow> string) \<Rightarrow> callback \<Rightarrow> callback_result \<Rightarrow> resume_result" where
  "sync_answer pt cb r =
     (case cb of
        OSHandlerCall n args kw \<Rightarrow>
          if r = CbNotHandled then (resume_value VNil)\<lparr>rr_notHandled := True\<rparr>
          else future_result pt (callback_outcome cb r)
      | _ \<Rightarrow> future_result pt (callback_outcome cb r))"

text \<open>
  The callback runs between the claim and the resume.  An asynchronous callback that the worker does
  not await eagerly runs on: its channel joins the futures of the run.
\<close>

definition FunctionSnapshot_ResumeAuto where
  "FunctionSnapshot_ResumeAuto pw pt h env i = claimed i (\<lambda>s as.
     let c = call_of s i; r = sn_state (snap s i) in
     case auto_call pt (se_externalModules s) (options_of s i) c of
       Answer result \<Rightarrow> function_resume pw pt h i result s as
     | RunCallback async cb \<Rightarrow>
         if \<not> async then function_resume pw pt h i (sync_answer pt cb (env cb)) s as
         else if ca_AllowEagerAwait c then function_resumeEager pw pt h i (callback_outcome cb (env cb)) s as
         else function_resume pw pt h i ((resume_value VNil)\<lparr>rr_future := Some (ca_CallID c)\<rparr>)
           (update_run r (\<lambda>x. x\<lparr>rs_futures := AList.update (ca_CallID c) None (rs_futures x)\<rparr>) s) as)"

text \<open>The goroutine of an asynchronous callback sends its outcome.\<close>

definition deliver :: "nat \<Rightarrow> uint32 \<Rightarrow> future_outcome \<Rightarrow> session \<Rightarrow> session" where
  "deliver r i out = update_run r (\<lambda>x.
     x\<lparr>rs_futures := map (\<lambda>(j, c). if j = i \<and> c = None then (j, Some out) else (j, c)) (rs_futures x)\<rparr>)"

subsection \<open>Futures\<close>

definition pending_ids :: "session \<Rightarrow> nat \<Rightarrow> uint32 list" where
  "pending_ids s i = (case sn_kind (snap s i) of FutureSnapshot p ids \<Rightarrow> ids | _ \<Rightarrow> [])"

text \<open>Taking the outcomes that are there; a channel delivers once.\<close>

definition collect_ready ::
  "(int \<Rightarrow> string) \<Rightarrow> uint32 \<Rightarrow> (uint32 \<times> future_outcome option) list \<times> (uint32 \<times> resume_result) list
     \<Rightarrow> (uint32 \<times> future_outcome option) list \<times> (uint32 \<times> resume_result) list" where
  "collect_ready pt i st =
     (let (futures, results) = st in
      case map_of futures i of
        Some (Some out) \<Rightarrow> (AList.delete i futures, results @ [(i, future_result pt out)])
      | _ \<Rightarrow> (futures, results))"

text \<open>
  \<open>choice\<close> is what \<open>reflect.Select\<close> picks: one of the two \<open>Done\<close> channels (\<^const>\<open>None\<close>), or the
  future at an index of the pending calls; it has to be ready.  \<open>ctxErr\<close> is \<open>ctx.Err()\<close>.
\<close>

definition FutureSnapshot_ResumeAuto where
  "FutureSnapshot_ResumeAuto pw pt h ctxErr choice i = claimed i (\<lambda>s as.
     let ids = pending_ids s i; r = sn_state (snap s i); futures = rs_futures (se_runs s ! r) in
     if ids = [] then Some (Inl (ProtocolError ''worker requested no pending futures''), s, as)
     else case filter (\<lambda>j. map_of futures j = None) ids of
       j # _ \<Rightarrow> Some (Inl (ProtocolError (sprintf ''worker requested unknown future %d'' [decimal_nat (unat j)])), s, as)
     | [] \<Rightarrow>
         (case choice of
            None \<Rightarrow> Some (Inl (case ctxErr of Some e \<Rightarrow> e | None \<Rightarrow> Canceled), cancel_run r s, as)
          | Some k \<Rightarrow>
              if length ids \<le> k \<or> map_of futures (ids ! k) = Some None then None
              else (case fold (collect_ready pt) (ids ! k # ids) (futures, []) of
                (futures', results) \<Rightarrow>
                  resume_with pw pt i (resumeFuturesRequest pw h results)
                    (update_run r (\<lambda>x. x\<lparr>rs_futures := futures'\<rparr>) s) as)))"

text \<open>\<open>results\<close> in the order of the range over the map; a value that is an \<open>error\<close> is \<^const>\<open>Inl\<close>.\<close>

definition FutureSnapshot_Resume where
  "FutureSnapshot_Resume pw pt h i results = claimed i (resume_with pw pt i
     (resumeFuturesRequest pw h (map (\<lambda>(j, out). (j, future_result pt out)) results)))"

section \<open>Dumps\<close>

definition dump_result ::
  "protowire \<Rightarrow> (int \<Rightarrow> string) \<Rightarrow> snapshot_metadata \<Rightarrow> ((go_error + child_event) \<times> session \<times> answers) option \<Rightarrow> bytes outcome" where
  "dump_result pw pt meta r =
     (case r of
        None \<Rightarrow> None
      | Some (Inl e, s, as) \<Rightarrow> Some (Inl e, s, as)
      | Some (Inr e, s, as) \<Rightarrow>
          if ce_kind e \<noteq> Some eventDump then Some (Inl (eventErrorValue pw pt e), s, as)
          else Some (Inr (encodeSnapshot pw (decodeBytesField pw (ce_body e) 1) meta), s, as))"

definition snapshotDump :: "protowire \<Rightarrow> (int \<Rightarrow> string) \<Rightarrow> nat \<Rightarrow> nat \<Rightarrow> session \<Rightarrow> answers \<Rightarrow> bytes outcome" where
  "snapshotDump pw pt r step s as =
     (if se_closed s then Some (Inl closed_error, s, as)
      else if se_pending s \<noteq> Some r then Some (Inl (plain_error ''snapshot is no longer active''), s, as)
      else if rs_step (se_runs s ! r) \<noteq> step then Some (Inl resumed_error, s, as)
      else dump_result pw pt
        \<lparr>sm_duration = se_maxDuration s, sm_suspensions = rs_suspensions (se_runs s ! r),
         sm_sleepUsed = se_sleepUsed s, sm_hasSleepUsage = False\<rparr>
        (worker_exchange (request reqDump []) s as))"

text \<open>\<open>Dump\<close> of the three snapshot types.\<close>

definition Snapshot_Dump :: "protowire \<Rightarrow> (int \<Rightarrow> string) \<Rightarrow> nat \<Rightarrow> session \<Rightarrow> answers \<Rightarrow> bytes outcome" where
  "Snapshot_Dump pw pt i s as =
     (if snd (se_snaps s ! i) then Some (Inl resumed_error, s, as)
      else snapshotDump pw pt (sn_state (snap s i)) (sn_step (snap s i)) s as)"

definition Session_Dump :: "protowire \<Rightarrow> (int \<Rightarrow> string) \<Rightarrow> session \<Rightarrow> answers \<Rightarrow> bytes outcome" where
  "Session_Dump pw pt s as =
     (if se_closed s then Some (Inl closed_error, s, as)
      else if se_pending s \<noteq> None
        then Some (Inl (plain_error ''session has a suspended feed; call Snapshot.Dump instead''), s, as)
      else if se_inTurn s then Some (Inl turn_error, s, as)
      else dump_result pw pt
        \<lparr>sm_duration = se_maxDuration s, sm_suspensions = 0, sm_sleepUsed = se_sleepUsed s, sm_hasSleepUsage = False\<rparr>
        (worker_exchange (request reqDump []) s as))"

definition InstallDependencies ::
  "protowire \<Rightarrow> (int \<Rightarrow> string) \<Rightarrow> string list \<Rightarrow> session \<Rightarrow> answers \<Rightarrow> unit outcome" where
  "InstallDependencies pw pt requirements s as =
     (if se_closed s then Some (Inl closed_error, s, as)
      else if se_pending s \<noteq> None
        then Some (Inl (plain_error ''cannot install dependencies while a feed is suspended''), s, as)
      else if se_inTurn s then Some (Inl turn_error, s, as)
      else (case worker_exchange (request reqInstall (concat (map (fieldString pw 1) requirements))) s as of
              None \<Rightarrow> None
            | Some (Inl e, s, as) \<Rightarrow> Some (Inl e, s, as)
            | Some (Inr e, s, as) \<Rightarrow>
                if ce_kind e \<noteq> Some eventOK then Some (Inl (eventErrorValue pw pt e), s, as) else Some (Inr (), s, as)))"

section \<open>Loading\<close>

definition load_guard :: "session \<Rightarrow> go_error option" where
  "load_guard s =
     (if se_closed s then Some closed_error
      else if se_pending s \<noteq> None then Some (plain_error ''session already has state'')
      else if se_inTurn s then Some turn_error
      else if se_used s then Some (plain_error ''LoadSession and LoadSnapshot require a fresh session'')
      else None)"

definition restored_duration :: "uint64 \<Rightarrow> uint64 \<Rightarrow> uint64" where
  "restored_duration own saved = (if own = 0 \<or> (0 <s saved \<and> saved <s own) then saved else own)"

definition load_begin :: "feed_options \<Rightarrow> snapshot_metadata \<Rightarrow> session \<Rightarrow> session" where
  "load_begin o1 m s =
     s\<lparr>se_used := True,
       se_runs := se_runs s @ [(newRunState o1)\<lparr>rs_suspensions := sm_suspensions m, rs_restoring := True,
                                   rs_restoreSleepCharged := sm_hasSleepUsage m\<rparr>],
       se_sleepUsed := sm_sleepUsed m,
       se_maxDuration := restored_duration (se_maxDuration s) (sm_duration m)\<rparr>"

text \<open>The result \<^const>\<open>None\<close> is an idle session.\<close>

definition load_end ::
  "protowire \<Rightarrow> (int \<Rightarrow> string) \<Rightarrow> nat \<Rightarrow> child_event \<Rightarrow> session \<Rightarrow> answers \<Rightarrow> nat option outcome" where
  "load_end pw pt r e s as =
     (let s = (case ce_restoredScriptName e of None \<Rightarrow> s | Some n \<Rightarrow> s\<lparr>se_scriptName := n\<rparr>);
          s = observeEvent e s
      in if ce_kind e = Some eventOK then Some (Inr None, cancel_run r s, as)
         else (case progress pw pt r e s as of
                 None \<Rightarrow> None
               | Some (Inl err, s, as) \<Rightarrow> Some (Inl err, s, as)
               | Some (Inr (Complete v), s, as) \<Rightarrow> Some (Inl (plain_error ''invalid completed load event''), s, as)
               | Some (Inr (Suspended i), s, as) \<Rightarrow> Some (Inr (Some i), s\<lparr>se_pending := Some r\<rparr>, as)))"

definition load ::
  "protowire \<Rightarrow> (int \<Rightarrow> string) \<Rightarrow> bytes \<Rightarrow> feed_options \<Rightarrow> session \<Rightarrow> answers \<Rightarrow> nat option outcome" where
  "load pw pt state o1 s as =
     (case decodeSnapshot pw state of
        Inl e \<Rightarrow> Some (Inl e, s, as)
      | Inr (workerState, m) \<Rightarrow>
          (case load_guard s of
             Some e \<Rightarrow> Some (Inl e, s, as)
           | None \<Rightarrow>
               let r = length (se_runs s) in
               (case worker_exchange (request reqLoad (fieldBytes pw 1 workerState)) (load_begin o1 m s) as of
                  None \<Rightarrow> None
                | Some (Inl e, s, as) \<Rightarrow> Some (Inl e, s, as)
                | Some (Inr e, s, as) \<Rightarrow> load_end pw pt r e s as)))"

definition LoadSession :: "protowire \<Rightarrow> (int \<Rightarrow> string) \<Rightarrow> bytes \<Rightarrow> session \<Rightarrow> answers \<Rightarrow> unit outcome" where
  "LoadSession pw pt state s as =
     (case load pw pt state no_options s as of
        None \<Rightarrow> None
      | Some (Inl e, s, as) \<Rightarrow> Some (Inl e, s, as)
      | Some (Inr None, s, as) \<Rightarrow> Some (Inr (), s, as)
      | Some (Inr (Some i), s, as) \<Rightarrow>
          Some (Inl (plain_error ''dump contains a suspended feed; use LoadSnapshot''), s, as))"

definition LoadSnapshot ::
  "protowire \<Rightarrow> (int \<Rightarrow> string) \<Rightarrow> bytes \<Rightarrow> feed_options list \<Rightarrow> session \<Rightarrow> answers \<Rightarrow> nat outcome" where
  "LoadSnapshot pw pt state options s as =
     (if 1 < length options
      then Some (Inl (plain_error ''LoadSnapshot accepts at most one FeedOptions value''), s, as)
      else (case load pw pt state (case options of [] \<Rightarrow> no_options | o1 # _ \<Rightarrow> o1) s as of
              None \<Rightarrow> None
            | Some (Inl e, s, as) \<Rightarrow> Some (Inl e, s, as)
            | Some (Inr None, s, as) \<Rightarrow> Some (Inl (plain_error ''dump contains an idle session; use LoadSession''), s, as)
            | Some (Inr (Some i), s, as) \<Rightarrow> Some (Inr i, s, as)))"

section \<open>Closing\<close>

text \<open>\<^const>\<open>None\<close> when the session is already closed: \<open>Close\<close> then does nothing.\<close>

definition Close_begin :: "session \<Rightarrow> go_error + session option" where
  "Close_begin s =
     (if se_closed s then Inr None
      else if se_inTurn s
        then Inl (plain_error ''cannot close a Monty session during an active protocol turn'')
      else let s = s\<lparr>se_closed := True\<rparr>;
               s = (case se_pending s of None \<Rightarrow> s | Some r \<Rightarrow> cancel_run r s)
           in Inr (Some (s\<lparr>se_pending := None\<rparr>)))"

definition Close_end :: "protowire \<Rightarrow> (int \<Rightarrow> string) \<Rightarrow> go_error + child_event \<Rightarrow> session \<Rightarrow> (go_error + unit) \<times> session" where
  "Close_end pw pt res s =
     (case res of
        Inl e \<Rightarrow> (Inl e, s\<lparr>se_released := Some False\<rparr>)
      | Inr e \<Rightarrow>
          if ce_kind e = Some eventOK then (Inr (), s\<lparr>se_released := Some True\<rparr>)
          else (Inl (eventErrorValue pw pt e), s\<lparr>se_released := Some False\<rparr>))"

definition Close :: "protowire \<Rightarrow> (int \<Rightarrow> string) \<Rightarrow> session \<Rightarrow> answers \<Rightarrow> unit outcome" where
  "Close pw pt s as =
     (case Close_begin s of
        Inl e \<Rightarrow> Some (Inl e, s, as)
      | Inr None \<Rightarrow> Some (Inr (), s, as)
      | Inr (Some s) \<Rightarrow>
          (case worker_exchange (request reqReset []) s as of
             None \<Rightarrow> None
           | Some (res, s, as) \<Rightarrow> (case Close_end pw pt res s of (r, s) \<Rightarrow> Some (r, s, as))))"

section \<open>Resuming whatever is suspended\<close>

text \<open>
  \<open>ResumeAuto\<close> of whatever the snapshot is; the environment answers callbacks by \<open>env\<close> and picks
  ready futures by \<open>pick\<close>.
\<close>

definition Snapshot_ResumeAuto where
  "Snapshot_ResumeAuto pw pt h env ctxErr pick i s as =
     (case sn_kind (snap s i) of
        FunctionSnapshot c \<Rightarrow> FunctionSnapshot_ResumeAuto pw pt h env i s as
      | NameLookupSnapshot p n j \<Rightarrow> NameLookupSnapshot_ResumeAuto pw pt h i s as
      | FutureSnapshot p ids \<Rightarrow> FutureSnapshot_ResumeAuto pw pt h ctxErr (pick s i) i s as)"

end
