(* ===== verification/Session_Protocol.thy ===== *)
theory Session_Protocol
  imports Main
begin

text \<open>
  The contract of a session, without values, requests and events: which turns may start and end, and
  which suspensions may be resumed.  A suspension is a pair of a run and a step of that run.
\<close>

datatype turn_kind = Feeding nat | Resuming nat | Closing

record protocol_state =
  ps_closed :: bool
  ps_inTurn :: bool
  ps_pending :: "nat option"
  ps_steps :: "nat list"
  ps_suspensions :: "(nat \<times> nat) list"
  ps_turns :: "turn_kind list"
  ps_resumed :: "(nat \<times> nat) list"

definition idle :: "protocol_state \<Rightarrow> bool" where
  "idle p \<longleftrightarrow> \<not> ps_closed p \<and> ps_pending p = None \<and> \<not> ps_inTurn p"

text \<open>The suspension that a run is about to make, and its record.\<close>

definition suspend :: "nat \<Rightarrow> protocol_state \<Rightarrow> protocol_state" where
  "suspend r p = p\<lparr>ps_suspensions := ps_suspensions p @ [(r, ps_steps p ! r)]\<rparr>"

inductive protocol_step :: "protocol_state \<Rightarrow> protocol_state \<Rightarrow> bool" where
  begin_feed: "idle p \<Longrightarrow> protocol_step p
    (p\<lparr>ps_inTurn := True, ps_steps := ps_steps p @ [0], ps_turns := Feeding (length (ps_steps p)) # ps_turns p\<rparr>)"
| end_feed: "ps_turns p = ts @ Feeding r # us \<Longrightarrow> protocol_step p (p\<lparr>ps_inTurn := False, ps_turns := ts @ us\<rparr>)"
| end_feed_lost: "ps_turns p = ts @ Feeding r # us \<Longrightarrow>
    protocol_step p (p\<lparr>ps_inTurn := False, ps_turns := ts @ us, ps_pending := None\<rparr>)"
| suspend_feed: "ps_turns p = ts @ Feeding r # us \<Longrightarrow>
    protocol_step p (suspend r (p\<lparr>ps_inTurn := False, ps_turns := ts @ us, ps_pending := Some r\<rparr>))"
| begin_resume: "\<not> ps_closed p \<Longrightarrow> \<not> ps_inTurn p \<Longrightarrow> ps_pending p = Some r \<Longrightarrow> (r, st) \<in> set (ps_suspensions p) \<Longrightarrow>
    ps_steps p ! r = st \<Longrightarrow>
    protocol_step p (p\<lparr>ps_inTurn := True, ps_steps := (ps_steps p)[r := Suc st],
      ps_turns := Resuming r # ps_turns p, ps_resumed := (r, st) # ps_resumed p\<rparr>)"
| end_resume: "ps_turns p = ts @ Resuming r # us \<Longrightarrow> protocol_step p (p\<lparr>ps_inTurn := False, ps_turns := ts @ us\<rparr>)"
| end_resume_done: "ps_turns p = ts @ Resuming r # us \<Longrightarrow>
    protocol_step p (p\<lparr>ps_inTurn := False, ps_turns := ts @ us, ps_pending := None\<rparr>)"
| suspend_resume: "ps_turns p = ts @ Resuming r # us \<Longrightarrow>
    protocol_step p (suspend r (p\<lparr>ps_inTurn := False, ps_turns := ts @ us\<rparr>))"
| load_idle: "idle p \<Longrightarrow> protocol_step p (p\<lparr>ps_steps := ps_steps p @ [0]\<rparr>)"
| load_suspended: "idle p \<Longrightarrow> protocol_step p
    (suspend (length (ps_steps p)) (p\<lparr>ps_steps := ps_steps p @ [0], ps_pending := Some (length (ps_steps p))\<rparr>))"
| begin_close: "\<not> ps_closed p \<Longrightarrow> \<not> ps_inTurn p \<Longrightarrow>
    protocol_step p (p\<lparr>ps_closed := True, ps_pending := None, ps_turns := Closing # ps_turns p\<rparr>)"
| end_close: "ps_turns p = ts @ Closing # us \<Longrightarrow> protocol_step p (p\<lparr>ps_turns := ts @ us\<rparr>)"

section \<open>The invariant\<close>

fun turn_ok :: "protocol_state \<Rightarrow> turn_kind list \<Rightarrow> bool" where
  "turn_ok p [] = (\<not> ps_inTurn p)"
| "turn_ok p [Feeding r] = (ps_inTurn p \<and> ps_pending p = None \<and> r < length (ps_steps p)
     \<and> (\<forall>(q, st) \<in> set (ps_suspensions p). q \<noteq> r))"
| "turn_ok p [Resuming r] = (ps_inTurn p \<and> ps_pending p = Some r
     \<and> (\<forall>(q, st) \<in> set (ps_suspensions p). q = r \<longrightarrow> st < ps_steps p ! r))"
| "turn_ok p [Closing] = (\<not> ps_inTurn p \<and> ps_closed p)"
| "turn_ok p ts = False"

definition protocol_inv :: "protocol_state \<Rightarrow> bool" where
  "protocol_inv p \<longleftrightarrow> turn_ok p (ps_turns p)
     \<and> (ps_closed p \<longrightarrow> ps_pending p = None \<and> \<not> ps_inTurn p)
     \<and> (\<forall>r. ps_pending p = Some r \<longrightarrow> r < length (ps_steps p))
     \<and> (\<forall>(r, st) \<in> set (ps_suspensions p). r < length (ps_steps p) \<and> st \<le> ps_steps p ! r)
     \<and> distinct (ps_suspensions p)
     \<and> (\<forall>(r, st) \<in> set (ps_resumed p). r < length (ps_steps p) \<and> st < ps_steps p ! r)
     \<and> distinct (ps_resumed p)"

lemma turn_ok_split: "turn_ok p (ts @ t # us) \<Longrightarrow> ts = [] \<and> us = []"
  by (cases ts; cases t; cases us; cases "hd ts"; cases "tl ts") simp_all

lemma turn_ok_none: "turn_ok p ts \<Longrightarrow> \<not> ps_inTurn p \<Longrightarrow> \<not> ps_closed p \<Longrightarrow> ts = []"
  by (cases "(p, ts)" rule: turn_ok.cases) simp_all

lemma turn_ok_length: "turn_ok p ts \<Longrightarrow> length ts \<le> 1"
  by (cases "(p, ts)" rule: turn_ok.cases) simp_all

lemma inv_turn:
  assumes "protocol_inv p" and "ps_turns p = ts @ t # us"
  shows "ts = []" "us = []" "turn_ok p [t]"
  using assms turn_ok_split [of p ts t us] by (auto simp: protocol_inv_def)

lemma inv_no_turn: "protocol_inv p \<Longrightarrow> \<not> ps_inTurn p \<Longrightarrow> \<not> ps_closed p \<Longrightarrow> ps_turns p = []"
  by (auto simp: protocol_inv_def dest: turn_ok_none)

lemma suspensions_append: "(\<forall>(r, st) \<in> set ks. r < length xs \<and> P r st (xs ! r)) \<Longrightarrow>
    (\<forall>(r, st) \<in> set ks. r < length (xs @ ys) \<and> P r st ((xs @ ys) ! r))"
  by (auto simp: nth_append)

lemma protocol_step_inv: "protocol_step p p' \<Longrightarrow> protocol_inv p \<Longrightarrow> protocol_inv p'"
proof (induction rule: protocol_step.induct)
  case (begin_feed p)
  then have "ps_turns p = []" by (auto simp: idle_def intro: inv_no_turn)
  with begin_feed show ?case
    by (auto simp: protocol_inv_def idle_def nth_append split: prod.splits)
next
  case (end_feed p ts r us)
  from inv_turn [OF end_feed(2,1)] end_feed(2) show ?case by (auto simp: protocol_inv_def)
next
  case (end_feed_lost p ts r us)
  from inv_turn [OF end_feed_lost(2,1)] end_feed_lost(2) show ?case by (auto simp: protocol_inv_def)
next
  case (suspend_feed p ts r us)
  from inv_turn [OF suspend_feed(2,1)] suspend_feed(2) show ?case
    by (auto simp: protocol_inv_def suspend_def)
next
  case (begin_resume p r st)
  then have "ps_turns p = []" by (auto intro: inv_no_turn)
  with begin_resume show ?case
    by (auto simp: protocol_inv_def nth_list_update le_imp_less_Suc less_Suc_eq split: prod.splits)
next
  case (end_resume p ts r us)
  from inv_turn [OF end_resume(2,1)] end_resume(2) show ?case by (auto simp: protocol_inv_def)
next
  case (end_resume_done p ts r us)
  from inv_turn [OF end_resume_done(2,1)] end_resume_done(2) show ?case by (auto simp: protocol_inv_def)
next
  case (suspend_resume p ts r us)
  from inv_turn [OF suspend_resume(2,1)] suspend_resume(2) show ?case
    by (auto simp: protocol_inv_def suspend_def)
next
  case (load_idle p)
  then have "ps_turns p = []" by (auto simp: idle_def intro: inv_no_turn)
  with load_idle show ?case by (auto simp: protocol_inv_def idle_def nth_append split: prod.splits)
next
  case (load_suspended p)
  then have "ps_turns p = []" by (auto simp: idle_def intro: inv_no_turn)
  with load_suspended show ?case
    by (auto simp: protocol_inv_def idle_def suspend_def nth_append split: prod.splits)
next
  case (begin_close p)
  then have "ps_turns p = []" by (auto intro: inv_no_turn)
  with begin_close show ?case by (auto simp: protocol_inv_def)
next
  case (end_close p ts us)
  from inv_turn [OF end_close(2,1)] end_close(2) show ?case by (auto simp: protocol_inv_def)
qed

end
