(* ===== verification/Session_Inv.thy ===== *)
theory Session_Inv
  imports Session_Ops Session_Protocol
begin

text \<open>
  What the operations of a session keep: the frame of each step, the transition system in which the
  locked sections of any number of callers interleave, and its invariant.
\<close>

section \<open>Frames\<close>

text \<open>The parts of a session that only the operations themselves change, not the handling of an event.\<close>

definition frame :: "session \<Rightarrow> bool \<times> bool \<times> bool \<times> nat list" where
  "frame s = (se_closed s, se_used s, se_inTurn s, map rs_step (se_runs s))"

lemma frame_eqD:
  assumes "frame s' = frame s"
  shows "se_closed s' = se_closed s" "se_used s' = se_used s" "se_inTurn s' = se_inTurn s"
    "length (se_runs s') = length (se_runs s)" "r < length (se_runs s) \<Longrightarrow> rs_step (se_runs s' ! r) = rs_step (se_runs s ! r)"
proof -
  have steps: "map rs_step (se_runs s') = map rs_step (se_runs s)" using assms by (simp add: frame_def)
  then show *: "length (se_runs s') = length (se_runs s)" by (rule map_eq_imp_length_eq)
  show "rs_step (se_runs s' ! r) = rs_step (se_runs s ! r)" if "r < length (se_runs s)"
    using arg_cong [OF steps, of "\<lambda>xs. xs ! r"] that * by simp
qed (use assms in \<open>simp_all add: frame_def\<close>)

named_theorems frame_simps

lemma update_run_frame [frame_simps]:
  assumes "\<And>x. rs_step (f x) = rs_step x"
  shows "frame (update_run r f s) = frame s"
proof -
  have "map rs_step ((se_runs s)[r := f (se_runs s ! r)]) = map rs_step (se_runs s)"
    by (cases "r < length (se_runs s)") (simp_all add: map_update assms list_update_same_conv list_update_beyond)
  then show ?thesis by (simp add: frame_def update_run_def)
qed

lemma update_run_other [simp]:
  "se_snaps (update_run r f s) = se_snaps s" "se_pending (update_run r f s) = se_pending s"
  "se_closed (update_run r f s) = se_closed s" "se_inTurn (update_run r f s) = se_inTurn s"
  "se_sent (update_run r f s) = se_sent s" "se_used (update_run r f s) = se_used s"
  "se_maxSuspensions (update_run r f s) = se_maxSuspensions s"
  "length (se_runs (update_run r f s)) = length (se_runs s)"
  by (simp_all add: update_run_def)

lemma frame_updates [frame_simps]:
  "frame (s\<lparr>se_pending := p\<rparr>) = frame s" "frame (s\<lparr>se_snaps := q\<rparr>) = frame s"
  "frame (s\<lparr>se_sent := w\<rparr>) = frame s" "frame (s\<lparr>se_sleepUsed := d\<rparr>) = frame s"
  "frame (s\<lparr>se_released := z\<rparr>) = frame s" "frame (s\<lparr>se_scriptName := n\<rparr>) = frame s"
  by (simp_all add: frame_def)

lemma cancel_run_frame [frame_simps]: "frame (cancel_run r s) = frame s"
  unfolding cancel_run_def by (rule update_run_frame) simp

lemma count_suspension_frame [frame_simps]: "frame (count_suspension r s) = frame s"
  unfolding count_suspension_def by (rule update_run_frame) simp

lemma cancel_count_other [simp]:
  "se_snaps (cancel_run r s) = se_snaps s" "se_pending (cancel_run r s) = se_pending s"
  "se_sent (cancel_run r s) = se_sent s" "se_closed (cancel_run r s) = se_closed s"
  "se_inTurn (cancel_run r s) = se_inTurn s" "length (se_runs (cancel_run r s)) = length (se_runs s)"
  "se_snaps (count_suspension r s) = se_snaps s" "se_pending (count_suspension r s) = se_pending s"
  "se_sent (count_suspension r s) = se_sent s" "se_maxSuspensions (count_suspension r s) = se_maxSuspensions s"
  "se_maxSuspensions (cancel_run r s) = se_maxSuspensions s"
  by (simp_all add: cancel_run_def count_suspension_def)

lemma observeEvent_frame [frame_simps]: "frame (observeEvent e s) = frame s"
  by (simp add: frame_def observeEvent_def Let_def split: option.split)

lemma observeEvent_other [simp]:
  "se_snaps (observeEvent e s) = se_snaps s" "se_pending (observeEvent e s) = se_pending s"
  "se_sent (observeEvent e s) = se_sent s" "se_runs (observeEvent e s) = se_runs s"
  "se_closed (observeEvent e s) = se_closed s" "se_inTurn (observeEvent e s) = se_inTurn s"
  by (simp_all add: observeEvent_def Let_def split: option.split)

lemma worker_exchange_frame:
  assumes "worker_exchange req s as = Some (res, s', as')"
  shows "frame s' = frame s \<and> se_snaps s' = se_snaps s \<and> se_pending s' = se_pending s \<and> se_runs s' = se_runs s
    \<and> se_sent s' = se_sent s @ [req] \<and> length as' < length as \<and> as \<noteq> [] \<and> res = hd as \<and> as' = tl as"
  using assms by (auto simp: worker_exchange_def frame_simps split: list.splits)

lemma executionExchange_frame:
  assumes "executionExchange req s as = Some (res, s', as')"
  shows "frame s' = frame s \<and> se_snaps s' = se_snaps s \<and> se_pending s' = se_pending s \<and> se_runs s' = se_runs s
    \<and> prefix (se_sent s) (se_sent s') \<and> length as' \<le> length as"
  using assms
  by (auto simp: executionExchange_def frame_simps split: if_splits option.splits sum.splits prod.splits
    dest!: worker_exchange_frame)

section \<open>Handling an event\<close>

text \<open>What a step of \<open>progress\<close> may change, and where it puts a new snapshot.\<close>

definition handled :: "nat \<Rightarrow> session \<Rightarrow> go_error + Progress \<Rightarrow> session \<Rightarrow> bool" where
  "handled r s p s' \<longleftrightarrow> frame s' = frame s \<and> prefix (se_sent s) (se_sent s') \<and>
     (case p of
        Inl e \<Rightarrow> se_snaps s' = se_snaps s \<and> (se_pending s' = se_pending s \<or> se_pending s' = None)
      | Inr (Complete v) \<Rightarrow> se_snaps s' = se_snaps s \<and> se_pending s' = None
      | Inr (Suspended i) \<Rightarrow> i = length (se_snaps s) \<and> se_pending s' = se_pending s
          \<and> (\<exists>k. se_snaps s' = se_snaps s @ [(\<lparr>sn_state = r, sn_step = rs_step (se_runs s ! r), sn_kind = k\<rparr>, False)]))"

definition quiet :: "session \<Rightarrow> session \<Rightarrow> bool" where
  "quiet s s' \<longleftrightarrow> frame s' = frame s \<and> se_snaps s' = se_snaps s \<and> se_pending s' = se_pending s
     \<and> prefix (se_sent s) (se_sent s')"

lemma quiet_handled:
  assumes "quiet s s1" and "handled r s1 p s'" and "r < length (se_runs s)"
  shows "handled r s p s'"
  using assms frame_eqD(5) [of s1 s r]
  by (auto simp: quiet_def handled_def split: sum.splits Progress.splits intro: prefix_order.trans)

lemma add_snapshot_handled:
  "add_snapshot r k s = (p, s') \<Longrightarrow> handled r s (Inr p) s'"
  by (auto simp: add_snapshot_def handled_def frame_simps)

lemma returned_handled: "handled r s (Inl e) s"
  "handled r s (Inl e) (s\<lparr>se_pending := None\<rparr>)" "handled r s (Inr (Complete v)) (s\<lparr>se_pending := None\<rparr>)"
  by (simp_all add: handled_def frame_simps)

lemma charge_sleep_cases:
  "(\<exists>p s'. charge_sleep r restoring c s = Return p s' \<and> handled r s p s') \<or> charge_sleep r restoring c s = Abort too_much_sleep s"
proof (cases "charge_sleep r restoring c s")
  case (Return p s')
  moreover have "handled r s p s'"
    using Return
    by (auto simp: charge_sleep_def Let_def returned_handled add_snapshot_def handled_def frame_simps
      split: list.splits Value.splits if_splits)
  ultimately show ?thesis by blast
next
  case (Abort x s')
  then show ?thesis
    by (auto simp: charge_sleep_def Let_def add_snapshot_def split: list.splits Value.splits if_splits)
qed

lemma dispatch_event_cases:
  "(\<exists>p s'. dispatch_event pw pt r restoring k body s = Return p s' \<and> handled r s p s')
    \<or> dispatch_event pw pt r restoring k body s = Abort too_much_sleep s"
proof (cases "dispatch_event pw pt r restoring k body s = Abort too_much_sleep s")
  case False
  have sleep: "\<exists>p s'. charge_sleep r restoring c s = Return p s' \<and> handled r s p s'"
    if "charge_sleep r restoring c s \<noteq> Abort too_much_sleep s" for c
    using charge_sleep_cases [of r restoring c s] that by blast
  show ?thesis
    using False
    by (cases k) (auto simp: dispatch_event_def Let_def returned_handled split: sum.splits prod.splits
      dest: add_snapshot_handled sleep)
qed simp

lemma progress_action_quiet:
  obtains s1 where "quiet s s1"
    "(\<exists>p s'. progress_action pw pt r e s = Return p s' \<and> handled r s1 p s') \<or> (\<exists>x. progress_action pw pt r e s = Abort x s1)"
proof -
  define k where "k = the (ce_kind e)"
  define s0 where "s0 = (if k = eventComplete \<or> eventError \<le> k then cancel_run r s else s)"
  define s1 where "s1 = (if suspension_event k then count_suspension r s0 else s0)"
  have "quiet s s1" by (simp add: quiet_def s1_def s0_def frame_simps)
  moreover have "progress_action pw pt r e s =
      (if suspension_event k \<and> suspension_limit s1 < rs_suspensions (se_runs s1 ! r)
       then Abort too_many_suspensions s1
       else dispatch_event pw pt r (rs_restoring (se_runs s ! r)) k (ce_body e) s1)"
    unfolding progress_action_def Let_def k_def [symmetric] s0_def [symmetric] s1_def [symmetric] ..
  ultimately show ?thesis
    using that [of s1] dispatch_event_cases [of pw pt r "rs_restoring (se_runs s ! r)" k "ce_body e" s1]
    by (auto split: if_splits)
qed

lemma progress_handled:
  assumes "progress pw pt r e s as = Some (p, s', as')" and "r < length (se_runs s)"
  shows "handled r s p s' \<and> length as' \<le> length as"
  using assms
proof (induction pw pt r e s as rule: progress.induct)
  case (1 pw pt r e s as)
  obtain s1 where s1: "quiet s s1"
    "(\<exists>p s'. progress_action pw pt r e s = Return p s' \<and> handled r s1 p s') \<or> (\<exists>x. progress_action pw pt r e s = Abort x s1)"
    by (rule progress_action_quiet)
  have r: "r < length (se_runs s1)" using "1.prems"(2) s1(1) frame_eqD(4) [of s1 s] by (simp add: quiet_def)
  from s1(2) show ?case
  proof (elim disjE exE conjE)
    fix p1 s2 assume "progress_action pw pt r e s = Return p1 s2" "handled r s1 p1 s2"
    with "1.prems" s1(1) show ?thesis by (auto simp: progress.simps [of pw pt r e s] intro: quiet_handled)
  next
    fix x assume x: "progress_action pw pt r e s = Abort x s1"
    with "1.prems"(1) obtain res s2 as2 where ex: "executionExchange (abort_request pw x) s1 as = Some (res, s2, as2)"
      by (auto simp: progress.simps [of pw pt r e s] split: option.splits)
    have s2: "quiet s1 s2" "length as2 \<le> length as" "se_runs s2 = se_runs s1"
      using executionExchange_frame [OF ex] by (auto simp: quiet_def)
    show ?thesis
    proof (cases res)
      case (Inl err)
      with "1.prems"(1) x ex have "p = Inl err" "s' = cancel_run r s2" "as' = as2"
        by (simp_all add: progress.simps [of pw pt r e s])
      moreover have "handled r s1 (Inl err) (cancel_run r s2)"
        using s2(1) by (simp add: handled_def quiet_def frame_simps)
      ultimately show ?thesis using quiet_handled [OF s1(1)] "1.prems"(2) s2(2) by blast
    next
      case (Inr e2)
      with "1.prems"(1) x ex have "progress pw pt r e2 s2 as2 = Some (p, s', as')"
        by (simp add: progress.simps [of pw pt r e s])
      with "1.IH" [OF x ex [unfolded Inr] _ _ ] r s2 have "handled r s2 p s' \<and> length as' \<le> length as2"
        by simp
      then show ?thesis
        using quiet_handled [OF s2(1) _ r] quiet_handled [OF s1(1)] "1.prems"(2) s2(2) by fastforce
    qed
  qed
qed

section \<open>Interleaved callers\<close>

text \<open>
  A turn is an operation between its two locked sections; any number of goroutines may be in one.
  \<open>wo_resumed\<close> records the accepted resumes by run and step.
\<close>

datatype turn = FeedTurn nat request | ResumeTurn nat request | CloseTurn

record world =
  wo_session :: session
  wo_turns :: "turn list"
  wo_resumed :: "(nat \<times> nat) list"

abbreviation world :: "session \<Rightarrow> turn list \<Rightarrow> (nat \<times> nat) list \<Rightarrow> world" where
  "world s ts rs \<equiv> \<lparr>wo_session = s, wo_turns = ts, wo_resumed = rs\<rparr>"

text \<open>
  One locked section of one caller.  The worker's answers \<open>as\<close> are arbitrary.  \<open>host\<close> is a callback
  that registers, delivers or takes a future, or cancels the run.
\<close>

inductive session_step :: "protowire \<Rightarrow> (int \<Rightarrow> string) \<Rightarrow> heap \<Rightarrow> world \<Rightarrow> world \<Rightarrow> bool" for pw pt h where
  feed_begin: "FeedStart_begin pw h code options s = Inr (r, req, s')
    \<Longrightarrow> session_step pw pt h (world s ts rs) (world s' (FeedTurn r req # ts) rs)"
| feed_end: "executionExchange req s as = Some (res, s1, as1) \<Longrightarrow> FeedStart_end pw pt r res s1 as1 = Some (p, s', as')
    \<Longrightarrow> session_step pw pt h (world s (ts @ FeedTurn r req # us) rs) (world s' (ts @ us) rs)"
| claim: "i < length (se_snaps s) \<Longrightarrow> Session_Ops.claim i s = Inr s'
    \<Longrightarrow> session_step pw pt h (world s ts rs) (world s' ts rs)"
| resume_begin: "i < length (se_snaps s) \<Longrightarrow> snd (se_snaps s ! i) \<Longrightarrow> sn_state (snap s i) = r \<Longrightarrow> sn_step (snap s i) = st
    \<Longrightarrow> exchange_begin r st s = Inr s'
    \<Longrightarrow> session_step pw pt h (world s ts rs) (world s' (ResumeTurn r req # ts) ((r, st) # rs))"
| resume_end: "executionExchange req s as = Some (res, s1, as1) \<Longrightarrow> exchange_end pw pt r res s1 as1 = Some (p, s', as')
    \<Longrightarrow> session_step pw pt h (world s (ts @ ResumeTurn r req # us) rs) (world s' (ts @ us) rs)"
| host: "session_step pw pt h (world s ts rs)
    (world (update_run r (\<lambda>x. x\<lparr>rs_futures := fs, rs_cancelled := c\<rparr>) s) ts rs)"
| snapshot_dump: "i < length (se_snaps s) \<Longrightarrow> Snapshot_Dump pw pt i s as = Some (b, s', as')
    \<Longrightarrow> session_step pw pt h (world s ts rs) (world s' ts rs)"
| session_dump: "Session_Dump pw pt s as = Some (b, s', as')
    \<Longrightarrow> session_step pw pt h (world s ts rs) (world s' ts rs)"
| install: "InstallDependencies pw pt names s as = Some (u, s', as')
    \<Longrightarrow> session_step pw pt h (world s ts rs) (world s' ts rs)"
| load: "Session_Ops.load pw pt state o1 s as = Some (p, s', as')
    \<Longrightarrow> session_step pw pt h (world s ts rs) (world s' ts rs)"
| close_begin: "Close_begin s = Inr (Some s')
    \<Longrightarrow> session_step pw pt h (world s ts rs) (world s' (CloseTurn # ts) rs)"
| close_end: "worker_exchange (request reqReset []) s as = Some (res, s1, as') \<Longrightarrow> Close_end pw pt res s1 = (u, s')
    \<Longrightarrow> session_step pw pt h (world s (ts @ CloseTurn # us) rs) (world s' (ts @ us) rs)"

text \<open>\<open>Checkout\<close> refuses a negative sleep budget; the sleep cap is that of an accepted policy.\<close>

inductive reachable :: "protowire \<Rightarrow> (int \<Rightarrow> string) \<Rightarrow> heap \<Rightarrow> world \<Rightarrow> bool" for pw pt h where
  start: "0 \<le>s rl_MaxTotalSleep limits \<Longrightarrow> cap = UnlimitedSleep \<or> 0 \<le>s cap
    \<Longrightarrow> reachable pw pt h (world (new_session name modules limits cap grace backstop) [] [])"
| step: "reachable pw pt h w \<Longrightarrow> session_step pw pt h w w' \<Longrightarrow> reachable pw pt h w'"

section \<open>The contract is kept\<close>

fun kind_of :: "turn \<Rightarrow> turn_kind" where
  "kind_of (FeedTurn r q) = Feeding r"
| "kind_of (ResumeTurn r q) = Resuming r"
| "kind_of CloseTurn = Closing"

definition snap_key :: "snapshot \<times> bool \<Rightarrow> nat \<times> nat" where
  "snap_key x = (sn_state (fst x), sn_step (fst x))"

definition protocol_of :: "world \<Rightarrow> protocol_state" where
  "protocol_of w =
     \<lparr>ps_closed = se_closed (wo_session w), ps_inTurn = se_inTurn (wo_session w), ps_pending = se_pending (wo_session w),
      ps_steps = map rs_step (se_runs (wo_session w)), ps_suspensions = map snap_key (se_snaps (wo_session w)),
      ps_turns = map kind_of (wo_turns w), ps_resumed = wo_resumed w\<rparr>"

lemma protocol_same:
  assumes "frame s' = frame s" and "map snap_key (se_snaps s') = map snap_key (se_snaps s)" and "se_pending s' = se_pending s"
  shows "protocol_of (world s' ts rs) = protocol_of (world s ts rs)"
  using assms by (simp add: protocol_of_def frame_def)

text \<open>The event of a turn that ends: no suspension, or one.\<close>

lemma handled_protocol:
  assumes "handled r s p s'" and "r < length (se_runs s)"
  shows "(case p of Inr (Suspended i) \<Rightarrow> protocol_of (world s' ts rs) = suspend r (protocol_of (world s ts rs))
    | _ \<Rightarrow> protocol_of (world s' ts rs) = protocol_of (world s ts rs)
        \<or> protocol_of (world s' ts rs) = (protocol_of (world s ts rs))\<lparr>ps_pending := None\<rparr>)"
  using assms by (auto simp: handled_def protocol_of_def frame_def suspend_def snap_key_def
    split: sum.splits Progress.splits)

lemma exchange_end_handled:
  assumes "exchange_end pw pt r res s as = Some (p, s', as')" and "r < length (se_runs s)"
  shows "handled r (s\<lparr>se_inTurn := False\<rparr>) p s'"
  using assms
  by (auto simp: exchange_end_def Let_def handled_def frame_simps split: sum.splits dest: progress_handled)

lemma FeedStart_end_handled:
  assumes "FeedStart_end pw pt r res s as = Some (p, s', as')" and "r < length (se_runs s)"
  shows "\<exists>s1. handled r (s\<lparr>se_inTurn := False\<rparr>) p s1
    \<and> s' = (case p of Inr (Suspended i) \<Rightarrow> s1\<lparr>se_pending := Some r\<rparr> | _ \<Rightarrow> s1)"
proof (cases res)
  case (Inl e)
  with assms show ?thesis by (auto simp: FeedStart_end_def Let_def handled_def frame_simps)
next
  case (Inr e)
  with assms obtain q s1 as1 where "progress pw pt r e (s\<lparr>se_inTurn := False\<rparr>) as = Some (q, s1, as1)"
    "p = q" "s' = (case p of Inr (Suspended i) \<Rightarrow> s1\<lparr>se_pending := Some r\<rparr> | _ \<Rightarrow> s1)"
    by (auto simp: FeedStart_end_def Let_def split: option.splits sum.splits Progress.splits)
  with progress_handled [OF this(1)] assms(2) show ?thesis by auto
qed

lemma execution_protocol:
  assumes "executionExchange req s as = Some (res, s1, as1)"
  shows "protocol_of (world (s1\<lparr>se_inTurn := b\<rparr>) us rs)
    = (protocol_of (world s ts rs))\<lparr>ps_inTurn := b, ps_turns := map kind_of us\<rparr>"
  using executionExchange_frame [OF assms] by (simp add: protocol_of_def frame_def)

lemma suspend_pending: "(suspend r p)\<lparr>ps_pending := x\<rparr> = suspend r (p\<lparr>ps_pending := x\<rparr>)"
  by (simp add: suspend_def)

lemma load_protocol:
  assumes "Session_Ops.load pw pt state o1 s as = Some (p, s', as')" and "protocol_inv (protocol_of (world s ts rs))"
  shows "protocol_of (world s' ts rs) = protocol_of (world s ts rs)
    \<or> protocol_step (protocol_of (world s ts rs)) (protocol_of (world s' ts rs))"
proof (cases "\<exists>m ws. decodeSnapshot pw state = Inr (ws, m) \<and> load_guard s = None")
  case False
  with assms(1) have "s' = s" by (auto simp: Session_Ops.load_def split: sum.splits option.splits)
  then show ?thesis by simp
next
  case True
  then obtain m ws where m: "decodeSnapshot pw state = Inr (ws, m)" "load_guard s = None" by blast
  let ?r = "length (se_runs s)" and ?s0 = "load_begin o1 m s" and ?p = "protocol_of (world s ts rs)"
  have idle: "idle ?p" using m(2) by (auto simp: load_guard_def idle_def protocol_of_def split: if_splits)
  have s0: "protocol_of (world ?s0 ts rs) = ?p\<lparr>ps_steps := ps_steps ?p @ [0]\<rparr>"
    by (simp add: protocol_of_def load_begin_def newRunState_def)
  from assms(1) m obtain res s1 as1 where ex: "worker_exchange (request reqLoad (fieldBytes pw 1 ws)) ?s0 as = Some (res, s1, as1)"
    by (auto simp: Session_Ops.load_def Let_def split: option.splits)
  from worker_exchange_frame [OF ex] have s1: "protocol_of (world s1 ts rs) = protocol_of (world ?s0 ts rs)"
    "length (se_runs s1) = Suc ?r" by (auto intro!: protocol_same simp: load_begin_def)
  have pend: "ps_pending ?p = None" using idle by (simp add: idle_def)
  show ?thesis
  proof (cases res)
    case (Inl e)
    with assms(1) m ex have "s' = s1" by (simp add: Session_Ops.load_def Let_def)
    with s0 s1 protocol_step.load_idle [OF idle] show ?thesis by simp
  next
    case (Inr e)
    define s2 where "s2 = observeEvent e (case ce_restoredScriptName e of None \<Rightarrow> s1 | Some n \<Rightarrow> s1\<lparr>se_scriptName := n\<rparr>)"
    have s2: "protocol_of (world s2 ts rs) = protocol_of (world s1 ts rs)" "length (se_runs s2) = Suc ?r"
      using s1(2) by (auto simp: s2_def frame_simps intro!: protocol_same split: option.splits)
    from assms(1) m ex Inr have le: "load_end pw pt ?r e s1 as1 = Some (p, s', as')"
      by (simp add: Session_Ops.load_def Let_def)
    show ?thesis
    proof (cases "ce_kind e = Some eventOK")
      case True
      with le have "s' = cancel_run ?r s2" by (simp add: load_end_def Let_def s2_def)
      then have "protocol_of (world s' ts rs) = protocol_of (world s2 ts rs)" by (auto intro!: protocol_same simp: frame_simps)
      with s0 s1 s2 protocol_step.load_idle [OF idle] show ?thesis by simp
    next
      case False
      with le obtain q s3 as3 where q: "progress pw pt ?r e s2 as1 = Some (q, s3, as3)"
        "s' = (case q of Inr (Suspended i) \<Rightarrow> s3\<lparr>se_pending := Some ?r\<rparr> | _ \<Rightarrow> s3)"
        by (auto simp: load_end_def Let_def s2_def split: option.splits sum.splits Progress.splits)
      from progress_handled [OF q(1)] s2(2) have "handled ?r s2 q s3" by simp
      from handled_protocol [OF this, of ts rs] s2(2) have h: "(case q of Inr (Suspended i) \<Rightarrow> protocol_of (world s3 ts rs) = suspend ?r (protocol_of (world s2 ts rs))
        | _ \<Rightarrow> protocol_of (world s3 ts rs) = protocol_of (world s2 ts rs)
          \<or> protocol_of (world s3 ts rs) = (protocol_of (world s2 ts rs))\<lparr>ps_pending := None\<rparr>)" by simp
      have same: "?p\<lparr>ps_steps := ps_steps ?p @ [0], ps_pending := None\<rparr> = ?p\<lparr>ps_steps := ps_steps ?p @ [0]\<rparr>"
        using pend by simp
      have set_pend: "protocol_of (world (s3\<lparr>se_pending := Some ?r\<rparr>) ts rs) = (protocol_of (world s3 ts rs))\<lparr>ps_pending := Some ?r\<rparr>"
        by (simp add: protocol_of_def)
      have len: "length (ps_steps ?p) = ?r" by (simp add: protocol_of_def)
      show ?thesis
      proof (cases "\<exists>i. q = Inr (Suspended i)")
        case True
        with h q(2) set_pend s0 s1(1) s2(1)
        have "protocol_of (world s' ts rs) = (suspend ?r (?p\<lparr>ps_steps := ps_steps ?p @ [0]\<rparr>))\<lparr>ps_pending := Some ?r\<rparr>"
          by auto
        then show ?thesis using protocol_step.load_suspended [OF idle] by (simp add: suspend_pending len)
      next
        case False
        then have "s' = s3" "protocol_of (world s3 ts rs) = protocol_of (world s2 ts rs)
          \<or> protocol_of (world s3 ts rs) = (protocol_of (world s2 ts rs))\<lparr>ps_pending := None\<rparr>"
          using h q(2) by (auto split: sum.splits Progress.splits)
        then show ?thesis using s0 s1(1) s2(1) same protocol_step.load_idle [OF idle] by auto
      qed
    qed
  qed
qed

lemma FeedStart_begin_protocol:
  assumes "FeedStart_begin pw h code options s = Inr (r, req, s')"
  shows "protocol_step (protocol_of (world s ts rs)) (protocol_of (world s' (FeedTurn r req # ts) rs))"
proof -
  let ?p = "protocol_of (world s ts rs)"
  from assms have g: "feed_guard s = None" "r = length (se_runs s)"
    "\<exists>o1. s' = s\<lparr>se_used := True, se_inTurn := True, se_runs := se_runs s @ [newRunState o1]\<rparr>"
    by (auto simp: FeedStart_begin_def Let_def bind_res_eq_Inr split: if_splits option.splits)
  have "idle ?p" using g(1) by (auto simp: feed_guard_def idle_def protocol_of_def split: if_splits)
  from protocol_step.begin_feed [OF this] g(2,3) show ?thesis
    by (auto simp: protocol_of_def newRunState_def)
qed

lemma exchange_begin_protocol:
  assumes "i < length (se_snaps s)" and "exchange_begin (sn_state (snap s i)) (sn_step (snap s i)) s = Inr s'"
    and "protocol_inv (protocol_of (world s ts rs))"
  shows "protocol_step (protocol_of (world s ts rs))
    (protocol_of (world s' (ResumeTurn (sn_state (snap s i)) req # ts) ((sn_state (snap s i), sn_step (snap s i)) # rs)))"
proof -
  let ?p = "protocol_of (world s ts rs)" and ?r = "sn_state (snap s i)" and ?st = "sn_step (snap s i)"
  from assms(2) have g: "\<not> ps_closed ?p" "\<not> ps_inTurn ?p" "ps_pending ?p = Some ?r" "rs_step (se_runs s ! ?r) = ?st"
    and s': "s' = (update_run ?r (\<lambda>x. x\<lparr>rs_step := rs_step x + 1\<rparr>) s)\<lparr>se_inTurn := True\<rparr>"
    by (auto simp: exchange_begin_def protocol_of_def split: if_splits)
  from g(3) assms(3) have r: "?r < length (se_runs s)" by (auto simp: protocol_inv_def protocol_of_def)
  with g(4) have "ps_steps ?p ! ?r = ?st" by (simp add: protocol_of_def)
  moreover have "(?r, ?st) \<in> set (ps_suspensions ?p)"
    using assms(1) nth_mem [OF assms(1)] by (force simp: protocol_of_def snap_key_def snap_def)
  moreover have "protocol_of (world s' (ResumeTurn ?r req # ts) ((?r, ?st) # rs))
      = ?p\<lparr>ps_inTurn := True, ps_steps := (ps_steps ?p)[?r := Suc ?st], ps_turns := Resuming ?r # ps_turns ?p,
          ps_resumed := (?r, ?st) # ps_resumed ?p\<rparr>"
    using g(4) by (simp add: s' protocol_of_def update_run_def map_update)
  ultimately show ?thesis using protocol_step.begin_resume [OF g(1-3)] by simp
qed

lemma feed_end_protocol:
  assumes "executionExchange req s as = Some (res, s1, as1)" and "FeedStart_end pw pt r res s1 as1 = Some (p, s', as')"
    and "protocol_inv (protocol_of (world s (ts @ FeedTurn r req # us) rs))"
  shows "protocol_step (protocol_of (world s (ts @ FeedTurn r req # us) rs)) (protocol_of (world s' (ts @ us) rs))"
proof -
  let ?p = "protocol_of (world s (ts @ FeedTurn r req # us) rs)" and ?ts = "map kind_of ts" and ?us = "map kind_of us"
  have turns: "ps_turns ?p = ?ts @ Feeding r # ?us" by (simp add: protocol_of_def)
  have r: "r < length (se_runs s1)"
    using inv_turn(3) [OF assms(3) turns] executionExchange_frame [OF assms(1)] by (simp add: protocol_of_def)
  from FeedStart_end_handled [OF assms(2) r] obtain s2 where s2: "handled r (s1\<lparr>se_inTurn := False\<rparr>) p s2"
    "s' = (case p of Inr (Suspended i) \<Rightarrow> s2\<lparr>se_pending := Some r\<rparr> | _ \<Rightarrow> s2)" by blast
  have before: "protocol_of (world (s1\<lparr>se_inTurn := False\<rparr>) (ts @ us) rs) = ?p\<lparr>ps_inTurn := False, ps_turns := ?ts @ ?us\<rparr>"
    using execution_protocol [OF assms(1), where b = False and us = "ts @ us" and ts = "ts @ FeedTurn r req # us" and rs = rs] by simp
  have set_pend: "protocol_of (world (s2\<lparr>se_pending := Some r\<rparr>) (ts @ us) rs)
      = (protocol_of (world s2 (ts @ us) rs))\<lparr>ps_pending := Some r\<rparr>"
    by (simp add: protocol_of_def)
  have "r < length (se_runs (s1\<lparr>se_inTurn := False\<rparr>))" using r by simp
  note h = handled_protocol [OF s2(1) this, of "ts @ us" rs, unfolded before]
  show ?thesis
  proof (cases "\<exists>i. p = Inr (Suspended i)")
    case True
    with h s2(2) set_pend have "protocol_of (world s' (ts @ us) rs)
        = (suspend r (?p\<lparr>ps_inTurn := False, ps_turns := ?ts @ ?us\<rparr>))\<lparr>ps_pending := Some r\<rparr>" by auto
    then show ?thesis using protocol_step.suspend_feed [OF turns] by (simp add: suspend_pending)
  next
    case False
    with h s2(2) show ?thesis
      using protocol_step.end_feed [OF turns] protocol_step.end_feed_lost [OF turns]
      by (auto split: sum.splits Progress.splits)
  qed
qed

lemma resume_end_protocol:
  assumes "executionExchange req s as = Some (res, s1, as1)" and "exchange_end pw pt r res s1 as1 = Some (p, s', as')"
    and "protocol_inv (protocol_of (world s (ts @ ResumeTurn r req # us) rs))"
  shows "protocol_step (protocol_of (world s (ts @ ResumeTurn r req # us) rs)) (protocol_of (world s' (ts @ us) rs))"
proof -
  let ?p = "protocol_of (world s (ts @ ResumeTurn r req # us) rs)" and ?ts = "map kind_of ts" and ?us = "map kind_of us"
  have turns: "ps_turns ?p = ?ts @ Resuming r # ?us" by (simp add: protocol_of_def)
  have "ps_pending ?p = Some r" using inv_turn(3) [OF assms(3) turns] by simp
  with assms(3) have "r < length (se_runs s)" by (auto simp: protocol_inv_def protocol_of_def)
  with executionExchange_frame [OF assms(1)] have r: "r < length (se_runs s1)" by simp
  have before: "protocol_of (world (s1\<lparr>se_inTurn := False\<rparr>) (ts @ us) rs) = ?p\<lparr>ps_inTurn := False, ps_turns := ?ts @ ?us\<rparr>"
    using execution_protocol [OF assms(1), where b = False and us = "ts @ us" and ts = "ts @ ResumeTurn r req # us" and rs = rs] by simp
  have "r < length (se_runs (s1\<lparr>se_inTurn := False\<rparr>))" using r by simp
  from handled_protocol [OF exchange_end_handled [OF assms(2) r] this, of "ts @ us" rs, unfolded before]
  show ?thesis
    using protocol_step.end_resume [OF turns] protocol_step.end_resume_done [OF turns] protocol_step.suspend_resume [OF turns]
    by (auto split: sum.splits Progress.splits)
qed

lemma dump_result_frame:
  assumes "dump_result pw pt m r = Some (b, s', as')"
  obtains res as1 where "r = Some (res, s', as1)"
  using assms that by (auto simp: dump_result_def split: option.splits sum.splits if_splits)

lemma quiet_ops_protocol:
  "Session_Dump pw pt s as = Some (b, s', as') \<Longrightarrow> protocol_of (world s' ts rs) = protocol_of (world s ts rs)"
  "snapshotDump pw pt r st s as = Some (b, s', as') \<Longrightarrow> protocol_of (world s' ts rs) = protocol_of (world s ts rs)"
  "InstallDependencies pw pt names s as = Some (u, s', as') \<Longrightarrow> protocol_of (world s' ts rs) = protocol_of (world s ts rs)"
proof -
  have same: "protocol_of (world s' ts rs) = protocol_of (world s ts rs)"
    if "worker_exchange req s as = Some (res, s', as1)" for req res as1
    using worker_exchange_frame [OF that] by (intro protocol_same) simp_all
  show "Session_Dump pw pt s as = Some (b, s', as') \<Longrightarrow> protocol_of (world s' ts rs) = protocol_of (world s ts rs)"
    by (auto simp: Session_Dump_def split: if_splits elim: dump_result_frame intro: same)
  show "snapshotDump pw pt r st s as = Some (b, s', as') \<Longrightarrow> protocol_of (world s' ts rs) = protocol_of (world s ts rs)"
    by (auto simp: snapshotDump_def split: if_splits elim: dump_result_frame intro: same)
  show "InstallDependencies pw pt names s as = Some (u, s', as') \<Longrightarrow> protocol_of (world s' ts rs) = protocol_of (world s ts rs)"
    by (auto simp: InstallDependencies_def split: if_splits option.splits sum.splits intro: same)
qed

lemma Close_begin_protocol:
  assumes "Close_begin s = Inr (Some s')"
  shows "protocol_step (protocol_of (world s ts rs)) (protocol_of (world s' (CloseTurn # ts) rs))"
proof -
  let ?p = "protocol_of (world s ts rs)"
  from assms have g: "\<not> ps_closed ?p" "\<not> ps_inTurn ?p" by (auto simp: Close_begin_def protocol_of_def split: if_splits)
  with assms have "protocol_of (world s' (CloseTurn # ts) rs)
      = ?p\<lparr>ps_closed := True, ps_pending := None, ps_turns := Closing # ps_turns ?p\<rparr>"
    using cancel_run_frame [of _ "s\<lparr>se_closed := True\<rparr>"]
    by (auto simp: Close_begin_def Let_def protocol_of_def frame_def split: option.splits if_splits)
  then show ?thesis using protocol_step.begin_close [OF g] by simp
qed

lemma Close_end_protocol:
  assumes "worker_exchange (request reqReset []) s as = Some (res, s1, as')" and "Close_end pw pt res s1 = (u, s')"
  shows "protocol_step (protocol_of (world s (ts @ CloseTurn # us) rs)) (protocol_of (world s' (ts @ us) rs))"
proof -
  have "protocol_of (world s' (ts @ us) rs) = protocol_of (world s (ts @ us) rs)"
    using worker_exchange_frame [OF assms(1)] assms(2)
    by (intro protocol_same) (auto simp: Close_end_def frame_simps split: sum.splits if_splits)
  then show ?thesis
    using protocol_step.end_close [of "protocol_of (world s (ts @ CloseTurn # us) rs)" "map kind_of ts" "map kind_of us"]
    by (simp add: protocol_of_def)
qed

lemma claim_protocol: "Session_Ops.claim i s = Inr s' \<Longrightarrow> protocol_of (world s' ts rs) = protocol_of (world s ts rs)"
proof -
  assume "Session_Ops.claim i s = Inr s'"
  then have "s' = s\<lparr>se_snaps := (se_snaps s)[i := (fst (se_snaps s ! i), True)]\<rparr>"
    by (auto simp: Session_Ops.claim_def split: prod.splits if_splits)
  moreover have "map snap_key ((se_snaps s)[i := (fst (se_snaps s ! i), True)]) = map snap_key (se_snaps s)"
    by (cases "i < length (se_snaps s)") (simp_all add: map_update snap_key_def list_update_same_conv list_update_beyond)
  ultimately show ?thesis by (intro protocol_same) (simp_all add: frame_simps)
qed

lemma session_step_protocol:
  assumes "session_step pw pt h w w'" and "protocol_inv (protocol_of w)"
  shows "protocol_of w' = protocol_of w \<or> protocol_step (protocol_of w) (protocol_of w')"
  using assms
proof (induction rule: session_step.induct)
  case (feed_begin code options s r req s' ts rs)
  show ?case by (rule disjI2 [OF FeedStart_begin_protocol [OF feed_begin(1)]])
next
  case (feed_end req s as res s1 as1 r p s' as' ts us rs)
  show ?case by (rule disjI2 [OF feed_end_protocol [OF feed_end]])
next
  case (claim i s s' ts rs)
  show ?case by (rule disjI1 [OF claim_protocol [OF claim(2)]])
next
  case (resume_begin i s r st s' ts rs req)
  from exchange_begin_protocol [OF resume_begin(1), of s' ts rs req] resume_begin show ?case by simp
next
  case (resume_end req s as res s1 as1 r p s' as' ts us rs)
  show ?case by (rule disjI2 [OF resume_end_protocol [OF resume_end]])
next
  case (host s ts rs r fs c)
  show ?case by (rule disjI1, rule protocol_same) (simp_all add: frame_simps)
next
  case (snapshot_dump i s as b s' as' ts rs)
  from snapshot_dump(2) show ?case
    unfolding Snapshot_Dump_def by (cases "snd (se_snaps s ! i)") (auto dest: quiet_ops_protocol(2))
next
  case (session_dump s as b s' as' ts rs)
  show ?case by (rule disjI1 [OF quiet_ops_protocol(1) [OF session_dump(1)]])
next
  case (install names s as u s' as' ts rs)
  show ?case by (rule disjI1 [OF quiet_ops_protocol(3) [OF install(1)]])
next
  case (load state o1 s as p s' as' ts rs)
  show ?case by (rule load_protocol [OF load])
next
  case (close_begin s s' ts rs)
  show ?case by (rule disjI2 [OF Close_begin_protocol [OF close_begin(1)]])
next
  case (close_end s as res s1 as' u s' ts us rs)
  show ?case by (rule disjI2 [OF Close_end_protocol [OF close_end(1,2)]])
qed

lemma new_session_inv: "protocol_inv (protocol_of (world (new_session name modules limits cap grace backstop) [] []))"
  by (simp add: protocol_inv_def protocol_of_def new_session_def)

lemma reachable_inv: "reachable pw pt h w \<Longrightarrow> protocol_inv (protocol_of w)"
proof (induction rule: reachable.induct)
  case start show ?case by (rule new_session_inv)
next
  case (step w w')
  then show ?case using session_step_protocol [OF step.hyps(2) step.IH] protocol_step_inv by auto
qed

end
