(* ===== verification/Session_Budget.thy ===== *)
theory Session_Budget
  imports Session_Inv
begin

text \<open>
  The budgets that the host enforces on a feed (\<open>runState.progress\<close>): system sleeps and
  suspensions; that handling an event returns; and that \<open>FeedRun\<close> has enough fuel.
\<close>

section \<open>Durations of sleeps\<close>

lemma round_ratio_bound: "2 * b * round_ratio a b \<le> 2 * a + b"
proof -
  have "2 * b * (a div b) + 2 * (a mod b) = 2 * a"
    by (metis add_mult_distrib2 mult.assoc mult_div_mod_eq)
  then show ?thesis by (auto simp: round_ratio_def Let_def algebra_simps)
qed

lemma scaled_bound:
  fixes p q k e :: nat
  assumes "q = round_ratio p (2 ^ k)" and "R = (if 1074 \<le> k + e then q * 2 ^ (k + e - 1074) else q div 2 ^ (1074 - (k + e)))"
    and "e \<le> 1074"
  shows "2 * R * 2 ^ (1074 - e) \<le> 2 * p + 2 ^ k"
proof -
  have "R * 2 ^ (1074 - e) \<le> q * 2 ^ k"
  proof (cases "1074 \<le> k + e")
    case True
    then have "k + e - 1074 + (1074 - e) = k" using assms(3) by simp
    then show ?thesis using True assms(2) by (simp add: mult.assoc flip: power_add)
  next
    case False
    then have "(2 :: nat) ^ (1074 - e) = 2 ^ (1074 - (k + e)) * 2 ^ k" by (simp flip: power_add)
    moreover have "R * 2 ^ (1074 - (k + e)) \<le> q" using False assms(2) by simp
    ultimately show ?thesis by (simp add: mult.assoc [symmetric])
  qed
  then show ?thesis using round_ratio_bound [of "2 ^ k" p] assms(1) by (simp add: algebra_simps)
qed

definition sleep_nanos :: "uint64 \<Rightarrow> nat" where
  "sleep_nanos w =
     (case f64_parts w of (m, e) \<Rightarrow>
      let p = m * 10 ^ 9; k = floorlog 2 p - 53; q = round_ratio p (2 ^ k)
      in if 1074 \<le> k + e then q * 2 ^ (k + e - 1074) else q div 2 ^ (1074 - (k + e)))"

lemma duration_of_seconds_nanos: "duration_of_seconds w = of_nat (sleep_nanos w)"
  by (simp add: duration_of_seconds_def sleep_nanos_def Let_def split: prod.split)

lemma f64_parts_bound: "fst (f64_parts w) < 2 ^ 53"
proof -
  have "unat w mod 2 ^ 52 < 2 ^ 52" by simp
  then show ?thesis unfolding f64_parts_def f64_mant_def by (cases "f64_exp w = 0") simp_all
qed

lemma div_mod_below:
  fixes n a b c :: nat
  assumes "n < a * b + c" and "c \<le> b"
  shows "n div b < a \<or> n div b = a \<and> n mod b < c"
proof (cases "a < n div b")
  case True
  then have "Suc a * b \<le> n div b * b" by (intro mult_le_mono1) simp
  also have "\<dots> \<le> n" by simp
  finally show ?thesis using assms by simp
next
  case False
  then show ?thesis using assms(1) div_mult_mod_eq [of n b] by (cases "n div b = a") auto
qed

lemma valid_sleep_parts:
  assumes "valid_sleep w"
  shows "snd (f64_parts w) \<le> 1054 \<or> snd (f64_parts w) = 1055 \<and> fst (f64_parts w) \<le> 4835703278458516"
proof (cases "w = 2 ^ 63")
  case True
  then show ?thesis by (simp add: f64_parts_def f64_exp_def f64_mant_def)
next
  case False
  have "\<not> 2 ^ 63 < unat w" "\<not> (sleep_bound \<le> w \<and> w < 2 ^ 63)"
    using assms by (simp_all add: valid_sleep_def f64_negative_def)
  moreover have "unat w \<noteq> 2 ^ 63"
  proof
    assume "unat w = 2 ^ 63"
    then have "of_nat (unat w) = (2 ^ 63 :: uint64)" by simp
    with False show False by simp
  qed
  ultimately have "unat w < 4756133310154331797"
    by (auto simp: sleep_bound_def word_le_nat_alt word_less_nat_alt)
  then have "unat w div 2 ^ 52 < 1056 \<or> unat w div 2 ^ 52 = 1056 \<and> unat w mod 2 ^ 52 < 332103651088021"
    using div_mod_below [of "unat w" 1056 "2 ^ 52" 332103651088021] by simp
  then show ?thesis by (auto simp: f64_parts_def f64_exp_def f64_mant_def)
qed


lemma sleep_nanos_bound:
  assumes "valid_sleep w"
  shows "sleep_nanos w < 2 ^ 63"
proof -
  obtain m e where p: "f64_parts w = (m, e)" by (cases "f64_parts w")
  define k where "k = floorlog 2 (m * 10 ^ 9) - 53"
  have m: "m < 2 ^ 53" using f64_parts_bound [of w] p by simp
  from valid_sleep_parts [OF assms] p have e: "e \<le> 1054 \<or> e = 1055 \<and> m \<le> 4835703278458516" by simp
  have "m * 10 ^ 9 < 2 ^ 83" using m by simp
  then have "k \<le> 30" using floorlog_leD [of 2 "m * 10 ^ 9" 83] floorlog_leI [of "m * 10 ^ 9" 2 83] by (simp add: k_def)
  then have k: "(2 :: nat) ^ k \<le> 2 ^ 30" by (intro power_increasing) simp_all
  have "2 * sleep_nanos w * 2 ^ (1074 - e) \<le> 2 * (m * 10 ^ 9) + 2 ^ k"
    using e by (intro scaled_bound [where q = "round_ratio (m * 10 ^ 9) (2 ^ k)"])
      (auto simp: sleep_nanos_def p k_def Let_def)
  with k have bound: "2 * sleep_nanos w * 2 ^ (1074 - e) \<le> 2 * (m * 10 ^ 9) + 2 ^ 30" by simp
  from e show ?thesis
  proof
    assume "e \<le> 1054"
    then have "(2 :: nat) ^ 20 \<le> 2 ^ (1074 - e)" by (intro power_increasing) simp_all
    from mult_le_mono2 [OF this, of "2 * sleep_nanos w"] bound
    have "2 * sleep_nanos w * 2 ^ 20 \<le> 2 * (m * 10 ^ 9) + 2 ^ 30" by (rule order_trans)
    then show ?thesis using m by simp
  next
    assume *: "e = 1055 \<and> m \<le> 4835703278458516"
    then have "2 * sleep_nanos w * 2 ^ 19 \<le> 2 * (m * 10 ^ 9) + 2 ^ 30" using bound by simp
    then show ?thesis using * by simp
  qed
qed

lemma sint_of_nat_small: "n < 2 ^ 63 \<Longrightarrow> sint (of_nat n :: uint64) = int n"
  by (simp add: sint_uint uint_nat unat_of_nat signed_take_bit_int_eq_self take_bit_nat_eq_self)

lemma duration_nonneg: "valid_sleep w \<Longrightarrow> 0 \<le> sint (duration_of_seconds w)"
  unfolding duration_of_seconds_nanos by (subst sint_of_nat_small [OF sleep_nanos_bound]) simp_all

section \<open>System sleeps\<close>

text \<open>\<open>decodeOSCall\<close> gives every system sleep one float that is a valid duration.\<close>

definition sleep_args :: "string \<Rightarrow> Value list \<Rightarrow> bool" where
  "sleep_args name args \<longleftrightarrow> (name = ''system.sleep'' \<or> name = ''system.async_sleep''
     \<longrightarrow> (\<exists>w. args = [VFloat64 w] \<and> valid_sleep w))"

lemma decode_sleep_valid: "decode_sleep pw data = Inr w \<Longrightarrow> valid_sleep w"
  by (auto simp: decode_sleep_def bind_res_eq_Inr split: if_splits)

lemma os_call_sleep:
  assumes "os_call pw data f = Inr (Some (name, args))"
  shows "(case args of Some a \<Rightarrow> sleep_args name a | None \<Rightarrow> name \<noteq> ''system.sleep'' \<and> name \<noteq> ''system.async_sleep'')"
proof (cases "map_of path_calls (tag f)")
  case (Some n)
  from map_of_SomeD [OF this] have "n \<in> set (map snd path_calls)" by force
  then have "n \<noteq> ''system.sleep'' \<and> n \<noteq> ''system.async_sleep''" by (auto simp: path_calls_def)
  with Some assms show ?thesis by (auto simp: os_call_def os_system_call_def sleep_args_def)
next
  case None
  show ?thesis
  proof (cases "tag f \<in> {27, 28, 29, 30}")
    case True
    with None assms show ?thesis
      by (auto simp: os_call_def os_system_call_def bind_res_eq_Inr sleep_args_def dest!: decode_sleep_valid)
  next
    case False
    with None assms show ?thesis
      by (auto simp: os_call_def os_system_call_def bind_res_eq_Inr sleep_args_def split: if_splits prod.splits)
  qed
qed

lemma decodeOSCall_sleep:
  assumes "decodeOSCall pw data = Inr c"
  shows "sleep_args (ca_Name c) (ca_Args c)"
proof -
  have "sleep_args (ca_Name (fst (os_field pw data f x))) (ca_Args (fst (os_field pw data f x)))"
    if "sleep_args (ca_Name x) (ca_Args x)" for f x
  proof (cases "os_call pw data f")
    case (Inr r)
    with that os_call_sleep [of pw data f] show ?thesis
      by (auto simp: os_field_def sleep_args_def split: option.splits)
  qed (use that in \<open>simp add: os_field_def\<close>)
  then show ?thesis
    using assms unfolding decodeOSCall_def
    by (drule_tac parse_result_invariant [where P = "\<lambda>x. sleep_args (ca_Name x) (ca_Args x)", rotated 2])
      (auto simp: sleep_args_def)
qed

definition sleep_ok :: "session \<Rightarrow> bool" where
  "sleep_ok s \<longleftrightarrow> 0 \<le> sint (se_sleepUsed s) \<and> 0 \<le> sint (se_maxTotalSleep s)
     \<and> (se_systemSleepMax s = UnlimitedSleep \<or> 0 \<le> sint (se_systemSleepMax s))"

lemma sleep_delay_nonneg: "sleep_ok s \<Longrightarrow> valid_sleep w \<Longrightarrow> 0 \<le> sint (sleep_delay s w)"
  using duration_nonneg [of w] by (auto simp: sleep_delay_def sleep_ok_def Let_def)

lemma sint_diff_nonneg:
  fixes a b :: uint64
  assumes "0 \<le> sint a" and "0 \<le> sint b"
  shows "sint (a - b) = sint a - sint b"
  using sint_range [of a] sint_range [of b] assms by (intro sint_minus) auto

lemma sint_sum_below:
  fixes a b :: uint64
  assumes "0 \<le> sint a" and "0 \<le> sint b" and "sint a + sint b < 2 ^ 63"
  shows "sint (a + b) = sint a + sint b"
  using assms by (simp add: sint_word_ariths signed_take_bit_int_eq_self)

lemma sint_maxDurationValue: "sint maxDurationValue = 2 ^ 63 - 1"
  by (simp add: maxDurationValue_def)

text \<open>What a granted sleep costs, and that it stays in the budget.\<close>

lemma charge_sleep_granted:
  assumes "charge_sleep r restoring c s = Return (Inr p) s'" and "sleep_ok s" and "ca_Args c = VFloat64 w # args"
    and "valid_sleep w"
  shows "sleep_ok s' \<and> se_hasSleepLimit s' = se_hasSleepLimit s \<and> se_maxTotalSleep s' = se_maxTotalSleep s
    \<and> sint (se_sleepUsed s') = (if restoring \<and> rs_restoreSleepCharged (se_runs s ! r) then sint (se_sleepUsed s)
         else min (2 ^ 63 - 1) (sint (se_sleepUsed s) + sint (sleep_delay s w)))
    \<and> (se_hasSleepLimit s \<longrightarrow> sint (se_sleepUsed s') \<le> sint (se_maxTotalSleep s))"
proof -
  let ?d = "sleep_delay s w" and ?u = "se_sleepUsed s" and ?m = "se_maxTotalSleep s"
  define already where "already = (restoring \<and> rs_restoreSleepCharged (se_runs s ! r))"
  define s1 where "s1 = (if already then s else if maxDurationValue - ?u <s ?d then s\<lparr>se_sleepUsed := maxDurationValue\<rparr>
     else s\<lparr>se_sleepUsed := ?u + ?d\<rparr>)"
  have d: "0 \<le> sint ?d" using assms(2,4) by (rule sleep_delay_nonneg)
  have u: "0 \<le> sint ?u" "0 \<le> sint ?m" using assms(2) by (simp_all add: sleep_ok_def)
  have diff: "sint (?m - ?u) = sint ?m - sint ?u" "sint (maxDurationValue - ?u) = 2 ^ 63 - 1 - sint ?u"
    using u sint_diff_nonneg sint_maxDurationValue by simp_all
  have "\<not> (se_hasSleepLimit s \<and> (?m <s ?u \<or> (\<not> already \<and> ?m - ?u <s ?d)))"
    and s': "se_sleepUsed s' = se_sleepUsed s1 \<and> se_hasSleepLimit s' = se_hasSleepLimit s1
      \<and> se_maxTotalSleep s' = se_maxTotalSleep s1 \<and> se_systemSleepMax s' = se_systemSleepMax s1"
    using assms(1,3) unfolding charge_sleep_def
    by (auto simp: Let_def already_def s1_def add_snapshot_def split: if_splits)
  then have limit: "se_hasSleepLimit s \<Longrightarrow> sint ?u \<le> sint ?m"
    "se_hasSleepLimit s \<Longrightarrow> \<not> already \<Longrightarrow> sint ?d \<le> sint ?m - sint ?u"
    using diff by (auto simp: word_sless_alt)
  have used: "sint (se_sleepUsed s1) = (if already then sint ?u else min (2 ^ 63 - 1) (sint ?u + sint ?d))"
  proof (cases "already \<or> maxDurationValue - ?u <s ?d")
    case True
    then show ?thesis using diff(2) by (auto simp: s1_def word_sless_alt sint_maxDurationValue)
  next
    case False
    then have "sint ?u + sint ?d \<le> 2 ^ 63 - 1" using diff(2) by (simp add: word_sless_alt)
    with False u d show ?thesis by (simp add: s1_def sint_sum_below)
  qed
  have rest: "se_hasSleepLimit s1 = se_hasSleepLimit s \<and> se_maxTotalSleep s1 = ?m \<and> se_systemSleepMax s1 = se_systemSleepMax s"
    by (simp add: s1_def)
  have "0 \<le> sint (se_sleepUsed s1)" using used u d by auto
  moreover have "se_hasSleepLimit s \<longrightarrow> sint (se_sleepUsed s1) \<le> sint ?m"
    using used limit by auto
  ultimately show ?thesis
    using s' rest used assms(2) unfolding already_def [symmetric] sleep_ok_def by simp
qed

text \<open>The budget of a session over the handling of an event.\<close>

definition within_budget :: "session \<Rightarrow> bool" where
  "within_budget s \<longleftrightarrow> (se_hasSleepLimit s \<longrightarrow> sint (se_sleepUsed s) \<le> sint (se_maxTotalSleep s))"

definition system_sleep_at :: "session \<Rightarrow> nat \<Rightarrow> bool" where
  "system_sleep_at s i \<longleftrightarrow> ca_OS (call_of s i) \<and> is_system_sleep (call_of s i)
     \<and> (\<exists>c. sn_kind (snap s i) = FunctionSnapshot c)"

definition sleep_kept :: "go_error + Progress \<Rightarrow> session \<Rightarrow> bool" where
  "sleep_kept p s \<longleftrightarrow> sleep_ok s \<and> (\<forall>i. p = Inr (Suspended i) \<longrightarrow> system_sleep_at s i \<longrightarrow> within_budget s)"

lemma sleep_ok_updates [simp]:
  "sleep_ok (s\<lparr>se_pending := p\<rparr>) = sleep_ok s" "sleep_ok (cancel_run r s) = sleep_ok s"
  "sleep_ok (count_suspension r s) = sleep_ok s" "sleep_ok (s\<lparr>se_sent := q\<rparr>) = sleep_ok s"
  "sleep_ok (s\<lparr>se_snaps := sn\<rparr>) = sleep_ok s" "sleep_ok (s\<lparr>se_inTurn := b\<rparr>) = sleep_ok s"
  "sleep_ok (s\<lparr>se_scriptName := n\<rparr>) = sleep_ok s" "sleep_ok (update_run r f s) = sleep_ok s"
  "sleep_ok (s\<lparr>se_released := z\<rparr>) = sleep_ok s"
  by (simp_all add: sleep_ok_def cancel_run_def count_suspension_def update_run_def)

lemma micros_nonneg: "0 \<le> sint (min n maxMicros * Microsecond)"
proof -
  have "unat (min n maxMicros) \<le> 9223372036854775"
    by (simp add: maxMicros_def min_def word_le_nat_alt)
  then have "sint (of_nat (unat (min n maxMicros) * 1000) :: uint64) = int (unat (min n maxMicros) * 1000)"
    by (intro sint_of_nat_small) simp
  moreover have "min n maxMicros * Microsecond = of_nat (unat (min n maxMicros) * 1000)"
    by (simp add: Microsecond_def)
  ultimately show ?thesis by (simp only: of_nat_0_le_iff)
qed

lemma observeEvent_sleep_ok: "sleep_ok s \<Longrightarrow> sleep_ok (observeEvent e s)"
  using micros_nonneg by (auto simp: observeEvent_def Let_def sleep_ok_def split: option.splits)

lemma worker_exchange_sleep_ok: "worker_exchange req s as = Some (res, s', as') \<Longrightarrow> sleep_ok s' = sleep_ok s"
  by (auto simp: worker_exchange_def split: list.splits)

lemma executionExchange_sleep_ok:
  "executionExchange req s as = Some (res, s', as') \<Longrightarrow> sleep_ok s \<Longrightarrow> sleep_ok s'"
  by (auto simp: executionExchange_def split: if_splits option.splits sum.splits prod.splits
    dest!: worker_exchange_sleep_ok intro: observeEvent_sleep_ok)

lemma decodeFunctionCall_not_os: "decodeFunctionCall pw data = Inr c \<Longrightarrow> \<not> ca_OS c"
  unfolding decodeFunctionCall_def bind_res_eq_Inr
  by (elim exE conjE, drule_tac parse_result_invariant [where P = "\<lambda>x. \<not> ca_OS x", rotated 2])
    (auto simp: call_field_def set_or_fail_def split: sum.splits)

lemma add_snapshot_kept:
  assumes "add_snapshot r k s = (p, s')" and "sleep_ok s"
    and "\<And>c. k = FunctionSnapshot c \<Longrightarrow> ca_OS c \<Longrightarrow> is_system_sleep c \<Longrightarrow> within_budget s"
  shows "sleep_kept (Inr p) s'"
  using assms by (auto simp: add_snapshot_def sleep_kept_def system_sleep_at_def call_of_def snap_def nth_append within_budget_def)

lemma charge_sleep_kept:
  assumes "charge_sleep r restoring c s = Return p s'" and "sleep_ok s" and "sleep_args (ca_Name c) (ca_Args c)"
    and "is_system_sleep c"
  shows "sleep_kept p s'"
proof -
  from assms(3,4) obtain w where w: "ca_Args c = [VFloat64 w]" "valid_sleep w"
    by (auto simp: sleep_args_def is_system_sleep_def)
  with assms(1) obtain q where "p = Inr q" by (auto simp: charge_sleep_def Let_def add_snapshot_def split: if_splits)
  with charge_sleep_granted [of r restoring c s q s' w "[]"] assms(1,2) w
  have "sleep_ok s' \<and> within_budget s'" unfolding within_budget_def by metis
  then show ?thesis by (simp add: sleep_kept_def)
qed

lemma dispatch_event_kept:
  assumes "dispatch_event pw pt r restoring k body s = Return p s'" and "sleep_ok s"
  shows "sleep_kept p s'"
proof (cases k)
  case eventOSCall
  show ?thesis
  proof (cases "decodeOSCall pw body")
    case (Inr c)
    with assms eventOSCall show ?thesis
      using charge_sleep_kept [OF _ assms(2) decodeOSCall_sleep [OF Inr]]
      by (auto simp: dispatch_event_def Let_def split: if_splits prod.splits intro!: add_snapshot_kept [OF _ assms(2)])
  qed (use assms eventOSCall in \<open>auto simp: dispatch_event_def sleep_kept_def\<close>)
next
  case eventFunctionCall
  with assms show ?thesis
    by (auto simp: dispatch_event_def Let_def sleep_kept_def [of "Inl _"] split: sum.splits prod.splits
      dest: decodeFunctionCall_not_os intro!: add_snapshot_kept [OF _ assms(2)])
next
  case eventNameLookup
  with assms show ?thesis
    by (auto simp: dispatch_event_def Let_def sleep_kept_def [of "Inl _"] lookup_snapshot_def bind_res_eq_Inr
      split: sum.splits prod.splits intro!: add_snapshot_kept [OF _ assms(2)])
next
  case eventResolveFutures
  with assms show ?thesis
    by (auto simp: dispatch_event_def Let_def split: prod.splits intro!: add_snapshot_kept [OF _ assms(2)])
qed (use assms in \<open>auto simp: dispatch_event_def Let_def sleep_kept_def split: sum.splits\<close>)

lemma dispatch_event_abort: "dispatch_event pw pt r restoring k body s = Abort x s' \<Longrightarrow> s' = s"
  using dispatch_event_cases [of pw pt r restoring k body s] by auto

lemma progress_action_kept:
  "progress_action pw pt r e s = Return p s' \<Longrightarrow> sleep_ok s \<Longrightarrow> sleep_kept p s'"
  "progress_action pw pt r e s = Abort x s' \<Longrightarrow> sleep_ok s \<Longrightarrow> sleep_ok s'"
  by (auto simp: progress_action_def Let_def split: if_splits dest!: dispatch_event_kept dispatch_event_abort)

lemma progress_kept:
  assumes "progress pw pt r e s as = Some (p, s', as')" and "sleep_ok s"
  shows "sleep_kept p s'"
  using assms
proof (induction pw pt r e s as rule: progress.induct)
  case (1 pw pt r e s as)
  show ?case
  proof (cases "progress_action pw pt r e s")
    case (Return q t)
    with 1 show ?thesis by (auto simp: progress.simps [of pw pt r e s] dest: progress_action_kept)
  next
    case (Abort x t)
    with 1 have t: "sleep_ok t" by (auto dest: progress_action_kept)
    from Abort "1.prems"(1) obtain res s2 as2 where ex: "executionExchange (abort_request pw x) t as = Some (res, s2, as2)"
      by (auto simp: progress.simps [of pw pt r e s] split: option.splits)
    with t have "sleep_ok s2" by (auto dest: executionExchange_sleep_ok)
    show ?thesis
    proof (cases res)
      case (Inl err)
      with "1.prems"(1) Abort ex \<open>sleep_ok s2\<close> show ?thesis
        by (auto simp: progress.simps [of pw pt r e s] sleep_kept_def)
    next
      case (Inr e2)
      with "1.prems"(1) Abort ex have "progress pw pt r e2 s2 as2 = Some (p, s', as')"
        by (simp add: progress.simps [of pw pt r e s])
      with "1.IH" [OF Abort ex [unfolded Inr]] \<open>sleep_ok s2\<close> show ?thesis by simp
    qed
  qed
qed

section \<open>The budgets in every reachable state\<close>

lemma FeedStart_begin_other:
  "FeedStart_begin pw h code options s = Inr (r, req, s') \<Longrightarrow> sleep_ok s' = sleep_ok s"
  by (auto simp: FeedStart_begin_def Let_def bind_res_eq_Inr sleep_ok_def split: if_splits option.splits)

lemma FeedStart_end_sleep_ok:
  "FeedStart_end pw pt r res s as = Some (p, s', as') \<Longrightarrow> sleep_ok s \<Longrightarrow> sleep_ok s'"
  by (auto simp: FeedStart_end_def Let_def sleep_kept_def split: sum.splits option.splits Progress.splits dest!: progress_kept)

lemma exchange_end_sleep_ok:
  "exchange_end pw pt r res s as = Some (p, s', as') \<Longrightarrow> sleep_ok s \<Longrightarrow> sleep_ok s'"
  by (auto simp: exchange_end_def Let_def sleep_kept_def split: sum.splits dest!: progress_kept)

lemma load_sleep_ok:
  assumes "Session_Ops.load pw pt state o1 s as = Some (p, s', as')" and "sleep_ok s"
  shows "sleep_ok s'"
proof -
  have "sleep_ok (load_begin o1 m s)" if "decodeSnapshot pw state = Inr (ws, m)" for ws m
  proof -
    have "sm_sleepUsed m \<le> 2 ^ 63 - 1" using decodeSnapshot_ok [OF that] by simp
    then have "unat (sm_sleepUsed m) < 2 ^ 63" by (simp add: word_le_nat_alt)
    then have "0 \<le> sint (sm_sleepUsed m)" using sint_of_nat_small [of "unat (sm_sleepUsed m)"] by simp
    with assms(2) show ?thesis by (simp add: load_begin_def sleep_ok_def)
  qed
  moreover have "sleep_ok s'" if "load_end pw pt r e s1 as1 = Some (p, s', as')" and "sleep_ok s1" for r e s1 as1
  proof -
    define s2 where "s2 = observeEvent e (case ce_restoredScriptName e of None \<Rightarrow> s1 | Some n \<Rightarrow> s1\<lparr>se_scriptName := n\<rparr>)"
    have "sleep_ok s2" using that(2) by (auto simp: s2_def intro!: observeEvent_sleep_ok split: option.splits)
    with that(1) show ?thesis
      unfolding load_end_def Let_def s2_def [symmetric]
      by (auto simp: sleep_kept_def split: option.splits if_splits sum.splits Progress.splits dest!: progress_kept)
  qed
  ultimately show ?thesis
    using assms by (auto simp: Session_Ops.load_def Let_def split: sum.splits option.splits prod.splits
      dest!: worker_exchange_sleep_ok)
qed

lemma quiet_ops_sleep_ok:
  "Session_Dump pw pt s as = Some (b, s', as') \<Longrightarrow> sleep_ok s' = sleep_ok s"
  "snapshotDump pw pt r st s as = Some (b, s', as') \<Longrightarrow> sleep_ok s' = sleep_ok s"
  "InstallDependencies pw pt names s as = Some (u, s', as') \<Longrightarrow> sleep_ok s' = sleep_ok s"
  by (auto simp: Session_Dump_def snapshotDump_def InstallDependencies_def split: if_splits option.splits sum.splits
    elim!: dump_result_frame dest!: worker_exchange_sleep_ok)

lemma session_step_sleep_ok:
  assumes "session_step pw pt h w w'" and "sleep_ok (wo_session w)"
  shows "sleep_ok (wo_session w')"
  using assms
proof (induction rule: session_step.induct)
  case feed_begin then show ?case by (simp add: FeedStart_begin_other)
next
  case feed_end then show ?case by (auto dest: executionExchange_sleep_ok FeedStart_end_sleep_ok)
next
  case claim then show ?case by (auto simp: Session_Ops.claim_def split: prod.splits if_splits)
next
  case resume_begin then show ?case by (auto simp: exchange_begin_def split: if_splits)
next
  case resume_end then show ?case by (auto dest: executionExchange_sleep_ok exchange_end_sleep_ok)
next
  case host then show ?case by simp
next
  case snapshot_dump
  then show ?case by (auto simp: Snapshot_Dump_def split: if_splits dest: quiet_ops_sleep_ok)
next
  case session_dump then show ?case by (simp add: quiet_ops_sleep_ok)
next
  case install then show ?case by (simp add: quiet_ops_sleep_ok)
next
  case load then show ?case by (auto dest: load_sleep_ok)
next
  case (close_begin s s' ts rs)
  then show ?case by (auto simp: Close_begin_def Let_def sleep_ok_def cancel_run_def update_run_def split: if_splits option.splits)
next
  case close_end
  then show ?case by (auto simp: Close_end_def split: sum.splits if_splits dest!: worker_exchange_sleep_ok)
qed

lemma reachable_sleep_ok: "reachable pw pt h w \<Longrightarrow> sleep_ok (wo_session w)"
proof (induction rule: reachable.induct)
  case start
  then show ?case by (auto simp: sleep_ok_def new_session_def word_sle_eq)
qed (simp add: session_step_sleep_ok)

section \<open>Suspensions\<close>

lemma dispatch_event_runs:
  "dispatch_event pw pt r restoring k body s = Return p s' \<Longrightarrow> se_runs s' = se_runs s \<and> se_maxSuspensions s' = se_maxSuspensions s"
  by (cases k) (auto simp: dispatch_event_def charge_sleep_def add_snapshot_def Let_def
    split: sum.splits if_splits list.splits Value.splits)

lemma progress_limit:
  assumes "progress pw pt r e s as = Some (Inr (Suspended i), s', as')"
  shows "rs_suspensions (se_runs s' ! r) \<le> suspension_limit s'"
  using assms
proof (induction pw pt r e s as rule: progress.induct)
  case (1 pw pt r e s as)
  show ?case
  proof (cases "progress_action pw pt r e s")
    case (Return q t)
    with "1.prems" have t: "q = Inr (Suspended i)" "s' = t" by (simp_all add: progress.simps [of pw pt r e s])
    define k where "k = the (ce_kind e)"
    from Return obtain s1 where s1: "dispatch_event pw pt r (rs_restoring (se_runs s ! r)) k (ce_body e) s1 = Return q t"
      "suspension_event k \<Longrightarrow> rs_suspensions (se_runs s1 ! r) \<le> suspension_limit s1"
      by (auto simp: progress_action_def Let_def k_def split: if_splits)
    have "suspension_event k"
    proof (rule ccontr)
      assume "\<not> suspension_event k"
      with s1(1) t(1) show False
        by (cases k) (auto simp: dispatch_event_def Let_def suspension_event_def event_order split: sum.splits)
    qed
    moreover have "suspension_limit t = suspension_limit s1" "se_runs t = se_runs s1"
      using dispatch_event_runs [OF s1(1)] by (simp_all add: suspension_limit_def)
    ultimately show ?thesis using s1(2) t(2) by metis
  next
    case (Abort x t)
    with "1.prems" obtain e2 s2 as2 where "executionExchange (abort_request pw x) t as = Some (Inr e2, s2, as2)"
      "progress pw pt r e2 s2 as2 = Some (Inr (Suspended i), s', as')"
      by (auto simp: progress.simps [of pw pt r e s] split: option.splits sum.splits prod.splits)
    with "1.IH" [OF Abort this(1)] show ?thesis by simp
  qed
qed

section \<open>Returning\<close>

text \<open>An answer that ends the handling of an event, whatever it is.\<close>

fun final_answer :: "go_error + child_event \<Rightarrow> bool" where
  "final_answer (Inl e) = True"
| "final_answer (Inr e) = (\<not> suspension_event (the (ce_kind e)))"

lemma progress_action_abort_suspension:
  "progress_action pw pt r e s = Abort x s' \<Longrightarrow> suspension_event (the (ce_kind e))"
  by (cases "the (ce_kind e)")
    (auto simp: progress_action_def Let_def suspension_event_def event_order dispatch_event_def split: sum.splits)

lemma executionExchange_None: "executionExchange req s as = None \<Longrightarrow> as = []"
  by (auto simp: executionExchange_def worker_exchange_def split: if_splits list.splits option.splits sum.splits)

lemma executionExchange_answer:
  "executionExchange req s as = Some (Inr e, s', as') \<Longrightarrow> as = Inr e # as'"
  by (auto simp: executionExchange_def worker_exchange_def split: if_splits list.splits option.splits sum.splits)

lemma progress_returns:
  assumes "final_answer (Inr e) \<or> (\<exists>a \<in> set as. final_answer a)"
  shows "progress pw pt r e s as \<noteq> None"
  using assms
proof (induction pw pt r e s as rule: progress.induct)
  case (1 pw pt r e s as)
  show ?case
  proof (cases "progress_action pw pt r e s")
    case (Return q t)
    then show ?thesis by (simp add: progress.simps [of pw pt r e s])
  next
    case (Abort x t)
    with 1(2) have as: "\<exists>a \<in> set as. final_answer a" by (auto dest: progress_action_abort_suspension)
    show ?thesis
    proof (cases "executionExchange (abort_request pw x) t as")
      case None
      then show ?thesis using as by (auto dest: executionExchange_None)
    next
      case (Some y)
      then obtain res s2 as2 where y: "y = (res, s2, as2)" by (cases y)
      show ?thesis
      proof (cases res)
        case (Inl err)
        with Abort Some y show ?thesis by (simp add: progress.simps [of pw pt r e s])
      next
        case (Inr e2)
        with as executionExchange_answer [of "abort_request pw x" t as e2 s2 as2] Some y
        have "final_answer (Inr e2) \<or> (\<exists>a \<in> set as2. final_answer a)" by auto
        with "1.IH" [OF Abort Some [unfolded y Inr]] Abort Some y Inr
        show ?thesis by (simp add: progress.simps [of pw pt r e s])
      qed
    qed
  qed
qed

end
