(* ===== verification/Session_Accounts.thy ===== *)
theory Session_Accounts
  imports Session_Budget
begin

text \<open>
  What handling an event adds to the accounts of a feed: every suspension the worker sends is
  counted once, and a granted system sleep is charged once, with the delay it is granted.
\<close>

section \<open>The events one call of \<open>progress\<close> handles\<close>

text \<open>The first event, and the events among the answers that were used up.\<close>

definition events_of :: "answers \<Rightarrow> child_event list" where
  "events_of as = concat (map (\<lambda>a. case a of Inl e \<Rightarrow> [] | Inr e \<Rightarrow> [e]) as)"

definition events_handled :: "child_event \<Rightarrow> answers \<Rightarrow> answers \<Rightarrow> child_event list" where
  "events_handled e as as' = e # events_of (take (length as - length as') as)"

lemma events_of_simps [simp]:
  "events_of [] = []" "events_of (Inl err # as) = events_of as" "events_of (Inr e # as) = e # events_of as"
  by (simp_all add: events_of_def)

lemma events_handled_same [simp]: "events_handled e as as = [e]"
  by (simp add: events_handled_def)

lemma events_handled_failed [simp]: "events_handled e (Inl err # as) as = [e]"
  by (simp add: events_handled_def)

lemma events_handled_again:
  "length as' \<le> length as \<Longrightarrow> events_handled e (Inr e2 # as) as' = e # events_handled e2 as as'"
  by (simp add: events_handled_def Suc_diff_le)

text \<open>One rule for all facts about a call of \<open>progress\<close> that has returned.\<close>

lemma progress_result_induct [consumes 1, case_names return failed again]:
  assumes "progress pw pt r e s as = Some (p, s', as')"
    and "\<And>e s as p s'. progress_action pw pt r e s = Return p s' \<Longrightarrow> P e s as p s' as"
    and "\<And>e s as x t err s2 as2. progress_action pw pt r e s = Abort x t \<Longrightarrow>
      executionExchange (abort_request pw x) t as = Some (Inl err, s2, as2) \<Longrightarrow> P e s as (Inl err) (cancel_run r s2) as2"
    and "\<And>e s as x t e2 s2 as2 p s' as'. progress_action pw pt r e s = Abort x t \<Longrightarrow>
      executionExchange (abort_request pw x) t as = Some (Inr e2, s2, as2) \<Longrightarrow>
      progress pw pt r e2 s2 as2 = Some (p, s', as') \<Longrightarrow> P e2 s2 as2 p s' as' \<Longrightarrow> P e s as p s' as'"
  shows "P e s as p s' as'"
  using assms(1)
proof (induction as arbitrary: e s p s' as' rule: measure_induct_rule [of length])
  case (less as)
  show ?case
  proof (cases "progress_action pw pt r e s")
    case (Return q t)
    with less.prems assms(2) show ?thesis by (simp add: progress.simps [of pw pt r e s])
  next
    case (Abort x t)
    with less.prems obtain res s2 as2 where ex: "executionExchange (abort_request pw x) t as = Some (res, s2, as2)"
      by (auto simp: progress.simps [of pw pt r e s] split: option.splits)
    show ?thesis
    proof (cases res)
      case (Inl err)
      with less.prems Abort ex assms(3) show ?thesis by (auto simp: progress.simps [of pw pt r e s])
    next
      case (Inr e2)
      with less.prems Abort ex have next_one: "progress pw pt r e2 s2 as2 = Some (p, s', as')"
        by (simp add: progress.simps [of pw pt r e s])
      with less.IH executionExchange_shorter [OF ex [unfolded Inr]] assms(4) [OF Abort ex [unfolded Inr]] show ?thesis
        by blast
    qed
  qed
qed

lemma progress_answers: "progress pw pt r e s as = Some (p, s', as') \<Longrightarrow> length as' \<le> length as"
  by (induction rule: progress_result_induct) (auto dest: executionExchange_frame)

text \<open>The answers an abort uses up: none when the duration is exhausted, else one.\<close>

lemma executionExchange_failed:
  "executionExchange req s as = Some (Inl err, s', as') \<Longrightarrow> as' = as \<or> as = Inl err # as'"
  by (auto simp: executionExchange_def worker_exchange_def split: if_splits list.splits sum.splits)

lemma executionExchange_accounts:
  "executionExchange req s as = Some (res, s', as') \<Longrightarrow>
   se_runs s' = se_runs s \<and> se_sleepUsed s' = se_sleepUsed s \<and> se_systemSleepMax s' = se_systemSleepMax s"
  by (auto simp: executionExchange_def worker_exchange_def observeEvent_def Let_def
    split: if_splits list.splits sum.splits option.splits)

section \<open>Suspensions\<close>

definition is_suspension :: "child_event \<Rightarrow> bool" where
  "is_suspension e \<longleftrightarrow> suspension_event (the (ce_kind e))"

lemma runs_updates:
  "r < length (se_runs s) \<Longrightarrow> se_runs (cancel_run r s) ! r = (se_runs s ! r)\<lparr>rs_cancelled := True\<rparr>"
  "length (se_runs (cancel_run r s)) = length (se_runs s)"
  "length (se_runs (count_suspension r s)) = length (se_runs s)"
  by (simp_all add: cancel_run_def count_suspension_def update_run_def)

lemma dispatch_event_same_runs:
  "dispatch_event pw pt r restoring k body s = Abort x s' \<Longrightarrow> se_runs s' = se_runs s"
  by (auto dest: dispatch_event_abort)

text \<open>What one event does to the run: a suspension counts, except the first of a restored feed.\<close>

lemma progress_action_run:
  assumes "progress_action pw pt r e s = Return p s' \<or> progress_action pw pt r e s = Abort x s'"
    and "r < length (se_runs s)"
  shows "length (se_runs s') = length (se_runs s)"
    and "rs_suspensions (se_runs s' ! r) = rs_suspensions (se_runs s ! r)
      + (if is_suspension e \<and> \<not> rs_restoring (se_runs s ! r) then 1 else 0)"
    and "rs_restoring (se_runs s' ! r) = (rs_restoring (se_runs s ! r) \<and> \<not> is_suspension e)"
    and "rs_restoreSleepCharged (se_runs s' ! r) = rs_restoreSleepCharged (se_runs s ! r)"
proof -
  define k where "k = the (ce_kind e)"
  define s1 where "s1 = (if k = eventComplete \<or> eventError \<le> k then cancel_run r s else s)"
  define s2 where "s2 = (if suspension_event k then count_suspension r s1 else s1)"
  have runs: "se_runs s' = se_runs s2"
    using assms(1) unfolding progress_action_def Let_def k_def [symmetric] s1_def [symmetric] s2_def [symmetric]
    by (auto split: if_splits dest: dispatch_event_runs dispatch_event_same_runs)
  have s1: "length (se_runs s1) = length (se_runs s)" "rs_suspensions (se_runs s1 ! r) = rs_suspensions (se_runs s ! r)"
    "rs_restoring (se_runs s1 ! r) = rs_restoring (se_runs s ! r)"
    "rs_restoreSleepCharged (se_runs s1 ! r) = rs_restoreSleepCharged (se_runs s ! r)"
    using assms(2) by (simp_all add: s1_def runs_updates)
  then have "se_runs (count_suspension r s1) ! r = (if rs_restoring (se_runs s1 ! r) then (se_runs s1 ! r)\<lparr>rs_restoring := False\<rparr>
      else (se_runs s1 ! r)\<lparr>rs_suspensions := rs_suspensions (se_runs s1 ! r) + 1\<rparr>)"
    using assms(2) by (simp add: count_suspension_def update_run_def)
  with s1 show "length (se_runs s') = length (se_runs s)"
    "rs_suspensions (se_runs s' ! r) = rs_suspensions (se_runs s ! r)
      + (if is_suspension e \<and> \<not> rs_restoring (se_runs s ! r) then 1 else 0)"
    "rs_restoring (se_runs s' ! r) = (rs_restoring (se_runs s ! r) \<and> \<not> is_suspension e)"
    "rs_restoreSleepCharged (se_runs s' ! r) = rs_restoreSleepCharged (se_runs s ! r)"
    unfolding runs by (auto simp: s2_def is_suspension_def k_def runs_updates)
qed

lemma progress_action_abort_is_suspension: "progress_action pw pt r e s = Abort x s' \<Longrightarrow> is_suspension e"
  unfolding is_suspension_def by (rule progress_action_abort_suspension)

text \<open>The number of the suspensions in a list of events that count.\<close>

definition suspensions_counted :: "bool \<Rightarrow> child_event list \<Rightarrow> nat" where
  "suspensions_counted restoring es =
     length (filter is_suspension es) - (if restoring then 1 else 0)"

lemma suspensions_counted_Cons:
  "is_suspension e \<Longrightarrow> suspensions_counted b (e # es) = (if b then 0 else 1) + suspensions_counted False es"
  by (simp add: suspensions_counted_def)

lemma suspensions_counted_single:
  "suspensions_counted b [e] = (if is_suspension e \<and> \<not> b then 1 else 0)"
  by (simp add: suspensions_counted_def)

lemma progress_counts:
  assumes "progress pw pt r e s as = Some (p, s', as')" and "r < length (se_runs s)"
  shows "rs_suspensions (se_runs s' ! r) = rs_suspensions (se_runs s ! r)
    + of_nat (suspensions_counted (rs_restoring (se_runs s ! r)) (events_handled e as as'))"
  using assms
proof (induction rule: progress_result_induct)
  case (return e s as p s')
  with progress_action_run [of pw pt r e s p s'] show ?case by (simp add: suspensions_counted_single)
next
  case (failed e s as x t err s2 as2)
  have t: "r < length (se_runs t)" "se_runs s2 = se_runs t"
    using progress_action_run(1) [of pw pt r e s _ t x] failed.hyps failed.prems by (auto dest: executionExchange_accounts)
  have "events_handled e as as2 = [e]" using executionExchange_failed [OF failed.hyps(2)] by auto
  with t progress_action_run(2) [of pw pt r e s undefined t x] failed.hyps(1) failed.prems show ?case
    by (simp add: runs_updates suspensions_counted_single)
next
  case (again e s as x t e2 s2 as2 p s' as')
  note act = progress_action_run [of pw pt r e s undefined t x]
  have e: "is_suspension e" using again.hyps(1) by (rule progress_action_abort_is_suspension)
  have runs: "se_runs s2 = se_runs t" using executionExchange_accounts [OF again.hyps(2)] by simp
  have "as = Inr e2 # as2" using executionExchange_answer [OF again.hyps(2)] .
  then have es: "events_handled e as as' = e # events_handled e2 as2 as'"
    using progress_answers [OF again.hyps(3)] by (simp add: events_handled_again)
  have "r < length (se_runs s2)" using act(1) again.hyps(1) again.prems runs by simp
  from again.IH [OF this] show ?case
    using act(2,3) again.hyps(1) again.prems runs e by (simp add: es suspensions_counted_Cons)
qed

section \<open>System sleeps\<close>

lemma decodeOSCall_os:
  assumes "decodeOSCall pw data = Inr c"
  shows "ca_OS c"
proof -
  have "ca_OS (fst (os_field pw data f x))" if "ca_OS x" for f x
    using that by (cases "os_call pw data f") (auto simp: os_field_def split: option.splits)
  then show ?thesis
    using assms unfolding decodeOSCall_def
    by (drule_tac parse_result_invariant [where P = ca_OS, rotated 2]) auto
qed

text \<open>
  The delay a system sleep is granted and what it leaves on the account: \<open>e\<close> is the event that asked
  for the sleep, \<open>restored\<close> says that its charge came with the snapshot the feed was restored from.
\<close>

definition sleep_charged :: "protowire \<Rightarrow> bool \<Rightarrow> child_event \<Rightarrow> session \<Rightarrow> session \<Rightarrow> nat \<Rightarrow> bool" where
  "sleep_charged pw restored e s s' i \<longleftrightarrow>
     (\<exists>c w. decodeOSCall pw (ce_body e) = Inr c \<and> is_system_sleep c \<and> ca_Args c = [VFloat64 w]
        \<and> ca_Args (call_of s' i) = [VFloat64 (duration_seconds (sleep_delay s w))]
        \<and> sint (se_sleepUsed s') = (if restored then sint (se_sleepUsed s)
             else min (2 ^ 63 - 1) (sint (se_sleepUsed s) + sint (sleep_delay s w))))"

definition sleep_granted :: "go_error + Progress \<Rightarrow> session \<Rightarrow> nat \<Rightarrow> bool" where
  "sleep_granted p s i \<longleftrightarrow> p = Inr (Suspended i) \<and> system_sleep_at s i"

lemma charge_sleep_snapshot:
  assumes "charge_sleep r restoring c s = Return p s'" and "ca_Args c = [VFloat64 w]"
  shows "p = Inr (Suspended (length (se_snaps s))) \<and> se_snaps s' = se_snaps s @
    [(\<lparr>sn_state = r, sn_step = rs_step (se_runs s ! r),
       sn_kind = FunctionSnapshot (c\<lparr>ca_Args := [VFloat64 (duration_seconds (sleep_delay s w))]\<rparr>)\<rparr>, False)]"
  using assms by (auto simp: charge_sleep_def Let_def add_snapshot_def split: if_splits)

lemma charge_sleep_charged:
  assumes "charge_sleep r restoring c s = Return p s'" and "decodeOSCall pw (ce_body e) = Inr c"
    and "is_system_sleep c" and "sleep_ok s"
  shows "\<exists>i. p = Inr (Suspended i) \<and> sleep_granted p s' i
    \<and> sleep_charged pw (restoring \<and> rs_restoreSleepCharged (se_runs s ! r)) e s s' i"
proof -
  let ?i = "length (se_snaps s)"
  from decodeOSCall_sleep [OF assms(2)] assms(3) obtain w where w: "ca_Args c = [VFloat64 w]" "valid_sleep w"
    by (auto simp: sleep_args_def is_system_sleep_def)
  note new = charge_sleep_snapshot [OF assms(1) w(1)]
  have call: "call_of s' ?i = c\<lparr>ca_Args := [VFloat64 (duration_seconds (sleep_delay s w))]\<rparr>"
    using new by (simp add: call_of_def snap_def)
  have "system_sleep_at s' ?i"
    using decodeOSCall_os [OF assms(2)] assms(3) new call by (simp add: system_sleep_at_def snap_def is_system_sleep_def)
  moreover have "sleep_charged pw (restoring \<and> rs_restoreSleepCharged (se_runs s ! r)) e s s' ?i"
    using assms(2,3) w call charge_sleep_granted [of r restoring c s "Suspended ?i" s' w "[]"] assms(1,4) new
    by (auto simp: sleep_charged_def)
  ultimately show ?thesis using new by (auto simp: sleep_granted_def)
qed

lemma not_sleep_snapshot:
  assumes "add_snapshot r k s = (p, s')" and "\<And>c. k = FunctionSnapshot c \<Longrightarrow> \<not> (ca_OS c \<and> is_system_sleep c)"
  shows "\<not> sleep_granted (Inr p) s' i \<and> se_sleepUsed s' = se_sleepUsed s"
  using assms by (auto simp: add_snapshot_def sleep_granted_def system_sleep_at_def call_of_def snap_def nth_append)

text \<open>One event either grants a sleep and charges it, or leaves the account alone.\<close>

definition charged_or_same :: "protowire \<Rightarrow> bool \<Rightarrow> child_event \<Rightarrow> session \<Rightarrow> go_error + Progress \<Rightarrow> session \<Rightarrow> bool" where
  "charged_or_same pw restored e s p s' \<longleftrightarrow>
     (\<forall>i. sleep_granted p s' i \<longrightarrow> sleep_charged pw restored e s s' i)
     \<and> ((\<nexists>i. sleep_granted p s' i) \<longrightarrow> se_sleepUsed s' = se_sleepUsed s)"

lemma not_granted [simp]: "\<not> sleep_granted (Inl err) s i" "\<not> sleep_granted (Inr (Complete v)) s i"
  by (simp_all add: sleep_granted_def)

lemma not_sleep_same:
  assumes "add_snapshot r k s = (p, s')" and "\<And>c. k = FunctionSnapshot c \<Longrightarrow> \<not> (ca_OS c \<and> is_system_sleep c)"
  shows "charged_or_same pw restored e s (Inr p) s'"
  using not_sleep_snapshot [OF assms] by (auto simp: charged_or_same_def)

lemma dispatch_event_charged:
  assumes "dispatch_event pw pt r restoring k (ce_body e) s = Return p s'" and "sleep_ok s"
  shows "charged_or_same pw (restoring \<and> rs_restoreSleepCharged (se_runs s ! r)) e s p s'"
proof (cases k)
  case eventOSCall
  show ?thesis
  proof (cases "decodeOSCall pw (ce_body e)")
    case (Inr c)
    show ?thesis
    proof (cases "is_system_sleep c")
      case True
      with assms eventOSCall Inr have "charge_sleep r restoring c s = Return p s'" by (simp add: dispatch_event_def)
      from charge_sleep_charged [OF this Inr True assms(2)] show ?thesis
        by (auto simp: charged_or_same_def sleep_granted_def)
    next
      case False
      with assms eventOSCall Inr show ?thesis
        by (auto simp: dispatch_event_def Let_def split: prod.splits intro!: not_sleep_same)
    qed
  qed (use assms eventOSCall in \<open>auto simp: dispatch_event_def charged_or_same_def\<close>)
next
  case eventFunctionCall
  with assms show ?thesis
    by (auto simp: dispatch_event_def Let_def charged_or_same_def [of _ _ _ _ "Inl _"] split: sum.splits prod.splits
      dest: decodeFunctionCall_not_os intro!: not_sleep_same)
next
  case eventNameLookup
  with assms show ?thesis
    by (auto simp: dispatch_event_def Let_def charged_or_same_def [of _ _ _ _ "Inl _"] lookup_snapshot_def bind_res_eq_Inr
      split: sum.splits prod.splits intro!: not_sleep_same)
next
  case eventResolveFutures
  with assms show ?thesis
    by (auto simp: dispatch_event_def Let_def split: prod.splits intro!: not_sleep_same)
qed (use assms in \<open>auto simp: dispatch_event_def Let_def charged_or_same_def split: sum.splits\<close>)

lemma accounts_updates [simp]:
  "se_sleepUsed (cancel_run r s) = se_sleepUsed s" "se_sleepUsed (count_suspension r s) = se_sleepUsed s"
  "se_systemSleepMax (cancel_run r s) = se_systemSleepMax s" "se_systemSleepMax (count_suspension r s) = se_systemSleepMax s"
  by (simp_all add: cancel_run_def count_suspension_def update_run_def)

lemma charged_or_same_cong:
  assumes "charged_or_same pw b e t p s'" and "se_sleepUsed t = se_sleepUsed s" and "se_systemSleepMax t = se_systemSleepMax s"
  shows "charged_or_same pw b e s p s'"
proof -
  have "sleep_delay t = sleep_delay s" by (rule ext) (simp only: sleep_delay_def assms(3))
  then show ?thesis using assms(1) unfolding charged_or_same_def sleep_charged_def by (simp only: assms(2))
qed

lemma progress_action_charged:
  assumes "progress_action pw pt r e s = Return p s'" and "sleep_ok s" and "r < length (se_runs s)"
  shows "charged_or_same pw (rs_restoring (se_runs s ! r) \<and> rs_restoreSleepCharged (se_runs s ! r)) e s p s'"
proof -
  define k where "k = the (ce_kind e)"
  define s1 where "s1 = (if k = eventComplete \<or> eventError \<le> k then cancel_run r s else s)"
  define s2 where "s2 = (if suspension_event k then count_suspension r s1 else s1)"
  have d: "dispatch_event pw pt r (rs_restoring (se_runs s ! r)) k (ce_body e) s2 = Return p s'"
    using assms(1) unfolding progress_action_def Let_def k_def [symmetric] s1_def [symmetric] s2_def [symmetric]
    by (simp split: if_splits)
  have s2: "sleep_ok s2" "se_sleepUsed s2 = se_sleepUsed s" "se_systemSleepMax s2 = se_systemSleepMax s"
    using assms(2) by (simp_all add: s1_def s2_def)
  have "rs_restoreSleepCharged (se_runs s2 ! r) = rs_restoreSleepCharged (se_runs s ! r)"
    using assms(3) by (simp add: s1_def s2_def cancel_run_def count_suspension_def update_run_def)
  with charged_or_same_cong [OF dispatch_event_charged [OF d s2(1)] s2(2,3)] show ?thesis by simp
qed

lemma progress_action_abort_account:
  assumes "progress_action pw pt r e s = Abort x s'"
  shows "se_sleepUsed s' = se_sleepUsed s \<and> se_systemSleepMax s' = se_systemSleepMax s"
  using assms by (auto simp: progress_action_def Let_def split: if_splits dest!: dispatch_event_abort)

text \<open>
  Over all the events one call of \<open>progress\<close> handles: only the last one is charged, and a charge that
  came with a snapshot counts for the first one only.
\<close>

lemma progress_charged:
  assumes "progress pw pt r e s as = Some (p, s', as')" and "sleep_ok s" and "r < length (se_runs s)"
  shows "charged_or_same pw (rs_restoring (se_runs s ! r) \<and> rs_restoreSleepCharged (se_runs s ! r)
      \<and> length (events_handled e as as') = 1) (last (events_handled e as as')) s p s'"
  using assms
proof (induction rule: progress_result_induct)
  case (return e s as p s')
  from progress_action_charged [OF this] show ?case by simp
next
  case (failed e s as x t err s2 as2)
  then show ?case
    using progress_action_abort_account executionExchange_accounts by (simp add: charged_or_same_def)
next
  case (again e s as x t e2 s2 as2 p s' as')
  note act = progress_action_run [of pw pt r e s undefined t x]
  have e: "is_suspension e" using again.hyps(1) by (rule progress_action_abort_is_suspension)
  have same: "se_runs s2 = se_runs t" "se_sleepUsed s2 = se_sleepUsed s" "se_systemSleepMax s2 = se_systemSleepMax s"
    using executionExchange_accounts [OF again.hyps(2)] progress_action_abort_account [OF again.hyps(1)] by simp_all
  have "sleep_ok s2"
    using again.prems(1) again.hyps(1,2) by (auto dest: progress_action_kept executionExchange_sleep_ok)
  moreover have "r < length (se_runs s2)" using act(1) again.hyps(1) again.prems(2) same(1) by simp
  ultimately have IH: "charged_or_same pw False (last (events_handled e2 as2 as')) s2 p s'"
    using again.IH act(3) again.hyps(1) again.prems(2) same(1) e by simp
  have "as = Inr e2 # as2" using executionExchange_answer [OF again.hyps(2)] .
  then have es: "events_handled e as as' = e # events_handled e2 as2 as'"
    using progress_answers [OF again.hyps(3)] by (simp add: events_handled_again)
  from charged_or_same_cong [OF IH same(2,3)] show ?case by (simp add: es) (simp add: events_handled_def)
qed

end
