(* ===== verification/Session_Facts.thy ===== *)
theory Session_Facts
  imports Session_Accounts
begin

text \<open>
  Consequences of the invariant for the callers of a session: what is refused while a turn runs, after
  a suspension was resumed and after \<open>Close\<close>; when a feed is stranded; that \<open>FeedRun\<close> returns.
\<close>

section \<open>Refusals\<close>

text \<open>An operation that fails at once: it hands nothing to the worker and changes nothing.\<close>

definition refused :: "'a outcome \<Rightarrow> session \<Rightarrow> answers \<Rightarrow> bool" where
  "refused r s as \<longleftrightarrow> (\<exists>e. r = Some (Inl e, s, as))"

lemma refused_during_turn:
  assumes "reachable pw pt h w" and "wo_turns w \<noteq> []" and "s = wo_session w"
  shows "refused (Session_Dump pw pt s as) s as"
    and "i < length (se_snaps s) \<Longrightarrow> refused (Snapshot_Dump pw pt i s as) s as"
    and "refused (InstallDependencies pw pt names s as) s as"
    and "refused (Session_Ops.load pw pt state o1 s as) s as"
    and "\<exists>e. FeedStart_begin pw h code options s = Inl e"
    and "i < length (se_snaps s) \<Longrightarrow> \<exists>e. exchange_begin (sn_state (snap s i)) (sn_step (snap s i)) s = Inl e"
    and "\<nexists>s'. Close_begin s = Inr (Some s')"
proof -
  have inv: "protocol_inv (protocol_of w)" by (rule reachable_inv [OF assms(1)])
  obtain t where t: "wo_turns w = [t]"
    using turn_ok_length [of "protocol_of w" "ps_turns (protocol_of w)"] inv assms(2)
    by (cases "wo_turns w") (auto simp: protocol_inv_def protocol_of_def)
  then have turn: "turn_ok (protocol_of w) [kind_of t]" using inv by (simp add: protocol_inv_def protocol_of_def)
  have busy: "se_inTurn s \<or> se_closed s" using turn assms(3) by (cases t) (auto simp: protocol_of_def)
  have key: "snap_key (se_snaps s ! i) = (sn_state (snap s i), sn_step (snap s i))" by (simp add: snap_key_def snap_def)
  have stale: "se_closed s \<or> se_pending s \<noteq> Some (sn_state (snap s i)) \<or> rs_step (se_runs s ! sn_state (snap s i)) \<noteq> sn_step (snap s i)"
    if "i < length (se_snaps s)"
  proof -
    let ?k = "(sn_state (snap s i), sn_step (snap s i))"
    have "snap_key (se_snaps s ! i) \<in> set (map snap_key (se_snaps s))" using that by simp
    then have "?k \<in> set (map snap_key (se_snaps s))" by (simp only: key)
    then have mem: "?k \<in> set (ps_suspensions (protocol_of w))" by (simp add: protocol_of_def assms(3))
    show ?thesis
    proof (cases t)
      case (FeedTurn r q)
      with turn assms(3) show ?thesis by (simp add: protocol_of_def)
    next
      case (ResumeTurn r q)
      with turn assms(3) have r: "se_pending s = Some r" by (simp add: protocol_of_def)
      with inv assms(3) have "r < length (se_runs s)" by (simp add: protocol_inv_def protocol_of_def)
      moreover from turn ResumeTurn mem have "fst ?k = r \<longrightarrow> snd ?k < ps_steps (protocol_of w) ! r" by auto
      ultimately show ?thesis using r assms(3) by (auto simp: protocol_of_def)
    next
      case CloseTurn
      with turn assms(3) show ?thesis by (simp add: protocol_of_def)
    qed
  qed
  show "refused (Session_Dump pw pt s as) s as" "refused (InstallDependencies pw pt names s as) s as"
    using busy by (auto simp: refused_def Session_Dump_def InstallDependencies_def)
  show "refused (Snapshot_Dump pw pt i s as) s as" if "i < length (se_snaps s)"
    using stale [OF that] by (auto simp: refused_def Snapshot_Dump_def snapshotDump_def)
  show "refused (Session_Ops.load pw pt state o1 s as) s as"
    using busy by (auto simp: refused_def Session_Ops.load_def load_guard_def split: sum.splits)
  show "\<exists>e. FeedStart_begin pw h code options s = Inl e"
    using busy by (cases "FeedStart_begin pw h code options s")
      (auto simp: FeedStart_begin_def feed_guard_def Let_def bind_res_eq_Inr split: if_splits)
  show "\<exists>e. exchange_begin (sn_state (snap s i)) (sn_step (snap s i)) s = Inl e" if "i < length (se_snaps s)"
    using stale [OF that] by (auto simp: exchange_begin_def)
  show "\<nexists>s'. Close_begin s = Inr (Some s')"
    using busy by (auto simp: Close_begin_def)
qed

text \<open>
  After \<open>Close\<close> every operation is refused, and \<open>Close\<close> itself does nothing.  A session is closed by
  every \<open>Close\<close> outside a turn, whatever the worker answers to the reset.
\<close>

lemma Close_closes:
  assumes "Close pw pt s as = Some (r, s', as')" and "\<not> se_inTurn s"
  shows "se_closed s'"
proof -
  have cancel: "se_closed (cancel_run i t) = se_closed t" for i t by (simp add: cancel_run_def update_run_def)
  show ?thesis
    using assms by (auto simp: Close_def Close_begin_def Close_end_def worker_exchange_def cancel Let_def
        split: sum.splits option.splits if_splits list.splits prod.splits)
qed

lemma refused_after_close:
  assumes "se_closed s"
  shows "refused (Session_Dump pw pt s as) s as" "refused (snapshotDump pw pt r st s as) s as"
    "refused (InstallDependencies pw pt names s as) s as" "refused (Session_Ops.load pw pt state o1 s as) s as"
    "refused (FeedStart pw pt h code options s as) s as" "refused (exchange pw pt r req st s as) s as"
    "Close pw pt s as = Some (Inr (), s, as)"
  using assms
  by (auto simp: refused_def Session_Dump_def snapshotDump_def InstallDependencies_def Session_Ops.load_def load_guard_def
    exchange_def exchange_begin_def Close_def Close_begin_def split: sum.splits)
    (cases "FeedStart_begin pw h code options s"; auto simp: FeedStart_def FeedStart_begin_def feed_guard_def Let_def
      bind_res_eq_Inr split: if_splits)

section \<open>A stranded feed\<close>

text \<open>
  A snapshot is claimed before its answer is encoded.  When the answer cannot be encoded, the resume
  fails and the snapshot is spent, but the feed stays suspended: no operation but \<open>Close\<close> helps.
\<close>

definition stranded :: "session \<Rightarrow> bool" where
  "stranded s \<longleftrightarrow> se_pending s \<noteq> None \<and> \<not> se_closed s
     \<and> (\<forall>i < length (se_snaps s). se_pending s = Some (sn_state (snap s i))
          \<longrightarrow> rs_step (se_runs s ! sn_state (snap s i)) = sn_step (snap s i) \<longrightarrow> snd (se_snaps s ! i))"

lemma stranded_refuses:
  assumes "stranded s" and "i < length (se_snaps s)" and "sn_state (snap s i) = r" and "se_pending s = Some r"
    and "rs_step (se_runs s ! r) = sn_step (snap s i)"
  shows "claim i s = Inl resumed_error" and "refused (Snapshot_Dump pw pt i s as) s as"
    and "refused (Session_Dump pw pt s as) s as" and "refused (FeedStart pw pt h code options s as) s as"
proof -
  have used: "snd (se_snaps s ! i)" using assms by (simp add: stranded_def)
  then show "claim i s = Inl resumed_error" by (cases "se_snaps s ! i") (simp add: claim_def)
  show "refused (Snapshot_Dump pw pt i s as) s as" using used by (simp add: Snapshot_Dump_def refused_def)
  show "refused (Session_Dump pw pt s as) s as"
    using assms(4) by (auto simp: Session_Dump_def refused_def)
  show "refused (FeedStart pw pt h code options s as) s as"
    using assms(4) by (cases "FeedStart_begin pw h code options s")
      (auto simp: FeedStart_def FeedStart_begin_def feed_guard_def Let_def bind_res_eq_Inr refused_def split: if_splits)
qed

lemma keys_distinct:
  assumes "protocol_inv (protocol_of (world s ts rs))" and "i < length (se_snaps s)" and "j < length (se_snaps s)"
    and "snap_key (se_snaps s ! i) = snap_key (se_snaps s ! j)"
  shows "i = j"
proof -
  have "distinct (map snap_key (se_snaps s))" using assms(1) by (simp add: protocol_inv_def protocol_of_def)
  with assms(2-4) show ?thesis by (simp add: distinct_conv_nth) blast
qed

lemma failed_resume_strands:
  assumes "protocol_inv (protocol_of (world s ts rs))" and "\<not> se_closed s" and "i < length (se_snaps s)"
    and "\<not> snd (se_snaps s ! i)" and "se_pending s = Some (sn_state (snap s i))"
    and "rs_step (se_runs s ! sn_state (snap s i)) = sn_step (snap s i)"
  shows "\<exists>s'. claimed i (resume_with pw pt i (Inl e)) s as = Some (Inl e, s', as) \<and> stranded s'"
proof -
  define s' where "s' = s\<lparr>se_snaps := (se_snaps s)[i := (snap s i, True)]\<rparr>"
  have "claimed i (resume_with pw pt i (Inl e)) s as = Some (Inl e, s', as)"
    using assms(4) by (cases "se_snaps s ! i") (simp add: claimed_def claim_def resume_with_def s'_def snap_def)
  moreover have "stranded s'"
  proof -
    have snap: "snap s' j = snap s j" for j
      using assms(3) by (cases "i = j") (simp_all add: s'_def snap_def)
    have "snd (se_snaps s' ! j)"
      if "j < length (se_snaps s)" "se_pending s = Some (sn_state (snap s j))"
        "rs_step (se_runs s ! sn_state (snap s j)) = sn_step (snap s j)" for j
    proof -
      have "snap_key (se_snaps s ! j) = snap_key (se_snaps s ! i)"
        using that assms(5,6) by (simp add: snap_key_def snap_def)
      with keys_distinct [OF assms(1) that(1) assms(3)] have "j = i" by simp
      then show ?thesis using assms(3) by (simp add: s'_def)
    qed
    then show ?thesis using assms(2,5) by (simp add: stranded_def snap) (simp add: s'_def)
  qed
  ultimately show ?thesis by blast
qed

section \<open>Every resume uses up an answer\<close>

lemma exchange_shorter:
  assumes "exchange pw pt r req st s as = Some (Inr p, s', as')"
  shows "length as' < length as"
proof -
  from assms obtain s1 where s1: "exchange_begin r st s = Inr s1" by (auto simp: exchange_def split: sum.splits)
  with assms obtain e s2 as2 where ex: "executionExchange req s1 as = Some (Inr e, s2, as2)"
    "progress pw pt r e (s2\<lparr>se_inTurn := False\<rparr>) as2 = Some (Inr p, s', as')"
    by (auto simp: exchange_def exchange_end_def Let_def split: option.splits sum.splits prod.splits)
  have "length as' \<le> length as2" if "progress pw pt r e s as2 = Some (p, s', as')" for pw pt r e s as2 p s' as'
    using that
  proof (induction pw pt r e s as2 rule: progress.induct)
    case (1 pw pt r e s as)
    then show ?case
      by (auto simp: progress.simps [of pw pt r e s] split: event_action.splits option.splits prod.splits sum.splits)
        (fastforce dest: executionExchange_frame)+
  qed
  with ex executionExchange_shorter [OF ex(1)] show ?thesis by fastforce
qed

lemma resume_with_shorter: "resume_with pw pt i req s as = Some (Inr p, s', as') \<Longrightarrow> length as' < length as"
  by (auto simp: resume_with_def split: sum.splits dest: exchange_shorter)

lemma claimed_shorter:
  assumes "claimed i run s as = Some (Inr p, s', as')" and "\<And>s. run s as = Some (Inr p, s', as') \<Longrightarrow> length as' < length as"
  shows "length as' < length as"
  using assms by (auto simp: claimed_def split: sum.splits)

lemma ResumeAuto_shorter:
  assumes "Snapshot_ResumeAuto pw pt h env ctxErr pick i s as = Some (Inr p, s', as')"
  shows "length as' < length as"
  using assms
  by (auto simp: Snapshot_ResumeAuto_def FunctionSnapshot_ResumeAuto_def NameLookupSnapshot_ResumeAuto_def
    FutureSnapshot_ResumeAuto_def name_undefined_def name_resume_def function_resume_def function_resumeEager_def Let_def
    split: snapshot_kind.splits option.splits auto_plan.splits if_splits list.splits prod.splits
    elim!: claimed_shorter dest: resume_with_shorter)

end
