(* ===== verification/Session_Restore.thy ===== *)
theory Session_Restore
  imports Session_Facts
begin

text \<open>
  A suspended feed moved to another session: \<open>Dump\<close> of its snapshot, then \<open>LoadSnapshot\<close> in a fresh
  session.  The budgets go with it, and the suspension that was dumped is not counted again.
\<close>

lemma dump_result_Inr:
  assumes "dump_result pw pt m (worker_exchange req s as) = Some (Inr b, s', as')"
  obtains e where "ce_kind e = Some eventDump" "as = Inr e # as'" "s' = s\<lparr>se_sent := se_sent s @ [req]\<rparr>"
    "b = encodeSnapshot pw (decodeBytesField pw (ce_body e) 1) m"
  using assms by (auto simp: dump_result_def worker_exchange_def split: list.splits sum.splits if_splits)

lemma charge_sleep_restored:
  assumes "charge_sleep r True c s = Return (Inr p) s'" and "rs_restoreSleepCharged (se_runs s ! r)"
  shows "se_sleepUsed s' = se_sleepUsed s \<and> se_maxDuration s' = se_maxDuration s \<and> se_runs s' = se_runs s"
  using assms
  by (auto simp: charge_sleep_def Let_def add_snapshot_def split: list.splits Value.splits if_splits)

lemma dispatch_event_restored:
  assumes "dispatch_event pw pt r True k body s = Return (Inr p) s'" and "rs_restoreSleepCharged (se_runs s ! r)"
  shows "se_sleepUsed s' = se_sleepUsed s \<and> se_maxDuration s' = se_maxDuration s \<and> se_runs s' = se_runs s"
  using assms
  by (cases k) (auto simp: dispatch_event_def Let_def add_snapshot_def split: sum.splits if_splits
    dest!: charge_sleep_restored)

text \<open>The first event of a restored feed, when the feed is not aborted.\<close>

lemma restored_progress:
  assumes "progress_action pw pt r e s = Return (Inr (Suspended i)) s'" and "r < length (se_runs s)"
    and "rs_restoring (se_runs s ! r)" and "rs_restoreSleepCharged (se_runs s ! r)"
  shows "se_sleepUsed s' = se_sleepUsed s \<and> se_maxDuration s' = se_maxDuration s
    \<and> rs_suspensions (se_runs s' ! r) = rs_suspensions (se_runs s ! r)"
proof -
  define k where "k = the (ce_kind e)"
  define s0 where "s0 = (if k = eventComplete \<or> eventError \<le> k then cancel_run r s else s)"
  define s1 where "s1 = (if suspension_event k then count_suspension r s0 else s0)"
  have s1: "se_sleepUsed s1 = se_sleepUsed s" "se_maxDuration s1 = se_maxDuration s"
    "rs_suspensions (se_runs s1 ! r) = rs_suspensions (se_runs s ! r)" "rs_restoreSleepCharged (se_runs s1 ! r)"
    using assms(2-4) by (simp_all add: s1_def s0_def cancel_run_def count_suspension_def update_run_def)
  have "progress_action pw pt r e s = (if suspension_event k \<and> suspension_limit s1 < rs_suspensions (se_runs s1 ! r)
      then Abort too_many_suspensions s1 else dispatch_event pw pt r True k (ce_body e) s1)"
    using assms(3) unfolding progress_action_def Let_def k_def [symmetric] s0_def [symmetric] s1_def [symmetric] by simp
  with assms(1) have "dispatch_event pw pt r True k (ce_body e) s1 = Return (Inr (Suspended i)) s'"
    by (simp split: if_splits)
  from dispatch_event_restored [OF this s1(4)] s1 show ?thesis by simp
qed

text \<open>Loading with a single answer of the worker: there is no answer left to abort the feed with.\<close>

lemma observeEvent_budget [simp]:
  "se_sleepUsed (observeEvent e s) = se_sleepUsed s" "se_maxDuration (observeEvent e s) = se_maxDuration s"
  by (simp_all add: observeEvent_def Let_def split: option.split)

lemma executionExchange_empty: "executionExchange req s [] = Some (res, s', as') \<Longrightarrow> \<exists>e. res = Inl e"
  by (auto simp: executionExchange_def worker_exchange_def split: if_splits)

lemma load_suspended:
  assumes "Session_Ops.load pw pt data o1 s [Inr e] = Some (Inr (Some i), s', as')"
    and "decodeSnapshot pw data = Inr (ws, m)" and "sm_hasSleepUsage m"
  shows "se_sleepUsed s' = sm_sleepUsed m \<and> se_maxDuration s' = restored_duration (se_maxDuration s) (sm_duration m)
    \<and> se_pending s' = Some (length (se_runs s)) \<and> rs_suspensions (se_runs s' ! length (se_runs s)) = sm_suspensions m
    \<and> hd (drop (length (se_sent s)) (se_sent s')) = request reqLoad (fieldBytes pw 1 ws)"
proof -
  let ?r = "length (se_runs s)"
  let ?n = "(case ce_restoredScriptName e of None \<Rightarrow> load_begin o1 m s | Some n \<Rightarrow> (load_begin o1 m s)\<lparr>se_scriptName := n\<rparr>)"
  let ?q = "request reqLoad (fieldBytes pw 1 ws)"
  have load_scriptName: "(case ce_restoredScriptName e of None \<Rightarrow> (load_begin o1 m s)\<lparr>se_sent := se_sent s @ [?q]\<rparr>
      | Some n \<Rightarrow> (load_begin o1 m s)\<lparr>se_sent := se_sent s @ [?q], se_scriptName := n\<rparr>) = ?n\<lparr>se_sent := se_sent s @ [?q]\<rparr>"
    by (simp split: option.split)
  define s1 where "s1 = observeEvent e (case ce_restoredScriptName e of
      None \<Rightarrow> (load_begin o1 m s)\<lparr>se_sent := se_sent s @ [?q]\<rparr>
    | Some n \<Rightarrow> (load_begin o1 m s)\<lparr>se_sent := se_sent s @ [?q], se_scriptName := n\<rparr>)"
  have s1: "se_sleepUsed s1 = sm_sleepUsed m" "se_maxDuration s1 = restored_duration (se_maxDuration s) (sm_duration m)"
    "se_sent s1 = se_sent s @ [?q]" "?r < length (se_runs s1)" "rs_suspensions (se_runs s1 ! ?r) = sm_suspensions m"
    "rs_restoring (se_runs s1 ! ?r)" "rs_restoreSleepCharged (se_runs s1 ! ?r)"
    using assms(3) by (simp_all add: s1_def load_begin_def newRunState_def split: option.split)
  from assms(1,2) obtain s2 where s2: "progress pw pt ?r e s1 [] = Some (Inr (Suspended i), s2, as')"
    "s' = s2\<lparr>se_pending := Some ?r\<rparr>"
    by (auto simp: Session_Ops.load_def Let_def load_end_def worker_exchange_def s1_def load_begin_def
      split: option.splits sum.splits if_splits Progress.splits)
  obtain p s3 where action: "progress_action pw pt ?r e s1 = Return p s3"
    using s2(1) executionExchange_empty
    by (cases "progress_action pw pt ?r e s1") (fastforce simp: progress.simps [of pw pt ?r e s1] split: option.splits sum.splits)+
  with s2(1) have "p = Inr (Suspended i)" "s3 = s2" by (simp_all add: progress.simps [of pw pt ?r e s1])
  with restored_progress [OF action [unfolded \<open>p = _\<close>] s1(4,6,7)] s1(1,2,5) s2(2)
  have "se_sleepUsed s' = sm_sleepUsed m \<and> se_maxDuration s' = restored_duration (se_maxDuration s) (sm_duration m)
    \<and> rs_suspensions (se_runs s' ! ?r) = sm_suspensions m" by simp
  moreover have "prefix (se_sent s1) (se_sent s')"
    using progress_handled [OF s2(1) s1(4)] s2(2) by (simp add: handled_def)
  then have "hd (drop (length (se_sent s)) (se_sent s')) = ?q" by (auto simp: prefix_def s1(3))
  ultimately show ?thesis using s2(2) by simp
qed

text \<open>The restored limit is never weaker than either of the two.\<close>

lemma restored_duration_tighter:
  shows "0 <s own \<Longrightarrow> 0 <s restored_duration own saved \<and> restored_duration own saved \<le>s own"
    and "0 \<le>s own \<Longrightarrow> 0 <s saved \<Longrightarrow> 0 <s restored_duration own saved \<and> restored_duration own saved \<le>s saved"
proof -
  have "0 \<le> sint own \<Longrightarrow> own \<noteq> 0 \<Longrightarrow> 0 < sint own"
    using signed_word_eqI [of own 0] by (fastforce simp: order_less_le)
  then show "0 <s own \<Longrightarrow> 0 <s restored_duration own saved \<and> restored_duration own saved \<le>s own"
    "0 \<le>s own \<Longrightarrow> 0 <s saved \<Longrightarrow> 0 <s restored_duration own saved \<and> restored_duration own saved \<le>s saved"
    by (auto simp: restored_duration_def word_sless_alt word_sle_eq)
qed

lemma nonneg_unsigned: "0 \<le> sint (x :: uint64) \<Longrightarrow> \<not> 2 ^ 63 - 1 < x"
proof -
  assume "0 \<le> sint x"
  then have "int (unat x) < 2 ^ 63" using sint_range(2) [of x] by (simp only: unat_nonneg)
  then have "int (unat x) < int (2 ^ 63)" by simp
  then have "unat x < 2 ^ 63" by (simp only: of_nat_less_iff)
  then show ?thesis by (simp add: not_less word_le_nat_alt)
qed

lemma nonneg_unsigned_iff: "2 ^ 63 - 1 < (x :: uint64) \<longleftrightarrow> sint x < 0"
proof
  assume *: "sint x < 0"
  show "2 ^ 63 - 1 < x"
  proof (rule ccontr)
    assume "\<not> 2 ^ 63 - 1 < x"
    then have "unat x < 2 ^ 63" by (simp add: not_less word_le_nat_alt)
    then have "sint x = int (unat x)" using sint_of_nat_small [of "unat x"] by simp
    with * show False by simp
  qed
qed (use nonneg_unsigned [of x] in linarith)

lemma dump_then_load:
  assumes "wire_format pw" and "0 \<le> sint (se_maxDuration s)" and "0 \<le> sint (se_sleepUsed s)"
    and "Snapshot_Dump pw pt j s as = Some (Inr data, s1, as1)" and "as = Inr d # as1"
    and "decodeBytesField pw (ce_body d) 1 \<noteq> []" and "se_pending s = Some r"
    and "Session_Ops.load pw pt data o1 t [Inr e] = Some (Inr (Some i), t', bs)"
  shows "se_sleepUsed t' = se_sleepUsed s \<and> se_maxDuration t' = restored_duration (se_maxDuration t) (se_maxDuration s)
    \<and> se_pending t' = Some (length (se_runs t))
    \<and> rs_suspensions (se_runs t' ! length (se_runs t)) = rs_suspensions (se_runs s ! r)
    \<and> hd (drop (length (se_sent t)) (se_sent t'))
        = request reqLoad (fieldBytes pw 1 (decodeBytesField pw (ce_body d) 1))"
proof -
  let ?m = "\<lparr>sm_duration = se_maxDuration s, sm_suspensions = rs_suspensions (se_runs s ! r),
     sm_sleepUsed = se_sleepUsed s, sm_hasSleepUsage = False\<rparr>"
  from assms(4,7) have "dump_result pw pt ?m (worker_exchange (request reqDump []) s as) = Some (Inr data, s1, as1)"
    by (auto simp: Snapshot_Dump_def snapshotDump_def split: if_splits)
  then have "data = encodeSnapshot pw (decodeBytesField pw (ce_body d) 1) ?m"
    by (rule dump_result_Inr) (simp add: assms(5))
  then have "decodeSnapshot pw data = Inr (decodeBytesField pw (ce_body d) 1, ?m\<lparr>sm_hasSleepUsage := True\<rparr>)"
    using nonneg_unsigned [OF assms(2)] nonneg_unsigned [OF assms(3)] assms(6)
    by (simp add: wire_format.decodeSnapshot_encodeSnapshot [OF assms(1)])
  from load_suspended [OF assms(8) this] show ?thesis by simp
qed

end
