(* ===== verification/Session_Run.thy ===== *)
theory Session_Run
  imports Session_Facts
begin

text \<open>
  \<open>FeedRun\<close> (\<open>session.go\<close> lines 285-303): a feed that is resumed until it is complete.  The loop is
  a total function, because every resume uses up an answer of the worker; \<^const>\<open>None\<close> means that a
  resume is still waiting, for the worker or for a future.  The facts say when it does not wait for ever.
\<close>

section \<open>The loop\<close>

type_synonym environment = "callback \<Rightarrow> callback_result"
type_synonym picks = "session \<Rightarrow> nat \<Rightarrow> nat option"

function feed_loop ::
  "protowire \<Rightarrow> (int \<Rightarrow> string) \<Rightarrow> heap \<Rightarrow> environment \<Rightarrow> go_error option \<Rightarrow> picks
   \<Rightarrow> Progress \<Rightarrow> session \<Rightarrow> answers \<Rightarrow> Value outcome" where
  "feed_loop pw pt h env ctxErr pick p s as =
     (case p of
        Complete v \<Rightarrow> Some (Inr v, s, as)
      | Suspended i \<Rightarrow>
          (case Snapshot_ResumeAuto pw pt h env ctxErr pick i s as of
             None \<Rightarrow> None
           | Some (Inl e, s, as) \<Rightarrow> Some (Inl e, s, as)
           | Some (Inr p, s, as) \<Rightarrow> feed_loop pw pt h env ctxErr pick p s as))"
  by pat_completeness auto
termination
  by (relation "measure (\<lambda>(pw, pt, h, env, ctxErr, pick, p, s, as). length as)") (auto dest: ResumeAuto_shorter)

declare feed_loop.simps [simp del]

definition FeedRun ::
  "protowire \<Rightarrow> (int \<Rightarrow> string) \<Rightarrow> heap \<Rightarrow> environment \<Rightarrow> go_error option \<Rightarrow> picks
   \<Rightarrow> string \<Rightarrow> feed_options list \<Rightarrow> session \<Rightarrow> answers \<Rightarrow> Value outcome" where
  "FeedRun pw pt h env ctxErr pick code options s as =
     (case FeedStart pw pt h code options s as of
        None \<Rightarrow> None
      | Some (Inl e, s, as) \<Rightarrow> Some (Inl e, s, as)
      | Some (Inr p, s, as) \<Rightarrow> feed_loop pw pt h env ctxErr pick p s as)"

section \<open>When nothing waits for ever\<close>

text \<open>The worker will give an answer that ends the feed; every select finds a channel that is ready.\<close>

definition answers_end :: "answers \<Rightarrow> bool" where
  "answers_end as \<longleftrightarrow> (\<exists>a \<in> set as. final_answer a)"

definition ready_picks :: "picks \<Rightarrow> bool" where
  "ready_picks pick \<longleftrightarrow> (\<forall>s i k. pick s i = Some k \<longrightarrow> k < length (pending_ids s i)
     \<and> map_of (rs_futures (se_runs s ! sn_state (snap s i))) (pending_ids s i ! k) \<noteq> Some None)"

text \<open>An operation returns, and if the feed is suspended then the final answer is still to come.\<close>

definition goes_on :: "Progress outcome \<Rightarrow> bool" where
  "goes_on out \<longleftrightarrow> (\<exists>p s as. out = Some (p, s, as) \<and> ((\<exists>i. p = Inr (Suspended i)) \<longrightarrow> answers_end as))"

lemma goes_on_simps [simp]:
  "\<not> goes_on None" "goes_on (Some (Inl e, s, as))" "goes_on (Some (Inr (Complete v), s, as))"
  "goes_on (Some (Inr (Suspended i), s, as)) = answers_end as"
  by (auto simp: goes_on_def)

lemma answers_end_Cons [simp]: "answers_end (a # as) = (final_answer a \<or> answers_end as)"
  by (simp add: answers_end_def)

lemma answers_end_Nil [simp]: "\<not> answers_end []"
  by (simp add: answers_end_def)

lemma progress_action_suspended:
  assumes "progress_action pw pt r e s = Return (Inr (Suspended i)) s'"
  shows "suspension_event (the (ce_kind e))"
  using assms
  by (cases "the (ce_kind e)")
    (auto simp: progress_action_def Let_def suspension_event_def event_order dispatch_event_def split: sum.splits if_splits)

lemma progress_suspended:
  assumes "progress pw pt r e s as = Some (p, s', as')" and "final_answer (Inr e) \<or> answers_end as" and "p = Inr (Suspended i)"
  shows "answers_end as'"
  using assms
proof (induction rule: progress_result_induct)
  case (return e s as p s')
  then show ?case using progress_action_suspended by auto
next
  case (again e s as x t e2 s2 as2 p s' as')
  then show ?case
    using progress_action_abort_suspension [OF again.hyps(1)] executionExchange_answer [OF again.hyps(2)] by auto
qed simp

lemma progress_goes_on:
  assumes "final_answer (Inr e) \<or> answers_end as"
  shows "goes_on (progress pw pt r e s as)"
proof -
  from progress_returns [of e as pw pt r s] assms obtain p s' as' where "progress pw pt r e s as = Some (p, s', as')"
    by (cases "progress pw pt r e s as") (auto simp: answers_end_def)
  then show ?thesis using progress_suspended [OF _ assms] by (auto simp: goes_on_def)
qed

lemma executionExchange_ends:
  assumes "answers_end as"
  shows "(\<exists>err s' as'. executionExchange req s as = Some (Inl err, s', as'))
    \<or> (\<exists>e s' as'. executionExchange req s as = Some (Inr e, s', as') \<and> (final_answer (Inr e) \<or> answers_end as'))"
proof (cases "executionExchange req s as")
  case None
  with assms show ?thesis by (auto dest: executionExchange_None)
next
  case (Some y)
  obtain res s' as' where y: "y = (res, s', as')" by (cases y)
  then show ?thesis using Some assms executionExchange_answer [of req s as _ s' as'] by (cases res) auto
qed

lemma exchange_goes_on:
  assumes "answers_end as"
  shows "goes_on (exchange pw pt r req st s as)"
proof (cases "exchange_begin r st s")
  case (Inr s1)
  then show ?thesis
    using executionExchange_ends [OF assms, of req s1] progress_goes_on
    by (auto simp: exchange_def exchange_end_def Let_def)
qed (simp add: exchange_def)

lemma resume_with_goes_on: "answers_end as \<Longrightarrow> goes_on (resume_with pw pt i req s as)"
  by (cases req) (simp_all add: resume_with_def exchange_goes_on)

lemma claimed_goes_on:
  "(\<And>s1. claim i s = Inr s1 \<Longrightarrow> goes_on (run s1 as)) \<Longrightarrow> goes_on (claimed i run s as)"
  by (simp add: claimed_def split: sum.splits)

lemma claim_snap: "claim i s = Inr s1 \<Longrightarrow> snap s1 j = snap s j \<and> se_runs s1 = se_runs s"
  by (cases "i < length (se_snaps s)"; cases "i = j")
    (auto simp: claim_def snap_def list_update_beyond split: prod.splits if_splits)

lemma FutureSnapshot_goes_on:
  assumes "answers_end as" and "ready_picks pick"
  shows "goes_on (FutureSnapshot_ResumeAuto pw pt h ctxErr (pick s i) i s as)"
  unfolding FutureSnapshot_ResumeAuto_def
proof (rule claimed_goes_on, goal_cases)
  case (1 s1)
  have same: "pending_ids s1 i = pending_ids s i" "snap s1 i = snap s i" "se_runs s1 = se_runs s"
    using claim_snap [OF 1] by (simp_all add: pending_ids_def)
  have "\<not> (length (pending_ids s i) \<le> k
      \<or> map_of (rs_futures (se_runs s ! sn_state (snap s i))) (pending_ids s i ! k) = Some None)" if "pick s i = Some k" for k
    using assms(2) [unfolded ready_picks_def, rule_format, OF that] by simp
  then show ?case
    by (auto simp: Let_def same resume_with_goes_on [OF assms(1)] split: list.splits option.splits prod.splits)
qed

lemma ResumeAuto_goes_on:
  assumes "answers_end as" and "ready_picks pick"
  shows "goes_on (Snapshot_ResumeAuto pw pt h env ctxErr pick i s as)"
proof (cases "sn_kind (snap s i)")
  case (FunctionSnapshot c)
  then show ?thesis
    unfolding Snapshot_ResumeAuto_def FunctionSnapshot_ResumeAuto_def function_resume_def function_resumeEager_def
    using resume_with_goes_on [OF assms(1)]
    by (auto simp: Let_def split: auto_plan.splits intro!: claimed_goes_on)
next
  case (NameLookupSnapshot p n j)
  then show ?thesis
    unfolding Snapshot_ResumeAuto_def NameLookupSnapshot_ResumeAuto_def name_undefined_def name_resume_def
    using resume_with_goes_on [OF assms(1)] by (auto split: option.splits intro!: claimed_goes_on)
next
  case (FutureSnapshot p ids)
  then show ?thesis using FutureSnapshot_goes_on [OF assms] by (simp add: Snapshot_ResumeAuto_def)
qed

lemma feed_loop_returns:
  assumes "ready_picks pick" and "(\<exists>i. p = Suspended i) \<Longrightarrow> answers_end as"
  shows "\<exists>res s' as'. feed_loop pw pt h env ctxErr pick p s as = Some (res, s', as')"
  using assms(2)
proof (induction as arbitrary: p s rule: measure_induct_rule [of length])
  case (less as)
  show ?case
  proof (cases p)
    case (Complete v)
    then show ?thesis by (simp add: feed_loop.simps)
  next
    case (Suspended i)
    with less.prems ResumeAuto_goes_on [OF _ assms(1)] obtain q s1 as1
      where step: "Snapshot_ResumeAuto pw pt h env ctxErr pick i s as = Some (q, s1, as1)"
        "(\<exists>j. q = Inr (Suspended j)) \<Longrightarrow> answers_end as1" by (fastforce simp: goes_on_def)
    show ?thesis
    proof (cases q)
      case (Inl e)
      with step(1) Suspended show ?thesis by (simp add: feed_loop.simps [of pw pt h env ctxErr pick "Suspended i"])
    next
      case (Inr p1)
      with ResumeAuto_shorter step(1) have "length as1 < length as" by blast
      from less.IH [OF this, of p1 s1] step Inr Suspended show ?thesis
        by (simp add: feed_loop.simps [of pw pt h env ctxErr pick "Suspended i"])
    qed
  qed
qed

lemma FeedStart_goes_on:
  assumes "answers_end as"
  shows "goes_on (FeedStart pw pt h code options s as)"
proof (cases "FeedStart_begin pw h code options s")
  case (Inr x)
  obtain r req s1 where x: "x = (r, req, s1)" by (cases x)
  have "goes_on (FeedStart_end pw pt r (Inr e) s2 as2)" if "final_answer (Inr e) \<or> answers_end as2" for e s2 as2
    using progress_goes_on [OF that, of pw pt r "s2\<lparr>se_inTurn := False\<rparr>"]
    by (auto simp: FeedStart_end_def goes_on_def Let_def split: sum.splits)
  then show ?thesis
    using executionExchange_ends [OF assms, of req s1] Inr x
    by (auto simp: FeedStart_def) (simp add: FeedStart_end_def)
qed (simp add: FeedStart_def)

lemma FeedRun_returns:
  assumes "answers_end as" and "ready_picks pick"
  shows "\<exists>res s' as'. FeedRun pw pt h env ctxErr pick code options s as = Some (res, s', as')"
proof -
  from FeedStart_goes_on [OF assms(1)] obtain p s1 as1 where start: "FeedStart pw pt h code options s as = Some (p, s1, as1)"
    "(\<exists>i. p = Inr (Suspended i)) \<Longrightarrow> answers_end as1" by (fastforce simp: goes_on_def)
  show ?thesis
  proof (cases p)
    case (Inl e)
    with start show ?thesis by (simp add: FeedRun_def)
  next
    case (Inr q)
    with start feed_loop_returns [OF assms(2), of q as1 pw pt h env ctxErr s1] show ?thesis by (simp add: FeedRun_def)
  qed
qed

end
