(* ===== verification/Request_Facts.thy ===== *)
theory Request_Facts
  imports Arena_Roundtrip Events "HOL-Library.Multiset"
begin

text \<open>What the worker reads out of a request, and what an accepted event guarantees.\<close>

section \<open>Requests\<close>

context wire_format begin

lemma resumeCallRequest_fields:
  assumes "resumeCallRequest pw h callID (resume_value v) = Inr req"
  obtains i :: uint32 and ns where "arena_add pw h v [] = Inr (i, ns)" "rq_kind req = reqResumeCall"
    "decodeBytesField pw (rq_body req) 2 = fieldVarint pw 1 (ucast i)"
    "messageArena pw (rq_body req) 3 = decodeArena pw (arena_encode pw ns)"
  using assms that
  by (auto simp: resumeCallRequest_def encodeResumeResultArena_def resume_value_def bind_res_eq_Inr messageArena_def
    decodeBytesField_def parse_ignore_def message_parse)

lemma resumeCallRequest_delivers:
  assumes "resumeCallRequest pw h callID (resume_value v) = Inr req"
  shows "\<exists>(i :: uint32) ns. arena_add pw h v [] = Inr (i, ns)
    \<and> decodeBytesField pw (rq_body req) 2 = fieldVarint pw 1 (ucast i)
    \<and> (length ns \<le> 2 ^ 32 \<longrightarrow>
        (\<exists>vals w. messageArena pw (rq_body req) 3 = Inr vals \<and> denotes h v w \<and> arenaRef vals (ucast i) = Inr w))"
proof -
  from assms obtain i :: uint32 and ns where i: "arena_add pw h v [] = Inr (i, ns)"
    "decodeBytesField pw (rq_body req) 2 = fieldVarint pw 1 (ucast i)"
    "messageArena pw (rq_body req) 3 = decodeArena pw (arena_encode pw ns)" by (rule resumeCallRequest_fields)
  have all: "arena_add_all pw h [v] [] = Inr ([i], ns)" by (simp add: i(1))
  have "\<exists>vals w. messageArena pw (rq_body req) 3 = Inr vals \<and> denotes h v w \<and> arenaRef vals (ucast i) = Inr w"
    if "length ns \<le> 2 ^ 32"
    using arena_roundtrip_lists [OF all that] unfolding i(3) by (auto simp: list_all2_Cons1 bind_res_eq_Inr)
  with i show ?thesis by blast
qed

end

text \<open>The order of the inputs does not matter: the code sorts the names.\<close>

lemma feedRequest_order:
  assumes "distinct (map fst xs)" and "set xs = set ys" and "distinct (map fst ys)"
  shows "feedRequest pw h code xs skip cwd = feedRequest pw h code ys skip cwd"
proof -
  have "distinct xs" "distinct ys" using assms(1,3) by (auto simp: distinct_map)
  with assms(2) have "mset xs = mset ys" by (simp add: set_eq_iff_mset_eq_distinct)
  moreover have "inj_on fst (set xs)" using assms(1) by (simp add: distinct_map)
  ultimately have "sort_key fst xs = sort_key fst ys"
    by (intro sort_key_inj_key_eq) simp_all
  then show ?thesis by (simp add: feedRequest_def)
qed

section \<open>Events\<close>

text \<open>\<open>decodeEvent\<close> accepts a message with exactly one of the fields 1 to 12, and that field is the event.\<close>

definition event_fields :: "wire_field list \<Rightarrow> wire_field list" where
  "event_fields fs = filter (\<lambda>f. 1 \<le> tag f \<and> tag f \<le> 12) fs"

lemma event_fold:
  assumes "fold_res event_field fs e = ok e'"
  shows "(ce_kind e \<noteq> None \<longrightarrow> event_fields fs = [] \<and> ce_kind e' = ce_kind e \<and> ce_body e' = ce_body e)
    \<and> (ce_kind e = None \<longrightarrow> (case event_fields fs of
         [] \<Rightarrow> ce_kind e' = None
       | [f] \<Rightarrow> ce_kind e' = Some (event_kinds ! (tag f - 1)) \<and> ce_body e' = bytes f
       | _ \<Rightarrow> False))"
  using assms
proof (induction fs arbitrary: e)
  case (Cons f fs)
  obtain e1 r where f: "event_field f e = (e1, r)" by (cases "event_field f e")
  with Cons.prems have r: "r = None" "fold_res event_field fs e1 = ok e'" by (auto split: option.splits)
  from Cons.IH [OF r(2)] f [unfolded r(1)] show ?case
    by (auto simp: event_field_def event_fields_def split: if_splits list.splits)
qed (simp add: event_fields_def)

end
