(* ===== verification/Pool.thy ===== *)
theory Pool
  imports Session_Inv "HOL-Library.Multiset"
begin

text \<open>
  The worker pool (\<open>Monty\<close> in \<open>pool.go\<close>): its options, \<open>New\<close> with the prewarming, \<open>Checkout\<close>, \<open>release\<close>
  and \<open>Close\<close>.  The operations are cut where other goroutines can come between: at the channels
  \<open>idle\<close> and \<open>slots\<close> and at the mutex; \<open>Pool_Steps\<close> interleaves them.

  A \<open>*worker\<close> is the number of its start.  \<open>po_workers\<close> is the map \<open>workers\<close> as the list of its keys,
  \<open>po_slots\<close> the number of tokens in \<open>slots\<close>, \<open>po_dead\<close> the workers that were killed or shut down.
\<close>

section \<open>Options\<close>

record pool_options =
  pl_BinaryPath :: string
  pl_AutoInstall :: bool
  pl_MinProcesses :: uint64
  pl_MaxProcesses :: uint64
  pl_DurationLimitGrace :: uint64
  pl_DisableDurationLimitBackstop :: bool
  pl_MaxCheckoutsPerWorker :: uint64

definition default_options :: pool_options where
  "default_options = \<lparr>pl_BinaryPath = [], pl_AutoInstall = False, pl_MinProcesses = 0, pl_MaxProcesses = 0,
     pl_DurationLimitGrace = 0, pl_DisableDurationLimitBackstop = False, pl_MaxCheckoutsPerWorker = 0\<rparr>"

text \<open>\<open>procs\<close> is \<open>runtime.GOMAXPROCS(0)\<close>.\<close>

definition New_options :: "uint64 \<Rightarrow> pool_options list \<Rightarrow> go_error + pool_options" where
  "New_options procs options =
     (if 1 < length options then Inl (plain_error ''New accepts at most one Options value'')
      else
        let o1 = (case options of [] \<Rightarrow> default_options | o1 # _ \<Rightarrow> o1);
            o1 = (if pl_MaxProcesses o1 = 0 then o1\<lparr>pl_MaxProcesses := procs\<rparr> else o1)
        in if pl_MaxProcesses o1 <s 1 then Inl (plain_error ''MaxProcesses must be at least 1'')
           else
             let o1 = (if pl_MinProcesses o1 = 0 then o1\<lparr>pl_MinProcesses := 1\<rparr> else o1)
             in if pl_MinProcesses o1 <s 0 \<or> pl_MaxProcesses o1 <s pl_MinProcesses o1
                  then Inl (plain_error ''MinProcesses must be between 0 and MaxProcesses'')
                else if pl_MaxCheckoutsPerWorker o1 <s 0
                  then Inl (plain_error ''MaxCheckoutsPerWorker cannot be negative'')
                else if pl_DurationLimitGrace o1 <s 0
                  then Inl (plain_error ''DurationLimitGrace cannot be negative'')
                else Inr o1)"

text \<open>\<open>found\<close> is the result of \<open>findBinary\<close>, \<open>installed\<close> that of \<open>Install\<close>.\<close>

definition New_binary :: "pool_options \<Rightarrow> go_error + string \<Rightarrow> go_error + string \<Rightarrow> go_error + string" where
  "New_binary o1 found installed =
     (case found of
        Inr b \<Rightarrow> Inr b
      | Inl e \<Rightarrow> if pl_AutoInstall o1 \<and> pl_BinaryPath o1 = [] then installed else Inl e)"

section \<open>The pool\<close>

record pool =
  po_options :: pool_options
  po_closed :: bool
  po_slots :: nat
  po_idle :: "nat list"
  po_workers :: "nat list"
  po_checkouts :: "nat \<Rightarrow> nat"
  po_started :: nat
  po_dead :: "nat list"

definition new_pool :: "pool_options \<Rightarrow> pool" where
  "new_pool o1 = \<lparr>po_options = o1, po_closed = False, po_slots = 0, po_idle = [], po_workers = [],
     po_checkouts = (\<lambda>w. 0), po_started = 0, po_dead = []\<rparr>"

text \<open>The capacity of the two channels.\<close>

definition capacity :: "pool \<Rightarrow> nat" where
  "capacity p = unat (pl_MaxProcesses (po_options p))"

definition pool_closed :: go_error where "pool_closed = plain_error ''Monty pool is closed''"

definition kill :: "nat \<Rightarrow> pool \<Rightarrow> pool" where
  "kill w p = p\<lparr>po_dead := po_dead p @ [w]\<rparr>"

definition forget :: "nat \<Rightarrow> pool \<Rightarrow> pool" where
  "forget w p = p\<lparr>po_workers := removeAll w (po_workers p)\<rparr>"

subsection \<open>Starting a worker\<close>

text \<open>\<open>newWorker\<close> succeeded; then the section of \<open>startWorker\<close> under the mutex.\<close>

definition spawn :: "pool \<Rightarrow> nat \<times> pool" where
  "spawn p = (po_started p, p\<lparr>po_started := po_started p + 1\<rparr>)"

definition startWorker_register :: "nat \<Rightarrow> pool \<Rightarrow> go_error option \<times> pool" where
  "startWorker_register w p =
     (if po_closed p then (Some pool_closed, kill w p)
      else (None, p\<lparr>po_workers := po_workers p @ [w]\<rparr>))"

definition startWorker :: "go_error option \<Rightarrow> pool \<Rightarrow> (go_error + nat) \<times> pool" where
  "startWorker startErr p =
     (case startErr of
        Some e \<Rightarrow> (Inl e, p)
      | None \<Rightarrow> (case spawn p of (w, p) \<Rightarrow>
          (case startWorker_register w p of (Some e, p) \<Rightarrow> (Inl e, p) | (None, p) \<Rightarrow> (Inr w, p))))"

subsection \<open>Closing the pool\<close>

text \<open>\<^const>\<open>None\<close>: the pool was closed before.  \<open>shutdown\<close> ends with the death of the worker.\<close>

definition Pool_Close_begin :: "pool \<Rightarrow> pool option" where
  "Pool_Close_begin p = (if po_closed p then None else Some (p\<lparr>po_closed := True\<rparr>))"

definition Pool_Close_stop :: "nat \<Rightarrow> pool \<Rightarrow> pool" where
  "Pool_Close_stop w p = kill w (forget w p)"

fun Pool_Close_drain :: "nat list \<Rightarrow> pool \<Rightarrow> pool" where
  "Pool_Close_drain [] p = p\<lparr>po_idle := []\<rparr>"
| "Pool_Close_drain (w # ws) p = Pool_Close_drain ws (Pool_Close_stop w p)"

definition Pool_Close :: "pool \<Rightarrow> pool" where
  "Pool_Close p = (case Pool_Close_begin p of None \<Rightarrow> p | Some p \<Rightarrow> Pool_Close_drain (po_idle p) p)"

subsection \<open>Creating the pool\<close>

text \<open>Each turn of the prewarming: the error of the context, if any, and that of the start.\<close>

fun prewarm :: "nat \<Rightarrow> (go_error option \<times> go_error option) list \<Rightarrow> pool \<Rightarrow> (go_error option \<times> pool) option" where
  "prewarm 0 env p = Some (None, p)"
| "prewarm (Suc n) [] p = None"
| "prewarm (Suc n) ((ctxErr, startErr) # env) p =
     (case ctxErr of
        Some e \<Rightarrow> Some (Some (Errorf ''prewarm Monty pool: %w'' [AErr e]), Pool_Close p)
      | None \<Rightarrow>
          (case startWorker startErr p of
             (Inl e, p) \<Rightarrow> Some (Some e, Pool_Close p)
           | (Inr w, p) \<Rightarrow> prewarm n env (p\<lparr>po_idle := po_idle p @ [w]\<rparr>)))"

text \<open>The pool that a failed \<open>New\<close> leaves behind is returned with the error, for what is said of it.\<close>

definition New ::
  "go_error option \<Rightarrow> uint64 \<Rightarrow> pool_options list \<Rightarrow> go_error + string \<Rightarrow> go_error + string
     \<Rightarrow> (go_error option \<times> go_error option) list \<Rightarrow> (go_error option \<times> pool option) option" where
  "New ctxErr procs options found installed env =
     (case ctxErr of
        Some e \<Rightarrow> Some (Some (Errorf ''create Monty pool: %w'' [AErr e]), None)
      | None \<Rightarrow>
     (case New_options procs options of
        Inl e \<Rightarrow> Some (Some e, None)
      | Inr o1 \<Rightarrow>
     (case New_binary o1 found installed of
        Inl e \<Rightarrow> Some (Some e, None)
      | Inr binary \<Rightarrow>
          map_option (\<lambda>(err, p). (err, Some p)) (prewarm (unat (pl_MinProcesses o1)) env (new_pool o1)))))"

section \<open>Checking out\<close>

record checkout_options =
  co_ExternalModules :: "(string \<times> Value external_module option) list option"
  co_ScriptName :: string
  co_Limits :: resource_limits
  co_TypeCheck :: bool
  co_TypeCheckStubs :: string
  co_TypeCheckFormat :: string
  co_TypeCheckColor :: bool
  co_AssertMessageAnnotations :: Value
  co_PrintFlushInterval :: uint64
  co_OSPolicy :: os_policy

definition no_checkout_options :: checkout_options where
  "no_checkout_options = \<lparr>co_ExternalModules = None, co_ScriptName = [],
     co_Limits = \<lparr>rl_MaxDuration = 0, rl_MaxFeedDuration = 0, rl_MaxTurnDuration = 0, rl_MaxTotalSleep = 0,
       rl_MaxMemory = 0, rl_GCInterval = 0, rl_MaxRecursionDepth = 0, rl_MaxSuspensions = 0\<rparr>,
     co_TypeCheck = False, co_TypeCheckStubs = [], co_TypeCheckFormat = [], co_TypeCheckColor = False,
     co_AssertMessageAnnotations = VNil, co_PrintFlushInterval = 0,
     co_OSPolicy = \<lparr>op_DateTime = [], op_FixedDateTime = None, op_TimeZone = [], op_FixedTimeZone = None, op_Sleep = [],
       op_SleepSystemMax = None, op_Random = [], op_RandomSeed = None, op_ProcessTime = []\<rparr>\<rparr>"

text \<open>The range over the map of modules, in some order.\<close>

definition check_modules :: "unicode \<Rightarrow> (string \<times> Value external_module option) list \<Rightarrow> go_error option" where
  "check_modules uc ms =
     (case filter (\<lambda>(name, m). \<not> pythonIdentifier uc name \<or> m = None) ms of
        [] \<Rightarrow> None
      | (name, m) # _ \<Rightarrow> Some (Errorf ''invalid external module %q'' [AStr name]))"

text \<open>What \<open>Checkout\<close> does before it looks at the pool: the options, the wire policy and the sleep cap.\<close>

definition Checkout_options ::
  "protowire \<Rightarrow> unicode \<Rightarrow> checkout_options list \<Rightarrow> go_error + checkout_options \<times> bytes \<times> uint64" where
  "Checkout_options pw uc options =
     (if 1 < length options then Inl (plain_error ''Checkout accepts at most one CheckoutOptions value'')
      else
        let o1 = (case options of [] \<Rightarrow> no_checkout_options | o1 # _ \<Rightarrow> o1);
            o1 = (if co_ScriptName o1 = [] then o1\<lparr>co_ScriptName := ''main.py''\<rparr> else o1)
        in if TypeCheckFormat_wire (co_TypeCheckFormat o1) = 0
             then Inl (Errorf ''unknown TypeCheckFormat %q'' [AStr (co_TypeCheckFormat o1)])
           else if co_PrintFlushInterval o1 <s 0 \<or> 2 ^ 32 - 1 <s go_div (co_PrintFlushInterval o1) Millisecond
             then Inl (plain_error ''PrintFlushInterval must be between zero and 2^32-1 milliseconds'')
           else if rl_MaxTotalSleep (co_Limits o1) <s 0 then Inl (plain_error ''MaxTotalSleep cannot be negative'')
           else (case check_modules uc (case co_ExternalModules o1 of None \<Rightarrow> [] | Some ms \<Rightarrow> ms) of
                   Some e \<Rightarrow> Inl e
                 | None \<Rightarrow> bind_res (encodeOSPolicy pw (co_OSPolicy o1)) (\<lambda>(policy, cap). Inr (o1, policy, cap))))"

definition normalizeAnnotations :: "Value \<Rightarrow> go_error + uint32 option" where
  "normalizeAnnotations x =
     (case x of
        VNil \<Rightarrow> Inr None
      | VBool b \<Rightarrow> Inr (if b then None else Some 0)
      | HInt int_kind.Int w \<Rightarrow>
          if w <s 1 \<or> 2 ^ 32 - 1 < w
          then Inl (plain_error ''AssertMessageAnnotations must be true, false, or 1..2^32-1'')
          else Inr (Some (ucast w))
      | HUint Uint32 u \<Rightarrow>
          if ucast u = (0 :: uint32) then Inl (plain_error ''AssertMessageAnnotations integer must be positive'')
          else Inr (Some (ucast u))
      | _ \<Rightarrow> Inl (Errorf ''AssertMessageAnnotations has unsupported type %T'' [AStr (type_name x)]))"

definition Checkout_configure :: "protowire \<Rightarrow> checkout_options \<Rightarrow> uint32 option \<Rightarrow> bytes \<Rightarrow> request" where
  "Checkout_configure pw o1 annotations policy = configureRequest pw
     \<lparr>cw_scriptName = co_ScriptName o1, cw_limits = co_Limits o1, cw_typeCheck = co_TypeCheck o1,
      cw_typeCheckStubs = (if co_TypeCheckStubs o1 \<noteq> [] then Some (co_TypeCheckStubs o1) else None),
      cw_typeCheckFormat = co_TypeCheckFormat o1, cw_typeCheckColor = co_TypeCheckColor o1,
      cw_assertAnnotations = annotations, cw_printFlushInterval = co_PrintFlushInterval o1, cw_osPolicy = policy\<rparr>"

definition Checkout_session :: "pool_options \<Rightarrow> checkout_options \<Rightarrow> uint64 \<Rightarrow> session" where
  "Checkout_session po o1 cap =
     (let grace = (if pl_DurationLimitGrace po = 0 then Second else pl_DurationLimitGrace po)
      in new_session (co_ScriptName o1) (map_option (map (\<lambda>(n, m). (n, the m))) (co_ExternalModules o1))
           (co_Limits o1) cap grace (\<not> pl_DisableDurationLimitBackstop po))"

text \<open>
  \<open>Checkout\<close> once it has a worker: the configuration and its answer.  The result is the session, or an
  error after which the worker is released as not reusable.
\<close>

definition Checkout_worker ::
  "protowire \<Rightarrow> (int \<Rightarrow> string) \<Rightarrow> pool_options \<Rightarrow> checkout_options \<times> bytes \<times> uint64 \<Rightarrow> (request \<Rightarrow> go_error + child_event)
     \<Rightarrow> go_error + session" where
  "Checkout_worker pw pt po x answer =
     (case x of (o1, policy, cap) \<Rightarrow>
      bind_res (normalizeAnnotations (co_AssertMessageAnnotations o1)) (\<lambda>annotations.
      bind_res (answer (Checkout_configure pw o1 annotations policy)) (\<lambda>e.
        if ce_kind e \<noteq> Some eventOK then Inl (eventErrorValue pw pt e) else Inr (Checkout_session po o1 cap))))"

text \<open>The steps of \<open>Checkout\<close> at the pool: a slot, then an idle worker or a new one.\<close>

definition take_slot :: "pool \<Rightarrow> pool option" where
  "take_slot p = (if po_slots p < capacity p then Some (p\<lparr>po_slots := po_slots p + 1\<rparr>) else None)"

definition free_slot :: "pool \<Rightarrow> pool" where
  "free_slot p = p\<lparr>po_slots := po_slots p - 1\<rparr>"

definition take_idle :: "pool \<Rightarrow> (nat \<times> pool) option" where
  "take_idle p = (case po_idle p of [] \<Rightarrow> None | w # ws \<Rightarrow> Some (w, p\<lparr>po_idle := ws\<rparr>))"

definition count_checkout :: "nat \<Rightarrow> pool \<Rightarrow> pool" where
  "count_checkout w p = p\<lparr>po_checkouts := (po_checkouts p)(w := po_checkouts p w + 1)\<rparr>"

section \<open>Releasing a worker\<close>

text \<open>\<open>release\<close> after it freed the slot: first under the mutex, then at the channel.\<close>

definition worn_out :: "pool \<Rightarrow> nat \<Rightarrow> bool" where
  "worn_out p w \<longleftrightarrow> 0 <s pl_MaxCheckoutsPerWorker (po_options p)
     \<and> unat (pl_MaxCheckoutsPerWorker (po_options p)) \<le> po_checkouts p w"

definition release_decide :: "nat \<Rightarrow> bool \<Rightarrow> pool \<Rightarrow> bool \<times> pool" where
  "release_decide w reusable p =
     (let known = w \<in> set (po_workers p) in
      if \<not> reusable \<or> po_closed p \<or> worn_out p w then (False, forget w p) else (known, p))"

definition release_return :: "nat \<Rightarrow> pool \<Rightarrow> pool" where
  "release_return w p =
     (if length (po_idle p) < capacity p then p\<lparr>po_idle := po_idle p @ [w]\<rparr> else kill w (forget w p))"

text \<open>The whole of \<open>release\<close>, when no other goroutine comes between.\<close>

definition release :: "nat \<Rightarrow> bool \<Rightarrow> pool \<Rightarrow> pool" where
  "release w reusable p =
     (case release_decide w reusable (free_slot p) of
        (known, p) \<Rightarrow> if known then release_return w p else kill w p)"

section \<open>Facts about single operations\<close>

text \<open>Every session that \<open>Checkout\<close> hands out satisfies what the session theorems start from.\<close>

lemma Checkout_options_ok:
  assumes "Checkout_options pw uc options = Inr (o1, policy, cap)"
  shows "0 \<le>s rl_MaxTotalSleep (co_Limits o1) \<and> (cap = UnlimitedSleep \<or> 0 \<le>s cap)"
proof -
  from assms have "\<not> rl_MaxTotalSleep (co_Limits o1) <s 0" "encodeOSPolicy pw (co_OSPolicy o1) = Inr (policy, cap)"
    by (auto simp: Checkout_options_def Let_def bind_res_eq_Inr split: if_splits option.splits)
  moreover from this(2) obtain x where "policy_sleep pw (co_OSPolicy o1) = Inr (x, cap)"
    by (auto simp: encodeOSPolicy_def bind_res_eq_Inr)
  ultimately show ?thesis using policy_sleep_cap by (auto simp: word_sless_alt word_sle_eq)
qed

lemma Checkout_reachable:
  assumes "Checkout_options pw uc options = Inr x" and "Checkout_worker pw pt po x answer = Inr s"
  shows "reachable pw pt h (world s [] [])"
proof -
  obtain o1 policy cap where x: "x = (o1, policy, cap)" by (cases x)
  with assms(2) have s: "s = Checkout_session po o1 cap"
    by (auto simp: Checkout_worker_def bind_res_eq_Inr split: if_splits)
  from Checkout_options_ok [OF assms(1) [unfolded x]] show ?thesis
    unfolding s Checkout_session_def Let_def by (auto intro: reachable.start)
qed

text \<open>When \<open>New\<close> fails, no worker that it started is left alive.\<close>

lemma Close_drain_dead: "Pool_Close_drain ws p = p\<lparr>po_idle := [], po_dead := po_dead p @ ws,
    po_workers := fold removeAll ws (po_workers p)\<rparr>"
  by (induction ws arbitrary: p) (simp_all add: Pool_Close_stop_def kill_def forget_def)

lemma prewarm_result:
  assumes "prewarm n env p = Some (err, p')" and "\<not> po_closed p" and "po_started p = length (po_idle p)"
    and "po_idle p = [0..<length (po_idle p)]" and "po_dead p = []"
  shows "case err of
      Some e \<Rightarrow> po_idle p' = [] \<and> set (po_dead p') = {0..<po_started p'}
    | None \<Rightarrow> po_idle p' = [0..<length (po_idle p) + n] \<and> po_started p' = length (po_idle p) + n \<and> po_dead p' = []
        \<and> \<not> po_closed p'"
  using assms
proof (induction n env p rule: prewarm.induct)
  case (3 n ctxErr startErr env p)
  have close: "po_idle (Pool_Close p) = [] \<and> set (po_dead (Pool_Close p)) = {0..<po_started (Pool_Close p)}"
    using "3.prems"(2,3,5) arg_cong [OF "3.prems"(4), of set]
    by (simp add: Pool_Close_def Pool_Close_begin_def Close_drain_dead atLeast_upt)
  show ?case
  proof (cases "ctxErr = None \<and> startErr = None")
    case True
    let ?p = "p\<lparr>po_started := Suc (po_started p), po_workers := po_workers p @ [po_started p],
      po_idle := po_idle p @ [po_started p]\<rparr>"
    have "startWorker startErr p = (Inr (po_started p), p\<lparr>po_started := Suc (po_started p),
        po_workers := po_workers p @ [po_started p]\<rparr>)"
      using True "3.prems"(2) by (simp add: startWorker_def spawn_def startWorker_register_def)
    with True "3.prems" "3.IH" show ?thesis by (auto split: option.splits)
  next
    case False
    with "3.prems"(1) have "p' = Pool_Close p" "err \<noteq> None"
      by (auto simp: startWorker_def split: option.splits)
    with close show ?thesis by auto
  qed
qed auto

end
