(* ===== verification/Pool_Steps.thy ===== *)
theory Pool_Steps
  imports Pool
begin

text \<open>
  The pool with any number of goroutines: each checkout, session and closing is an activity, and the
  steps of the activities interleave.  The invariant accounts for every worker ever started: it is
  idle, held by exactly one activity, or dead.
\<close>

section \<open>Steps\<close>

text \<open>
  Where a goroutine stands.  A checkout waits for a slot, has one, starts a worker or configures it;
  a session uses its worker; a release frees the slot, decides under the mutex, returns the worker;
  \<open>Close\<close> drains the channel and stops what it finds.
\<close>

datatype activity =
    Waiting | Slotted | Starting nat | Configuring nat | Using nat
  | Releasing nat bool | Deciding nat bool | Returning nat
  | Draining | Stopping nat

inductive activity_step :: "pool \<Rightarrow> activity \<Rightarrow> pool \<Rightarrow> activity list \<Rightarrow> bool" where
  slot: "take_slot p = Some p' \<Longrightarrow> activity_step p Waiting p' [Slotted]"
| give_up: "activity_step p Waiting p []"
| take: "take_idle p = Some (w, p') \<Longrightarrow> activity_step p Slotted p' [Configuring w]"
| spawned: "po_idle p = [] \<Longrightarrow> spawn p = (w, p') \<Longrightarrow> activity_step p Slotted p' [Starting w]"
| not_spawned: "po_idle p = [] \<Longrightarrow> activity_step p Slotted (free_slot p) []"
| registered: "startWorker_register w p = (None, p') \<Longrightarrow> activity_step p (Starting w) p' [Configuring w]"
| not_registered: "startWorker_register w p = (Some e, p') \<Longrightarrow> activity_step p (Starting w) (free_slot p') []"
| configured: "activity_step p (Configuring w) (count_checkout w p) [Using w]"
| refused: "activity_step p (Configuring w) p [Releasing w False]"
| session_closed: "activity_step p (Using w) p [Releasing w b]"
| freed: "activity_step p (Releasing w b) (free_slot p) [Deciding w b]"
| kept: "release_decide w b p = (True, p') \<Longrightarrow> activity_step p (Deciding w b) p' [Returning w]"
| dropped: "release_decide w b p = (False, p') \<Longrightarrow> activity_step p (Deciding w b) (kill w p') []"
| returned: "activity_step p (Returning w) (release_return w p) []"
| popped: "take_idle p = Some (w, p') \<Longrightarrow> activity_step p Draining p' [Stopping w]"
| drained: "po_idle p = [] \<Longrightarrow> activity_step p Draining p []"
| stopped: "activity_step p (Stopping w) (Pool_Close_stop w p) [Draining]"

inductive pool_step :: "pool \<times> activity list \<Rightarrow> pool \<times> activity list \<Rightarrow> bool" where
  checkout: "\<not> po_closed p \<Longrightarrow> pool_step (p, as) (p, Waiting # as)"
| close: "Pool_Close_begin p = Some p' \<Longrightarrow> pool_step (p, as) (p', Draining # as)"
| act: "activity_step p a p' bs \<Longrightarrow> pool_step (p, as @ a # cs) (p', as @ bs @ cs)"

inductive pool_reachable :: "pool \<times> activity list \<Rightarrow> bool" where
  start: "New ctxErr procs options found installed env = Some (None, Some p) \<Longrightarrow> pool_reachable (p, [])"
| step: "pool_reachable x \<Longrightarrow> pool_step x y \<Longrightarrow> pool_reachable y"

section \<open>Ownership\<close>

fun held :: "activity \<Rightarrow> nat list" where
  "held (Starting w) = [w]"
| "held (Configuring w) = [w]"
| "held (Using w) = [w]"
| "held (Releasing w b) = [w]"
| "held (Deciding w b) = [w]"
| "held (Returning w) = [w]"
| "held (Stopping w) = [w]"
| "held a = []"

text \<open>The workers that are in the map \<open>workers\<close>: all but the ones just started.\<close>

fun enrolled :: "activity \<Rightarrow> nat list" where
  "enrolled (Starting w) = []"
| "enrolled a = held a"

fun holds_slot :: "activity \<Rightarrow> bool" where
  "holds_slot Slotted = True"
| "holds_slot (Starting w) = True"
| "holds_slot (Configuring w) = True"
| "holds_slot (Using w) = True"
| "holds_slot (Releasing w b) = True"
| "holds_slot a = False"

text \<open>The accounts of a pool whose activities hold \<open>H\<close>, of which \<open>R\<close> are enrolled, and \<open>n\<close> slots.\<close>

definition pool_ok :: "pool \<Rightarrow> nat multiset \<Rightarrow> nat multiset \<Rightarrow> nat \<Rightarrow> bool" where
  "pool_ok p H R n \<longleftrightarrow> mset (po_idle p) + H + mset (po_dead p) = mset [0..<po_started p]
     \<and> mset (po_workers p) = mset (po_idle p) + R \<and> po_slots p = n \<and> n \<le> capacity p \<and> length (po_idle p) \<le> capacity p"

definition pool_inv :: "pool \<times> activity list \<Rightarrow> bool" where
  "pool_inv x = pool_ok (fst x) (mset (concat (map held (snd x)))) (mset (concat (map enrolled (snd x))))
     (length (filter holds_slot (snd x)))"

lemma enrolled_held: "mset (concat (map enrolled as)) \<subseteq># mset (concat (map held as))"
proof (induction as)
  case (Cons a as)
  have "mset (enrolled a) \<subseteq># mset (held a)" by (cases a) simp_all
  with Cons show ?case by (simp add: subset_mset.add_mono)
qed simp

text \<open>A held worker is nowhere else, so leaving the map removes just one entry.\<close>

lemma held_elsewhere:
  assumes "mset (po_idle p) + add_mset w H + mset (po_dead p) = mset [0..<po_started p]" and "R \<subseteq># H"
  shows "w \<notin> set (po_idle p)" and "w \<notin># R" and "w \<notin> set (po_dead p)" and "w < po_started p"
proof -
  have "count (mset (po_idle p) + add_mset w H + mset (po_dead p)) w \<le> 1"
    unfolding assms(1) by (cases "w < po_started p") simp_all
  then have w: "count (mset (po_idle p)) w = 0" "count H w = 0" "count (mset (po_dead p)) w = 0" by simp_all
  then show "w \<notin> set (po_idle p)" "w \<notin> set (po_dead p)" by simp_all
  from w(2) show "w \<notin># R" using assms(2) by (auto simp: count_eq_zero_iff dest: mset_subset_eqD)
  have "w \<in># mset [0..<po_started p]" unfolding assms(1) [symmetric] by simp
  then show "w < po_started p" by simp
qed

lemma forget_mset:
  assumes "mset (po_workers p) = mset (po_idle p) + add_mset w R" and "w \<notin> set (po_idle p)" and "w \<notin># R"
  shows "mset (po_workers (forget w p)) = mset (po_idle p) + R"
proof -
  have "filter_mset (\<lambda>x. x \<noteq> w) R = R" using assms(3) by (auto simp: filter_mset_eq_conv)
  moreover have "filter_mset (\<lambda>x. x \<noteq> w) (mset (po_idle p)) = mset (po_idle p)"
    using assms(2) by (auto simp: filter_mset_eq_conv)
  ultimately show ?thesis by (simp add: forget_def assms(1) removeAll_filter_not_eq neq_commute)
qed

lemma pool_ok_forget:
  assumes "pool_ok p (add_mset w H) (add_mset w R) n" and "R \<subseteq># H"
  shows "pool_ok (kill w (forget w p)) H R n"
proof -
  from assms(1) have idle: "mset (po_idle p) + add_mset w H + mset (po_dead p) = mset [0..<po_started p]"
    and workers: "mset (po_workers p) = mset (po_idle p) + add_mset w R" by (simp_all add: pool_ok_def)
  note w = held_elsewhere [OF idle assms(2)]
  from forget_mset [OF workers w(1,2)] assms(1) show ?thesis
    by (simp add: pool_ok_def kill_def capacity_def) (simp add: forget_def)
qed

lemma pool_ok_known:
  "pool_ok p (add_mset w H) (add_mset w R) n \<Longrightarrow> w \<in> set (po_workers p)"
  by (simp add: pool_ok_def flip: set_mset_mset)

section \<open>The invariant\<close>

lemma activity_step_ok:
  assumes "activity_step p a p' bs" and "R \<subseteq># H"
    and "pool_ok p (mset (held a) + H) (mset (enrolled a) + R) ((if holds_slot a then 1 else 0) + n)"
  shows "pool_ok p' (mset (concat (map held bs)) + H) (mset (concat (map enrolled bs)) + R)
    (length (filter holds_slot bs) + n)"
  using assms
proof (induction rule: activity_step.induct)
  case (slot p p')
  then show ?case by (auto simp: take_slot_def pool_ok_def capacity_def split: if_splits)
next
  case (take p w p')
  then show ?case by (auto simp: take_idle_def pool_ok_def capacity_def split: list.splits)
next
  case (spawned p w p')
  then show ?case by (auto simp: spawn_def pool_ok_def capacity_def atLeast0_lessThan_Suc)
next
  case (not_spawned p)
  then show ?case by (simp add: free_slot_def pool_ok_def capacity_def)
next
  case (registered w p p')
  then show ?case by (auto simp: startWorker_register_def pool_ok_def capacity_def split: if_splits)
next
  case (not_registered w p e p')
  then show ?case by (auto simp: startWorker_register_def pool_ok_def capacity_def free_slot_def kill_def split: if_splits)
next
  case (configured p w)
  then show ?case by (simp add: count_checkout_def pool_ok_def capacity_def)
next
  case (freed p w b)
  then show ?case by (simp add: free_slot_def pool_ok_def capacity_def)
next
  case (kept w b p p')
  then show ?case by (auto simp: release_decide_def Let_def split: if_splits)
next
  case (dropped w b p p')
  have "pool_ok p (add_mset w H) (add_mset w R) n" using dropped(3) by simp
  with dropped(1) pool_ok_known [OF this] have "p' = forget w p"
    by (auto simp: release_decide_def Let_def split: if_splits)
  with pool_ok_forget [OF _ dropped(2)] dropped(3) show ?case by simp
next
  case (returned p w)
  then show ?case
    using pool_ok_forget [of p w H R n] by (auto simp: release_return_def) (simp add: pool_ok_def capacity_def)
next
  case (popped p w p')
  then show ?case by (auto simp: take_idle_def pool_ok_def capacity_def split: list.splits)
next
  case (stopped p w)
  then show ?case using pool_ok_forget [of p w H R n] by (simp add: Pool_Close_stop_def)
qed simp_all

lemma pool_step_inv: "pool_step x y \<Longrightarrow> pool_inv x \<Longrightarrow> pool_inv y"
proof (induction rule: pool_step.induct)
  case (close p p' as)
  then show ?case by (auto simp: pool_inv_def pool_ok_def Pool_Close_begin_def capacity_def split: if_splits)
next
  case (act p a p' bs as cs)
  let ?H = "mset (concat (map held as)) + mset (concat (map held cs))"
  let ?R = "mset (concat (map enrolled as)) + mset (concat (map enrolled cs))"
  let ?n = "length (filter holds_slot as) + length (filter holds_slot cs)"
  have "?R \<subseteq># ?H" using enrolled_held [of as] enrolled_held [of cs] by (rule subset_mset.add_mono)
  moreover have "pool_ok p (mset (held a) + ?H) (mset (enrolled a) + ?R) ((if holds_slot a then 1 else 0) + ?n)"
    using act(2) by (cases "holds_slot a") (simp_all add: pool_inv_def union_ac ac_simps)
  ultimately have "pool_ok p' (mset (concat (map held bs)) + ?H) (mset (concat (map enrolled bs)) + ?R)
      (length (filter holds_slot bs) + ?n)" by (rule activity_step_ok [OF act(1)])
  then show ?case by (simp add: pool_inv_def union_ac ac_simps)
qed (simp add: pool_inv_def)

lemma New_pool:
  assumes "New ctxErr procs options found installed env = Some (None, Some p)"
  shows "\<exists>n. po_idle p = [0..<n] \<and> po_started p = n \<and> po_dead p = [] \<and> \<not> po_closed p \<and> po_workers p = [0..<n]
    \<and> po_slots p = 0 \<and> n \<le> capacity p"
proof -
  have steps: "po_workers p' = po_idle p' \<and> po_slots p' = po_slots q \<and> po_options p' = po_options q"
    if "prewarm n env q = Some (None, p')" "po_workers q = po_idle q" for n env q p'
    using that by (induction n env q rule: prewarm.induct)
      (auto simp: startWorker_def spawn_def startWorker_register_def split: option.splits prod.splits if_splits)
  from assms obtain o1 where o1: "New_options procs options = Inr o1"
    "prewarm (unat (pl_MinProcesses o1)) env (new_pool o1) = Some (None, p)"
    by (auto simp: New_def split: option.splits sum.splits)
  have "unat (pl_MinProcesses o1) \<le> unat (pl_MaxProcesses o1)"
  proof -
    from o1(1) have *: "\<not> pl_MinProcesses o1 <s 0" "\<not> pl_MaxProcesses o1 <s pl_MinProcesses o1"
      by (auto simp: New_options_def Let_def split: if_splits)
    then have "0 \<le> sint (pl_MinProcesses o1)" "sint (pl_MinProcesses o1) \<le> sint (pl_MaxProcesses o1)"
      by (simp_all add: word_sless_alt)
    then show ?thesis using unat_nonneg [of "pl_MinProcesses o1"] unat_nonneg [of "pl_MaxProcesses o1"] by linarith
  qed
  with prewarm_result [OF o1(2)] steps [OF o1(2)] show ?thesis
    by (simp add: new_pool_def capacity_def)
qed

lemma pool_reachable_inv: "pool_reachable x \<Longrightarrow> pool_inv x"
proof (induction rule: pool_reachable.induct)
  case (start ctxErr procs options found installed env p)
  from New_pool [OF this] show ?case by (auto simp: pool_inv_def pool_ok_def)
qed (rule pool_step_inv)

text \<open>Nobody shares a worker, no dead worker is in use, and none is lost.\<close>

lemma workers_accounted:
  assumes "pool_reachable (p, as)"
  shows "distinct (po_idle p @ concat (map held as) @ po_dead p)"
    and "set (po_idle p @ concat (map held as) @ po_dead p) = {0..<po_started p}"
    and "length (filter holds_slot as) \<le> capacity p" and "length (po_idle p) \<le> capacity p"
proof -
  from pool_reachable_inv [OF assms] have ok: "mset (po_idle p @ concat (map held as) @ po_dead p) = mset [0..<po_started p]"
    "length (filter holds_slot as) \<le> capacity p" "length (po_idle p) \<le> capacity p"
    by (simp_all add: pool_inv_def pool_ok_def union_ac)
  then show "distinct (po_idle p @ concat (map held as) @ po_dead p)"
    "set (po_idle p @ concat (map held as) @ po_dead p) = {0..<po_started p}"
    "length (filter holds_slot as) \<le> capacity p" "length (po_idle p) \<le> capacity p"
    using mset_eq_imp_distinct_iff [OF ok(1)] mset_eq_setD [OF ok(1)] by (simp_all add: atLeast_upt)
qed

section \<open>Closing\<close>

text \<open>
  A closed pool with nothing idle and no worker on its way back stays so: whatever is still in use dies
  at its release.
\<close>

fun on_its_way_back :: "activity \<Rightarrow> bool" where
  "on_its_way_back (Returning w) = True"
| "on_its_way_back a = False"

definition shut :: "pool \<times> activity list \<Rightarrow> bool" where
  "shut x \<longleftrightarrow> po_closed (fst x) \<and> po_idle (fst x) = [] \<and> (\<forall>a \<in> set (snd x). \<not> on_its_way_back a)"

lemma activity_step_shut:
  "activity_step p a p' bs \<Longrightarrow> po_closed p \<Longrightarrow> po_idle p = [] \<Longrightarrow> \<not> on_its_way_back a
    \<Longrightarrow> po_closed p' \<and> po_idle p' = [] \<and> (\<forall>b \<in> set bs. \<not> on_its_way_back b)"
  by (induction rule: activity_step.induct)
    (auto simp: take_slot_def take_idle_def spawn_def free_slot_def startWorker_register_def count_checkout_def
      release_decide_def forget_def kill_def Pool_Close_stop_def Let_def split: if_splits)

lemma pool_step_shut: "pool_step x y \<Longrightarrow> shut x \<Longrightarrow> shut y"
  by (induction rule: pool_step.induct)
    (auto simp: shut_def Pool_Close_begin_def dest: activity_step_shut split: if_splits)

lemma shut_all_dead:
  assumes "pool_reachable x" and "shut x" and "pool_step\<^sup>*\<^sup>* x (p, [])"
  shows "set (po_dead p) = {0..<po_started p}"
proof -
  from assms(3,1,2) have "pool_reachable (p, []) \<and> shut (p, [])"
    by (induction rule: rtranclp_induct) (blast intro: pool_reachable.step pool_step_shut)+
  with workers_accounted(2) [of p "[]"] show ?thesis by (simp add: shut_def)
qed

section \<open>Two races\<close>

text \<open>A pool of one process, up to the point where the release of its worker has freed the slot.\<close>

definition small_options :: pool_options where
  "small_options = default_options\<lparr>pl_MaxProcesses := 1, pl_MinProcesses := 1\<rparr>"

definition small_pool :: pool where
  "small_pool = (new_pool small_options)\<lparr>po_started := 1, po_workers := [0], po_idle := [0]\<rparr>"

lemma new_small_pool: "New None 1 [] (Inr b) r [(None, None)] = Some (None, Some small_pool)"
proof -
  have "New_options 1 [] = Inr small_options"
    by (simp add: New_options_def default_options_def small_options_def Let_def word_sless_alt)
  then show ?thesis
    by (simp add: New_def New_binary_def small_options_def eval_nat_numeral startWorker_def spawn_def
      startWorker_register_def small_pool_def new_pool_def default_options_def)
qed

lemma reach_act: "pool_reachable (p, as @ a # cs) \<Longrightarrow> activity_step p a p' bs \<Longrightarrow> pool_reachable (p', as @ bs @ cs)"
  by (blast intro: pool_reachable.step pool_step.act)

lemma reach_on: "pool_reachable (p, a # cs) \<Longrightarrow> activity_step p a p' [b] \<Longrightarrow> pool_reachable (p', b # cs)"
  using reach_act [of p "[]" a cs p' "[b]"] by simp

lemma reach_end: "pool_reachable (p, a # cs) \<Longrightarrow> activity_step p a p' [] \<Longrightarrow> pool_reachable (p', cs)"
  using reach_act [of p "[]" a cs p' "[]"] by simp

definition used_pool :: pool where
  "used_pool = small_pool\<lparr>po_idle := [], po_checkouts := (\<lambda>w. 0)(0 := 1)\<rparr>"

lemma small_capacity: "capacity small_pool = 1"
  by (simp add: small_pool_def capacity_def new_pool_def small_options_def)

lemma reach_deciding: "pool_reachable (used_pool, [Deciding 0 True])"
proof -
  let ?p1 = "small_pool\<lparr>po_slots := 1\<rparr>"
  let ?p2 = "?p1\<lparr>po_idle := []\<rparr>"
  let ?p3 = "count_checkout 0 ?p2"
  have 0: "po_slots small_pool = 0" "po_idle small_pool = [0]" "\<not> po_closed small_pool" "po_checkouts small_pool = (\<lambda>w. 0)"
    by (simp_all add: small_pool_def new_pool_def)
  have "pool_reachable (small_pool, [Waiting])"
    using 0(3) by (blast intro: pool_reachable.start [OF new_small_pool] pool_reachable.step pool_step.checkout)
  then have "pool_reachable (?p1, [Slotted])"
    by (rule reach_on) (simp add: activity_step.slot take_slot_def 0 small_capacity)
  then have "pool_reachable (?p2, [Configuring 0])"
    by (rule reach_on) (simp add: activity_step.take take_idle_def 0)
  then have "pool_reachable (?p3, [Using 0])"
    by (rule reach_on) (rule activity_step.configured)
  then have "pool_reachable (?p3, [Releasing 0 True])"
    by (rule reach_on) (rule activity_step.session_closed)
  then have "pool_reachable (free_slot ?p3, [Deciding 0 True])"
    by (rule reach_on) (rule activity_step.freed)
  moreover have "free_slot ?p3 = used_pool"
    by (simp add: free_slot_def count_checkout_def used_pool_def 0(4)) (simp add: small_pool_def new_pool_def)
  ultimately show ?thesis by simp
qed

lemma used_pool_sel: "po_closed used_pool = False" "po_idle used_pool = []" "po_workers used_pool = [0]"
    "po_options used_pool = small_options" "po_slots used_pool = 0" "po_started used_pool = 1" "po_dead used_pool = []"
    "capacity used_pool = 1"
  using small_capacity
  by (simp_all add: used_pool_def capacity_def) (simp_all add: small_pool_def new_pool_def)

text \<open>\<open>Close\<close> between the two halves of a release: the worker ends up idle in a closed pool.\<close>

lemma close_leaks: "\<exists>p. pool_reachable (p, []) \<and> po_closed p \<and> po_idle p = [0] \<and> po_dead p = []"
proof -
  let ?p = "used_pool\<lparr>po_closed := True\<rparr>"
  have "release_decide 0 True used_pool = (True, used_pool)"
    by (simp add: release_decide_def used_pool_sel worn_out_def small_options_def default_options_def)
  then have "pool_reachable (used_pool, [Returning 0])"
    by (rule reach_on [OF reach_deciding activity_step.kept])
  then have "pool_reachable (?p, [Draining, Returning 0])"
    by (rule pool_reachable.step) (rule pool_step.close, simp add: Pool_Close_begin_def used_pool_sel)
  then have "pool_reachable (?p, [Returning 0])"
    by (rule reach_end) (simp add: activity_step.drained used_pool_sel)
  then have "pool_reachable (release_return 0 ?p, [])"
    by (rule reach_end) (rule activity_step.returned)
  moreover have "release_return 0 ?p = ?p\<lparr>po_idle := [0]\<rparr>"
    using used_pool_sel(2,8) by (simp add: release_return_def capacity_def)
  ultimately show ?thesis by (intro exI [of _ "?p\<lparr>po_idle := [0]\<rparr>"]) (simp add: used_pool_sel)
qed

text \<open>A checkout between the two halves of a release starts a second process.\<close>

lemma release_overshoots:
  "\<exists>p as. pool_reachable (p, as) \<and> capacity p = 1 \<and> length (po_idle p @ concat (map held as)) = 2"
proof -
  let ?p1 = "used_pool\<lparr>po_slots := 1\<rparr>"
  let ?p2 = "?p1\<lparr>po_started := 2\<rparr>"
  let ?p3 = "?p2\<lparr>po_workers := [0, 1]\<rparr>"
  have "pool_reachable (used_pool, [Waiting, Deciding 0 True])"
    using reach_deciding by (rule pool_reachable.step) (simp add: pool_step.checkout used_pool_sel)
  then have "pool_reachable (?p1, [Slotted, Deciding 0 True])"
    by (rule reach_on) (simp add: activity_step.slot take_slot_def used_pool_sel)
  then have "pool_reachable (?p2, [Starting 1, Deciding 0 True])"
    by (rule reach_on)
      (simp add: activity_step.spawned spawn_def used_pool_sel)
  then have "pool_reachable (?p3, [Configuring 1, Deciding 0 True])"
    by (rule reach_on)
      (simp add: activity_step.registered startWorker_register_def used_pool_sel)
  then show ?thesis
    using used_pool_sel(2,8) by (intro exI [of _ ?p3] exI [of _ "[Configuring 1, Deciding 0 True]"]) (simp add: capacity_def)
qed

end
