(* ===== verification/Worker.thy ===== *)
theory Worker
  imports Session_Ops Print
begin

text \<open>
  The worker process (\<open>worker\<close> in \<open>pool.go\<close>): one exchange of a request for an answer, the capture of
  its error output, its shutdown.

  The process and the contexts are the environment of an exchange, the record \<open>exchange_env\<close>: the
  error of the write to its input, if any; all that it writes to its output from here on, where the
  end of the list is the end of the output; the cause for which the context ended first, if it did.
  An exchange in which the process stays silent and no context ends does not return; it has no
  environment.
\<close>

record worker =
  wk_dead :: bool
  wk_stdin :: bytes
  wk_stdout :: bytes
  wk_stderr :: bytes
  wk_checkouts :: nat
  wk_timeout :: uint64
  wk_exit :: string

record exchange_env =
  xe_cancel :: "go_error option"
  xe_write :: "go_error option"
  xe_output :: bytes

text \<open>A print callback with the state of the host; without one the text goes to the standard streams.\<close>

type_synonym 'c print_callback = "print_stream \<Rightarrow> string \<Rightarrow> 'c \<Rightarrow> 'c \<times> go_error option"

section \<open>Reading the answer\<close>

definition print_one :: "'c print_callback \<Rightarrow> print_event \<Rightarrow> 'c \<Rightarrow> 'c \<times> go_error option" where
  "print_one cb p c = cb (pe_Stream p) (pe_Text p) c"

text \<open>The first error of a callback ends the printing, not the reading.\<close>

definition print_all :: "'c print_callback \<Rightarrow> print_event list \<Rightarrow> 'c \<times> go_error option \<Rightarrow> 'c \<times> go_error option" where
  "print_all cb ps s = (case snd s of None \<Rightarrow> fold_res (print_one cb) ps (fst s) | Some e \<Rightarrow> s)"

lemma readFrame_shorter: "readFrame r = Inr (body, rest) \<Longrightarrow> length rest < length r"
  by (auto simp: readFrame_sound writeFrame_def split: if_splits)

text \<open>The goroutine: the flag of an error tells a callback's error from one of the transport.\<close>

function read_answer ::
  "protowire \<Rightarrow> 'c print_callback \<Rightarrow> bytes \<Rightarrow> 'c \<times> go_error option
     \<Rightarrow> ((go_error \<times> bool) + child_event) \<times> 'c \<times> bytes" where
  "read_answer pw cb r s =
     (case readFrame r of
        Inl e \<Rightarrow> (Inl (e, False), fst s, r)
      | Inr (frame, rest) \<Rightarrow>
          (case decodeEvent pw frame of
             Inl e \<Rightarrow> (Inl (e, False), fst s, rest)
           | Inr ev \<Rightarrow>
               if ce_kind ev = Some eventPrint
               then read_answer pw cb rest (print_all cb (decodePrintSegments pw (ce_body ev)) s)
               else (case snd s of
                       Some e \<Rightarrow> (Inl (e, True), fst s, rest)
                     | None \<Rightarrow> (Inr ev, fst s, rest))))"
  by pat_completeness auto
termination
  by (relation "measure (\<lambda>(pw, cb, r, s). length r)") (auto dest: readFrame_shorter)

declare read_answer.simps [simp del]

section \<open>The exchange\<close>

definition not_running :: go_error where
  "not_running = CrashedError ''Monty worker is no longer running'' False [] None"

definition worker_failed :: "(int \<Rightarrow> string) \<Rightarrow> worker \<Rightarrow> go_error \<Rightarrow> go_error" where
  "worker_failed pt w e = CrashedError
     (''Monty worker failed: '' @ error_text pt e @ (if wk_stderr w \<noteq> [] then [CHR 0x0A] @ wk_stderr w else []))
     False (wk_exit w) (Some e)"

text \<open>\<open>errors.Is(cause, context.DeadlineExceeded)\<close>: the cause is one of the two context errors.\<close>

definition request_interrupted :: "(int \<Rightarrow> string) \<Rightarrow> worker \<Rightarrow> go_error \<Rightarrow> go_error" where
  "request_interrupted pt w cause =
     (let timedOut = (cause = DeadlineExceeded) in
      CrashedError ((if timedOut then ''Monty worker request timed out: '' else ''Monty worker request canceled: '')
        @ error_text pt cause) timedOut (wk_exit w) (Some cause))"

definition killUnlocked :: "worker \<Rightarrow> worker" where
  "killUnlocked w = w\<lparr>wk_dead := True\<rparr>"

definition process_exchange ::
  "protowire \<Rightarrow> (int \<Rightarrow> string) \<Rightarrow> exchange_env \<Rightarrow> request \<Rightarrow> 'c print_callback \<Rightarrow> 'c \<Rightarrow> worker
     \<Rightarrow> (go_error + child_event) \<times> 'c \<times> worker" where
  "process_exchange pw pt env req cb c w =
     (if wk_dead w then (Inl not_running, c, w)
      else
        let (answer, c, w) =
          (case writeFrame (request_encode pw req) of
             Inl e \<Rightarrow> (Inl (e, False), c, w)
           | Inr out \<Rightarrow>
               (case xe_write env of
                  Some e \<Rightarrow> (Inl (e, False), c, w)
                | None \<Rightarrow>
                    (case read_answer pw cb (wk_stdout w @ xe_output env) (c, None) of
                       (a, c, rest) \<Rightarrow> (a, c, w\<lparr>wk_stdin := wk_stdin w @ out, wk_stdout := rest\<rparr>))))
        in case xe_cancel env of
             Some cause \<Rightarrow> (Inl (request_interrupted pt w cause), c, killUnlocked w)
           | None \<Rightarrow>
               (case answer of
                  Inl (e, callbackErr) \<Rightarrow>
                    if callbackErr then (Inl e, c, w) else (Inl (worker_failed pt w e), c, killUnlocked w)
                | Inr ev \<Rightarrow> (Inr ev, c, if ce_kind ev = Some eventFatal then killUnlocked w else w)))"

text \<open>\<open>shutdown\<close>: its context lasts two seconds.\<close>

definition shutdown ::
  "protowire \<Rightarrow> (int \<Rightarrow> string) \<Rightarrow> exchange_env \<Rightarrow> 'c print_callback \<Rightarrow> 'c \<Rightarrow> worker \<Rightarrow> go_error option \<times> 'c \<times> worker" where
  "shutdown pw pt env cb c w =
     (case process_exchange pw pt env (request reqShutdown []) cb c w of
        (Inl e, c, w) \<Rightarrow> (Some e, c, killUnlocked w)
      | (Inr ev, c, w) \<Rightarrow>
          (if ce_kind ev \<noteq> Some eventOK then Some (eventErrorValue pw pt ev) else None, c, killUnlocked w))"

section \<open>The error output\<close>

text \<open>\<open>captureStderr\<close>: what one read of at most 4096 bytes does to the buffer.\<close>

definition capture_chunk :: "bytes \<Rightarrow> bytes \<Rightarrow> bytes" where
  "capture_chunk buf chunk =
     (let old = (if 65536 < length buf + length chunk
                 then (if 32768 < length buf then drop (length buf - 32768) buf else buf)
                 else buf)
      in old @ chunk)"

definition captureStderr :: "bytes list \<Rightarrow> bytes \<Rightarrow> bytes" where
  "captureStderr chunks buf = fold (\<lambda>chunk b. capture_chunk b chunk) chunks buf"

lemma captureStderr_simps [simp]:
  "captureStderr [] buf = buf" "captureStderr (c # cs) buf = captureStderr cs (capture_chunk buf c)"
  by (simp_all add: captureStderr_def)

lemma capture_chunk_bound: "length buf \<le> 65536 \<Longrightarrow> length chunk \<le> 4096 \<Longrightarrow> length (capture_chunk buf chunk) \<le> 65536"
  by (simp add: capture_chunk_def Let_def)

text \<open>The buffer is the end of all that was read, all of it while that is short, and never less than its last 32 KiB.\<close>

lemma captureStderr_kept:
  assumes "length buf \<le> 65536" and "\<forall>c \<in> set chunks. length c \<le> 4096" and "suffix buf out"
    and "min 32768 (length out) \<le> length buf"
  shows "length (captureStderr chunks buf) \<le> 65536 \<and> suffix (captureStderr chunks buf) (out @ concat chunks)
    \<and> min 32768 (length (out @ concat chunks)) \<le> length (captureStderr chunks buf)"
  using assms
proof (induction chunks arbitrary: buf out)
  case (Cons c chunks)
  have "suffix (capture_chunk buf c) (out @ c)"
    using Cons.prems(3) suffix_drop [of "length buf - 32768" buf]
    by (auto simp: capture_chunk_def Let_def suffix_append intro: suffix_order.trans)
  moreover have "min 32768 (length (out @ c)) \<le> length (capture_chunk buf c)"
    using Cons.prems(4) by (auto simp: capture_chunk_def Let_def)
  ultimately show ?case
    using Cons.IH [of "capture_chunk buf c" "out @ c"] Cons.prems(1,2) capture_chunk_bound by simp
qed simp

section \<open>What an exchange guarantees\<close>

lemma print_all_append:
  "print_all cb (ps @ qs) s = print_all cb qs (print_all cb ps s)"
  by (cases "snd s") (auto simp: print_all_def fold_res_append split: prod.splits option.splits)

text \<open>The prints before the answer reach the callback in order; the rest of the stream stays.\<close>

lemma read_answer_frames:
  assumes "list_all2 (\<lambda>f e. \<exists>b. writeFrame b = Inr f \<and> decodeEvent pw b = Inr e \<and> ce_kind e = Some eventPrint) fs es"
    and "writeFrame b = Inr f" and "decodeEvent pw b = Inr ev" and "ce_kind ev \<noteq> Some eventPrint"
  shows "read_answer pw cb (concat fs @ f @ rest) s =
    (case print_all cb (concat (map (decodePrintSegments pw \<circ> ce_body) es)) s of
       (c, None) \<Rightarrow> (Inr ev, c, rest) | (c, Some e) \<Rightarrow> (Inl (e, True), c, rest))"
  using assms(1)
proof (induction fs es arbitrary: s rule: list_all2_induct)
  case Nil
  show ?case using assms(2-4)
    by (cases s) (simp add: read_answer.simps readFrame_writeFrame print_all_def split: option.split)
next
  case (Cons g fs e es)
  then obtain b1 where b1: "writeFrame b1 = Inr g" "decodeEvent pw b1 = Inr e" "ce_kind e = Some eventPrint" by blast
  then show ?case
    using Cons.IH by (simp add: read_answer.simps [of pw cb "g @ _"] readFrame_writeFrame print_all_append)
qed

lemma exchange_delivers:
  assumes "\<not> wk_dead w" and "writeFrame (request_encode pw req) = Inr out"
    and "xe_cancel env = None" and "xe_write env = None" and "wk_stdout w @ xe_output env = concat fs @ f @ rest"
    and "list_all2 (\<lambda>f e. \<exists>b. writeFrame b = Inr f \<and> decodeEvent pw b = Inr e \<and> ce_kind e = Some eventPrint) fs es"
    and "writeFrame b = Inr f" and "decodeEvent pw b = Inr ev" and "ce_kind ev \<noteq> Some eventPrint"
  shows "\<exists>w'. process_exchange pw pt env req cb c w
      = (case fold_res (print_one cb) (concat (map (decodePrintSegments pw \<circ> ce_body) es)) c of
           (c', None) \<Rightarrow> (Inr ev, c', w') | (c', Some e) \<Rightarrow> (Inl e, c', w'))
    \<and> wk_stdin w' = wk_stdin w @ out \<and> wk_stdout w' = rest
    \<and> (ce_kind ev \<noteq> Some eventFatal \<longrightarrow> \<not> wk_dead w')"
proof -
  let ?p = "fold_res (print_one cb) (concat (map (decodePrintSegments pw \<circ> ce_body) es)) c"
  let ?w = "w\<lparr>wk_stdin := wk_stdin w @ out, wk_stdout := rest\<rparr>"
  have "read_answer pw cb (wk_stdout w @ xe_output env) (c, None)
      = (case ?p of (c, None) \<Rightarrow> (Inr ev, c, rest) | (c, Some e) \<Rightarrow> (Inl (e, True), c, rest))"
    unfolding assms(5) read_answer_frames [OF assms(6-9)] by (simp add: print_all_def)
  then show ?thesis
    using assms(1-4)
    by (cases ?p; cases "snd ?p"; intro exI [of _ "if snd ?p = None \<and> ce_kind ev = Some eventFatal then killUnlocked ?w else ?w"])
      (auto simp: process_exchange_def killUnlocked_def)
qed

text \<open>After any other failure the worker is dead, and a dead worker answers nothing.\<close>

lemma exchange_dead: "wk_dead w \<Longrightarrow> process_exchange pw pt env req cb c w = (Inl not_running, c, w)"
  by (simp add: process_exchange_def)

definition crashed :: "go_error \<Rightarrow> bool" where
  "crashed e \<longleftrightarrow> (\<exists>m t st cause. e = CrashedError m t st cause)"

text \<open>
  \<open>answered pw r ps\<close>: the output \<open>r\<close> starts with frames that print the segments \<open>ps\<close>, and then comes a
  frame with another event.
\<close>

definition answered :: "protowire \<Rightarrow> bytes \<Rightarrow> print_event list \<Rightarrow> bool" where
  "answered pw r ps \<longleftrightarrow> (\<exists>fs es f b ev rest. r = concat fs @ f @ rest
     \<and> list_all2 (\<lambda>f e. \<exists>b. writeFrame b = Inr f \<and> decodeEvent pw b = Inr e \<and> ce_kind e = Some eventPrint) fs es
     \<and> writeFrame b = Inr f \<and> decodeEvent pw b = Inr ev \<and> ce_kind ev \<noteq> Some eventPrint
     \<and> ps = concat (map (decodePrintSegments pw \<circ> ce_body) es))"

lemma answered_print:
  assumes "writeFrame b = Inr g" and "decodeEvent pw b = Inr e" and "ce_kind e = Some eventPrint" and "answered pw r ps"
  shows "answered pw (g @ r) (decodePrintSegments pw (ce_body e) @ ps)"
proof -
  from assms(4) obtain fs es f b1 ev rest where r: "r = concat fs @ f @ rest"
    "list_all2 (\<lambda>f e. \<exists>b. writeFrame b = Inr f \<and> decodeEvent pw b = Inr e \<and> ce_kind e = Some eventPrint) fs es"
    "writeFrame b1 = Inr f" "decodeEvent pw b1 = Inr ev" "ce_kind ev \<noteq> Some eventPrint"
    "ps = concat (map (decodePrintSegments pw \<circ> ce_body) es)" unfolding answered_def by blast
  show ?thesis unfolding answered_def
    by (intro exI [of _ "g # fs"] exI [of _ "e # es"] exI [of _ f] exI [of _ b1] exI [of _ ev] exI [of _ rest])
      (use assms(1-3) r in auto)
qed

text \<open>The flag of an error is set only when the callback returned it, for one of the segments printed.\<close>

lemma read_answer_callback:
  "read_answer pw cb r s = (Inl (e, True), c', rest) \<Longrightarrow> \<exists>ps. answered pw r ps \<and> print_all cb ps s = (c', Some e)"
proof (induction r arbitrary: s rule: measure_induct_rule [of length])
  case (less r)
  from less.prems obtain body r1 where frame: "readFrame r = Inr (body, r1)"
    by (auto simp: read_answer.simps [of pw cb r s] split: sum.splits)
  with less.prems obtain ev where ev: "decodeEvent pw body = Inr ev"
    by (auto simp: read_answer.simps [of pw cb r s] split: sum.splits)
  from frame obtain g where g: "writeFrame body = Inr g" "r = g @ r1" by (auto simp: readFrame_sound)
  show ?case
  proof (cases "ce_kind ev = Some eventPrint")
    case True
    with less.prems frame ev
    have "read_answer pw cb r1 (print_all cb (decodePrintSegments pw (ce_body ev)) s) = (Inl (e, True), c', rest)"
      by (simp add: read_answer.simps [of pw cb r s])
    from less.IH [OF readFrame_shorter [OF frame] this] obtain ps where "answered pw r1 ps"
      "print_all cb ps (print_all cb (decodePrintSegments pw (ce_body ev)) s) = (c', Some e)" by blast
    with answered_print [OF g(1) ev True] g(2) show ?thesis by (metis print_all_append)
  next
    case False
    with less.prems frame ev have "s = (c', Some e)"
      by (cases s; cases "snd s") (auto simp: read_answer.simps [of pw cb r "(a, b)" for a b])
    moreover have "answered pw r []" unfolding answered_def
      by (intro exI [of _ "[]"] exI [of _ g] exI [of _ body] exI [of _ ev] exI [of _ r1]) (use g ev False in simp)
    ultimately show ?thesis by (auto simp: print_all_def)
  qed
qed

text \<open>
  When an exchange fails and the worker lives, the callback was called on the segments the worker
  printed before its answer, and failed on one of them.
\<close>

lemma exchange_failure:
  assumes "process_exchange pw pt env req cb c w = (Inl e, c', w')"
  shows "crashed e \<and> wk_dead w'
    \<or> \<not> wk_dead w' \<and> (\<exists>ps. answered pw (wk_stdout w @ xe_output env) ps \<and> fold_res (print_one cb) ps c = (c', Some e))"
proof -
  have "crashed e \<and> wk_dead w'
    \<or> \<not> wk_dead w' \<and> (\<exists>rest. read_answer pw cb (wk_stdout w @ xe_output env) (c, None) = (Inl (e, True), c', rest))"
    using assms
    by (auto simp: process_exchange_def Let_def killUnlocked_def crashed_def not_running_def worker_failed_def
      request_interrupted_def split: if_splits option.splits sum.splits prod.splits)
  then show ?thesis using read_answer_callback [of pw cb _ "(c, None)" e c'] by (fastforce simp: print_all_def)
qed

text \<open>The process reads the request back from its input.\<close>

lemma request_number_valid: "valid_tag (request_number k)"
  by (cases k) (simp_all add: valid_tag_def)

lemma request_read_back:
  assumes "wire_format pw" and "writeFrame (request_encode pw req) = Inr out"
  shows "\<exists>body. readFrame (out @ rest) = Inr (body, rest)
    \<and> parseFields pw body fn s = fold_res fn [bytes_field (request_number (rq_kind req)) (rq_body req)] s"
proof -
  have "parseFields pw (concat (map (put_item pw) [BytesItem (request_number (rq_kind req)) (rq_body req)])) fn s
      = fold_res fn (map item_field [BytesItem (request_number (rq_kind req)) (rq_body req)]) s"
    by (rule wire_format.parse_items [OF assms(1)]) (simp add: request_number_valid)
  then show ?thesis
    using readFrame_writeFrame [OF assms(2)] by (simp add: request_encode_def fieldMessage_def)
qed

end
