(* ===== verification/Checkout.thy ===== *)
theory Checkout
  imports Pool_Steps Worker
begin

text \<open>
  A whole \<open>Checkout\<close> and the way back of its worker (\<open>pool.go\<close>, \<open>Session.Close\<close>): the start of the
  process, the wait for a slot, the worker, its configuration and the session, with what every
  failure gives back.  Each is a run of the steps of \<open>Pool_Steps\<close>, so the accounts of the pool hold for it.
\<close>

section \<open>Starting a process\<close>

text \<open>The errors of the three pipes and of the start.\<close>

record process_start =
  ps_stdin :: "go_error option"
  ps_stdout :: "go_error option"
  ps_stderr :: "go_error option"
  ps_start :: "go_error option"

definition newWorker :: "uint64 \<Rightarrow> process_start \<Rightarrow> go_error + worker" where
  "newWorker timeout ps =
     (case ps_stdin ps of Some e \<Rightarrow> Inl e | None \<Rightarrow>
      (case ps_stdout ps of Some e \<Rightarrow> Inl e | None \<Rightarrow>
       (case ps_stderr ps of Some e \<Rightarrow> Inl e | None \<Rightarrow>
        (case ps_start ps of Some e \<Rightarrow> Inl (Errorf ''start Monty worker: %w'' [AErr e]) | None \<Rightarrow>
           Inr \<lparr>wk_dead = False, wk_stdin = [], wk_stdout = [], wk_stderr = [], wk_checkouts = 0,
                wk_timeout = timeout, wk_exit = []\<rparr>))))"

definition start_error :: "uint64 \<Rightarrow> process_start \<Rightarrow> go_error option" where
  "start_error timeout ps = (case newWorker timeout ps of Inl e \<Rightarrow> Some e | Inr w \<Rightarrow> None)"

section \<open>Checking out\<close>

text \<open>
  Which case of the \<open>select\<close> is taken; \<open>WaitOver\<close> carries the error of the context, which is the
  caller's or one with \<open>CheckoutTimeout\<close>.  \<^const>\<open>None\<close>: the case is not ready.
\<close>

datatype slot_choice = SlotFree | WaitOver go_error | PoolDone

definition Checkout_wait :: "slot_choice \<Rightarrow> pool \<Rightarrow> (go_error + pool) option" where
  "Checkout_wait choice p =
     (case choice of
        SlotFree \<Rightarrow> map_option Inr (take_slot p)
      | WaitOver e \<Rightarrow> Some (Inl (Errorf ''checkout Monty worker: %w'' [AErr e]))
      | PoolDone \<Rightarrow> if po_closed p then Some (Inl pool_closed) else None)"

definition Checkout_start :: "uint64 \<Rightarrow> process_start \<Rightarrow> pool \<Rightarrow> (go_error + nat) \<times> pool" where
  "Checkout_start timeout ps p =
     (case take_idle p of
        Some (w, p) \<Rightarrow> (Inr w, p)
      | None \<Rightarrow>
          (case startWorker (start_error timeout ps) p of
             (Inl e, p) \<Rightarrow> (Inl e, free_slot p)
           | (Inr w, p) \<Rightarrow> (Inr w, p)))"

definition Checkout_finish ::
  "protowire \<Rightarrow> (int \<Rightarrow> string) \<Rightarrow> checkout_options \<times> bytes \<times> uint64 \<Rightarrow> (request \<Rightarrow> go_error + child_event)
     \<Rightarrow> nat \<Rightarrow> pool \<Rightarrow> (go_error + nat \<times> session) \<times> pool" where
  "Checkout_finish pw pt x answer w p =
     (if po_closed p then (Inl pool_closed, release w False p)
      else (case Checkout_worker pw pt (po_options p) x answer of
          Inl e \<Rightarrow> (Inl e, release w False p)
        | Inr s \<Rightarrow> (Inr (w, s), count_checkout w p)))"

definition Checkout ::
  "protowire \<Rightarrow> (int \<Rightarrow> string) \<Rightarrow> unicode \<Rightarrow> checkout_options list \<Rightarrow> go_error option \<Rightarrow> slot_choice \<Rightarrow> uint64 \<Rightarrow> process_start
     \<Rightarrow> (request \<Rightarrow> go_error + child_event) \<Rightarrow> pool \<Rightarrow> ((go_error + nat \<times> session) \<times> pool) option" where
  "Checkout pw pt uc options ctxErr choice timeout ps answer p =
     (case Checkout_options pw uc options of
        Inl e \<Rightarrow> Some (Inl e, p)
      | Inr x \<Rightarrow>
          if po_closed p then Some (Inl pool_closed, p)
          else (case ctxErr of
              Some e \<Rightarrow> Some (Inl (Errorf ''checkout Monty worker: %w'' [AErr e]), p)
            | None \<Rightarrow>
                (case Checkout_wait choice p of
                   None \<Rightarrow> None
                 | Some (Inl e) \<Rightarrow> Some (Inl e, p)
                 | Some (Inr p) \<Rightarrow>
                     (case Checkout_start timeout ps p of
                        (Inl e, p) \<Rightarrow> Some (Inl e, p)
                      | (Inr w, p) \<Rightarrow> Some (Checkout_finish pw pt x answer w p)))))"

text \<open>\<open>Session.Close\<close> with the pool: the release of the worker, once.\<close>

definition Session_Close ::
  "protowire \<Rightarrow> (int \<Rightarrow> string) \<Rightarrow> nat \<Rightarrow> session \<Rightarrow> answers \<Rightarrow> pool \<Rightarrow> ((go_error + unit) \<times> session \<times> answers \<times> pool) option" where
  "Session_Close pw pt w s as p =
     (case Close pw pt s as of
        None \<Rightarrow> None
      | Some (r, s', as') \<Rightarrow>
          Some (r, s', as', (case (se_released s, se_released s') of
             (None, Some reusable) \<Rightarrow> release w reusable p
           | _ \<Rightarrow> p)))"

section \<open>Runs of the pool\<close>

abbreviation pool_run :: "pool \<times> activity list \<Rightarrow> pool \<times> activity list \<Rightarrow> bool" where
  "pool_run \<equiv> pool_step\<^sup>*\<^sup>*"

lemma pool_run_first:
  assumes "activity_step p a p' bs" and "pool_run (p', bs @ as) y"
  shows "pool_run (p, a # as) y"
proof -
  have "pool_step (p, a # as) (p', bs @ as)" using pool_step.act [OF assms(1), of "[]" as] by simp
  then show ?thesis using assms(2) by (rule converse_rtranclp_into_rtranclp)
qed

lemma release_run: "pool_run (p, Releasing w b # as) (release w b p, as)"
proof (rule pool_run_first [OF activity_step.freed])
  obtain known q where d: "release_decide w b (free_slot p) = (known, q)" by fastforce
  show "pool_run (free_slot p, [Deciding w b] @ as) (release w b p, as)"
  proof (cases known)
    case True
    then have "pool_run (q, [Returning w] @ as) (release w b p, as)"
      using pool_run_first [OF activity_step.returned, of w q as "(release w b p, as)"] d by (simp add: release_def)
    with True d show ?thesis by (auto intro: pool_run_first [OF activity_step.kept])
  next
    case False
    with d show ?thesis by (auto simp: release_def intro: pool_run_first [OF activity_step.dropped])
  qed
qed

lemma Checkout_finish_run:
  assumes "Checkout_finish pw pt x answer w p = (r, p')"
  shows "pool_run (p, Configuring w # as) (p', case r of Inl e \<Rightarrow> as | Inr (w, s) \<Rightarrow> Using w # as)"
proof -
  have refused: "pool_run (p, Configuring w # as) (release w False p, as)"
    by (rule pool_run_first [OF activity_step.refused]) (simp add: release_run)
  have configured: "pool_run (p, Configuring w # as) (count_checkout w p, Using w # as)"
    by (rule pool_run_first [OF activity_step.configured]) simp
  show ?thesis using assms refused configured by (auto simp: Checkout_finish_def split: if_splits sum.splits)
qed

lemma Checkout_start_run:
  assumes "Checkout_start timeout ps p = (r, p')"
  shows "pool_run (p, Slotted # as) (p', case r of Inl e \<Rightarrow> as | Inr w \<Rightarrow> Configuring w # as)"
proof (cases "take_idle p")
  case (Some x)
  with assms obtain w where "take_idle p = Some (w, p')" "r = Inr w" by (cases x) (auto simp: Checkout_start_def)
  then show ?thesis by (auto intro: pool_run_first [OF activity_step.take])
next
  case None
  then have idle: "po_idle p = []" by (simp add: take_idle_def split: list.splits)
  show ?thesis
  proof (cases "start_error timeout ps")
    case (Some e)
    with None assms have "p' = free_slot p" "r = Inl e" by (auto simp: Checkout_start_def startWorker_def)
    then show ?thesis by (auto intro: pool_run_first [OF activity_step.not_spawned [OF idle]])
  next
    case no_error: None
    obtain w q where spawn: "spawn p = (w, q)" by fastforce
    obtain err q' where reg: "startWorker_register w q = (err, q')" by fastforce
    note spawned = pool_run_first [OF activity_step.spawned [OF idle spawn]]
    show ?thesis
    proof (cases err)
      case (Some e)
      with None no_error spawn reg assms have "p' = free_slot q'" "r = Inl e"
        by (auto simp: Checkout_start_def startWorker_def)
      with Some reg show ?thesis by (auto intro!: spawned pool_run_first [OF activity_step.not_registered])
    next
      case None
      with \<open>take_idle p = None\<close> no_error spawn reg assms have "p' = q'" "r = Inr w"
        by (auto simp: Checkout_start_def startWorker_def)
      with None reg show ?thesis by (auto intro!: spawned pool_run_first [OF activity_step.registered])
    qed
  qed
qed

lemma Checkout_run:
  assumes "Checkout pw pt uc options ctxErr choice timeout ps answer p = Some (r, p')"
  shows "pool_run (p, as) (p', case r of Inl e \<Rightarrow> as | Inr (w, s) \<Rightarrow> Using w # as)"
proof -
  consider e where "r = Inl e" "p' = p"
    | x p1 r2 p2 where "Checkout_options pw uc options = Inr x" "\<not> po_closed p" "take_slot p = Some p1"
        "Checkout_start timeout ps p1 = (r2, p2)"
        "(r, p') = (case r2 of Inl e \<Rightarrow> (Inl e, p2) | Inr w \<Rightarrow> Checkout_finish pw pt x answer w p2)"
    using assms
    by (auto simp: Checkout_def Checkout_wait_def split: sum.splits option.splits if_splits slot_choice.splits prod.splits)
  then show ?thesis
  proof cases
    case 1
    then show ?thesis by simp
  next
    case 2
    have "pool_run (p, as) (p, Waiting # as)" using pool_step.checkout [OF 2(2)] by blast
    also have "pool_run (p, Waiting # as) (p1, Slotted # as)"
      by (rule pool_run_first [OF activity_step.slot [OF 2(3)]]) simp
    also have "pool_run (p1, Slotted # as) (p2, case r2 of Inl e \<Rightarrow> as | Inr w \<Rightarrow> Configuring w # as)"
      using 2(4) by (rule Checkout_start_run)
    finally have run: "pool_run (p, as) (p2, case r2 of Inl e \<Rightarrow> as | Inr w \<Rightarrow> Configuring w # as)" .
    show ?thesis
    proof (cases r2)
      case (Inl e)
      with run 2(5) show ?thesis by simp
    next
      case (Inr w)
      with 2(5) have "Checkout_finish pw pt x answer w p2 = (r, p')" by simp
      from rtranclp_trans [OF run [unfolded Inr sum.case] Checkout_finish_run [OF this]] show ?thesis .
    qed
  qed
qed

section \<open>What a checkout and a closing leave behind\<close>

definition live_workers :: "pool \<Rightarrow> nat set" where
  "live_workers p = {0..<po_started p} - set (po_dead p)"

lemma pool_run_reachable: "pool_run x y \<Longrightarrow> pool_reachable x \<Longrightarrow> pool_reachable y"
  by (induction rule: rtranclp_induct) (auto intro: pool_reachable.step)

lemma slots_accounted: "pool_reachable (p, as) \<Longrightarrow> po_slots p = length (filter holds_slot as)"
  using pool_reachable_inv [of "(p, as)"] by (simp add: pool_inv_def pool_ok_def)

lemma live_accounted: "pool_reachable (p, as) \<Longrightarrow> live_workers p = set (po_idle p) \<union> set (concat (map held as))"
  using workers_accounted(1,2) [of p as] unfolding live_workers_def by (auto simp flip: workers_accounted(2))

lemma release_refused [simp]: "po_idle (release w False p) = po_idle p"
  by (simp add: release_def release_decide_def Let_def forget_def free_slot_def kill_def)

lemma Checkout_start_idle: "Checkout_start timeout ps p = (r, p') \<Longrightarrow> set (po_idle p') \<subseteq> set (po_idle p)"
  by (auto simp: Checkout_start_def take_idle_def startWorker_def startWorker_register_def spawn_def free_slot_def kill_def
      split: list.splits option.splits if_splits)

lemma Checkout_finish_idle: "Checkout_finish pw pt x answer w p = (r, p') \<Longrightarrow> po_idle p' = po_idle p"
  by (auto simp: Checkout_finish_def count_checkout_def split: if_splits sum.splits)

lemma Checkout_idle:
  assumes "Checkout pw pt uc options ctxErr choice timeout ps answer p = Some (r, p')"
  shows "set (po_idle p') \<subseteq> set (po_idle p)"
  using assms Checkout_start_idle Checkout_finish_idle
  by (fastforce simp: Checkout_def Checkout_wait_def take_slot_def
      split: sum.splits option.splits if_splits slot_choice.splits prod.splits)

lemma Checkout_session_start:
  assumes "Checkout pw pt uc options ctxErr choice timeout ps answer p = Some (Inr (w, s), p')"
  shows "reachable pw pt h (world s [] [])"
  using assms Checkout_reachable
  by (auto simp: Checkout_def Checkout_wait_def Checkout_finish_def
      split: sum.splits option.splits if_splits slot_choice.splits prod.splits)

lemma Checkout_effect:
  assumes "pool_reachable (p, as)" and "Checkout pw pt uc options ctxErr choice timeout ps answer p = Some (r, p')"
  shows "case r of
      Inl e \<Rightarrow> po_slots p' = po_slots p \<and> live_workers p' \<subseteq> live_workers p
    | Inr (w, s) \<Rightarrow> po_slots p' = po_slots p + 1 \<and> w \<in> live_workers p' \<and> w \<notin> set (po_idle p')
        \<and> w \<notin> set (concat (map held as)) \<and> reachable pw pt h (world s [] [])"
proof (cases r)
  case (Inl e)
  have reach: "pool_reachable (p', as)" using pool_run_reachable [OF Checkout_run [OF assms(2)] assms(1)] Inl by simp
  show ?thesis
    using Inl slots_accounted [OF reach] slots_accounted [OF assms(1)] live_accounted [OF reach] live_accounted [OF assms(1)]
      Checkout_idle [OF assms(2)] by auto
next
  case (Inr x)
  then obtain w s where r: "r = Inr (w, s)" by (cases x) simp
  have reach: "pool_reachable (p', Using w # as)"
    using pool_run_reachable [OF Checkout_run [OF assms(2)] assms(1)] r by simp
  show ?thesis
    using r slots_accounted [OF reach] slots_accounted [OF assms(1)] live_accounted [OF reach] workers_accounted(1) [OF reach]
      Checkout_session_start [OF assms(2) [unfolded r]] by auto
qed

text \<open>A release keeps the worker only when it is clean, the pool open, the worker not worn out and the channel not full.\<close>

definition kept_by :: "pool \<Rightarrow> nat \<Rightarrow> bool \<Rightarrow> bool" where
  "kept_by p w reusable \<longleftrightarrow> reusable \<and> \<not> po_closed p \<and> \<not> worn_out p w \<and> length (po_idle p) < capacity p"

lemma release_effect:
  assumes "pool_reachable (p, Using w # as)"
  shows "pool_reachable (release w b p, as)" and "po_slots (release w b p) = po_slots p - 1"
    and "if kept_by p w b then w \<in> set (po_idle (release w b p)) \<and> w \<notin> set (po_dead (release w b p))
         else w \<in> set (po_dead (release w b p)) \<and> w \<notin> set (po_idle (release w b p))"
proof -
  have run: "pool_run (p, Using w # as) (release w b p, as)"
    by (rule pool_run_first [OF activity_step.session_closed [where b = b]]) (simp add: release_run)
  then show reach: "pool_reachable (release w b p, as)" using assms by (rule pool_run_reachable)
  show "po_slots (release w b p) = po_slots p - 1"
    using slots_accounted [OF assms] slots_accounted [OF reach] by simp
  have known: "w \<in> set (po_workers p)"
    using pool_reachable_inv [OF assms] by (auto simp: pool_inv_def pool_ok_def simp flip: set_mset_mset)
  have new: "w \<notin> set (po_idle p)" "w \<notin> set (po_dead p)" using workers_accounted(1) [OF assms] by auto
  show "if kept_by p w b then w \<in> set (po_idle (release w b p)) \<and> w \<notin> set (po_dead (release w b p))
         else w \<in> set (po_dead (release w b p)) \<and> w \<notin> set (po_idle (release w b p))"
    using known new
    by (auto simp: kept_by_def release_def release_decide_def release_return_def Let_def worn_out_def free_slot_def
        forget_def kill_def capacity_def split: if_splits)
qed

lemma Close_refused:
  assumes "Close pw pt s as = Some (r, s', as')" and "se_closed s \<or> se_inTurn s"
  shows "s' = s \<and> as' = as \<and> (r = Inr () \<longleftrightarrow> se_closed s)"
  using assms by (cases "se_closed s") (auto simp: Close_def Close_begin_def)

lemma Close_released:
  assumes "Close pw pt s as = Some (r, s', as')" and "\<not> se_closed s" and "\<not> se_inTurn s"
  shows "se_released s' = Some (r = Inr ())"
proof -
  have cancel: "se_released (cancel_run i s) = se_released s" for i s by (simp add: cancel_run_def update_run_def)
  show ?thesis
    using assms by (auto simp: Close_def Close_begin_def Close_end_def worker_exchange_def cancel Let_def
        split: sum.splits option.splits if_splits list.splits prod.splits)
qed

lemma Session_Close_effect:
  assumes "pool_reachable (p, Using w # as)" and "Session_Close pw pt w s evs p = Some (r, s', evs', p')"
    and "se_released s = None"
  shows "if se_closed s \<or> se_inTurn s then s' = s \<and> evs' = evs \<and> p' = p \<and> (r = Inr () \<longleftrightarrow> se_closed s)
    else se_released s' = Some (r = Inr ()) \<and> pool_reachable (p', as) \<and> po_slots p' = po_slots p - 1
      \<and> (if kept_by p w (r = Inr ()) then w \<in> set (po_idle p') \<and> w \<notin> set (po_dead p')
         else w \<in> set (po_dead p') \<and> w \<notin> set (po_idle p'))"
proof -
  from assms(2) have close: "Close pw pt s evs = Some (r, s', evs')"
    and p': "p' = (case se_released s' of Some b \<Rightarrow> release w b p | None \<Rightarrow> p)"
    using assms(3) by (auto simp: Session_Close_def split: option.splits)
  show ?thesis
  proof (cases "se_closed s \<or> se_inTurn s")
    case True
    with Close_refused [OF close True] p' assms(3) show ?thesis by simp
  next
    case False
    then have "se_released s' = Some (r = Inr ())" using Close_released [OF close] by simp
    with False p' release_effect [OF assms(1), of "r = Inr ()"] show ?thesis by simp
  qed
qed

end
