(* ===== verification/Go_Types.thy ===== *)
theory Go_Types
  imports Values Floats
begin

text \<open>
  The Go types that \<open>host.go\<close> inspects through \<open>reflect\<close>, the dynamic types of the values
  Monty returns, and the conversion of numbers (\<open>numericTo\<close>, lines 352-445).

  A defined type is \<open>TNamed\<close> with its name and its underlying type; two defined types are
  identical when they are equal here.  A recursive Go type is unrolled: a Monty value is
  finite, so it reaches finitely many levels of it.
\<close>

section \<open>Types\<close>

datatype go_type =
    TAny                                  \<comment> \<open>the interface without methods\<close>
  | TInterface string                     \<comment> \<open>another interface, by its name\<close>
  | TPointer go_type
  | TSlice go_type
  | TArray nat go_type
  | TMap go_type go_type
  | TStruct "go_type struct_field list"   \<comment> \<open>the \<open>value\<close> of a field is its type\<close>
  | TFunc string
  | TBool
  | TInt int_kind
  | TUint uint_kind
  | TFloat32 | TFloat64
  | TComplex64 | TComplex128
  | TString
  | TBigInt                               \<comment> \<open>\<open>big.Int\<close>, a struct without exported fields\<close>
  | TOther string                         \<comment> \<open>channels and unsafe pointers\<close>
  | TNamed string go_type

fun underlying :: "go_type \<Rightarrow> go_type" where
  "underlying (TNamed n T) = underlying T"
| "underlying T = T"

lemma underlying_not_named: "underlying T \<noteq> TNamed n U"
  by (induction T rule: underlying.induct) simp_all

lemma underlying_underlying [simp]: "underlying (underlying T) = underlying T"
  by (induction T rule: underlying.induct) simp_all

text \<open>\<open>Type.hasName\<close>: predeclared types have a name, type literals have none.\<close>

fun has_name :: "go_type \<Rightarrow> bool" where
  "has_name (TPointer T) = False"
| "has_name (TSlice T) = False"
| "has_name (TArray n T) = False"
| "has_name (TMap K T) = False"
| "has_name (TStruct fs) = False"
| "has_name (TFunc s) = False"
| "has_name (TOther s) = False"
| "has_name TAny = False"
| "has_name T = True"

text \<open>The kinds \<open>isSigned\<close>, \<open>isUnsigned\<close> and \<open>isFloat\<close> select, and those \<open>reflect.Zero\<close> makes nil.\<close>

definition isSigned :: "go_type \<Rightarrow> bool" where
  "isSigned T = (case underlying T of TInt k \<Rightarrow> True | _ \<Rightarrow> False)"

definition isUnsigned :: "go_type \<Rightarrow> bool" where
  "isUnsigned T = (case underlying T of TUint k \<Rightarrow> True | _ \<Rightarrow> False)"

definition isFloat :: "go_type \<Rightarrow> bool" where
  "isFloat T = (case underlying T of TFloat32 \<Rightarrow> True | TFloat64 \<Rightarrow> True | _ \<Rightarrow> False)"

definition is_number :: "go_type \<Rightarrow> bool" where
  "is_number T \<longleftrightarrow> isSigned T \<or> isUnsigned T \<or> isFloat T"

definition is_interface :: "go_type \<Rightarrow> bool" where
  "is_interface T = (case underlying T of TAny \<Rightarrow> True | TInterface n \<Rightarrow> True | _ \<Rightarrow> False)"

definition nilable :: "go_type \<Rightarrow> bool" where
  "nilable T = (case underlying T of TAny \<Rightarrow> True | TInterface n \<Rightarrow> True | TPointer E \<Rightarrow> True
     | TMap K E \<Rightarrow> True | TSlice E \<Rightarrow> True | TFunc s \<Rightarrow> True | _ \<Rightarrow> False)"

text \<open>
  \<open>safeDirectConversion\<close>.  For the kinds it lets through, \<open>ConvertibleTo\<close> holds.
\<close>

definition safeDirectConversion :: "go_type \<Rightarrow> go_type \<Rightarrow> bool" where
  "safeDirectConversion V T \<longleftrightarrow>
     (isSigned V \<and> isSigned T) \<or> (isUnsigned V \<and> isUnsigned T) \<or> (isFloat V \<and> isFloat T)
     \<or> (underlying V = TBool \<and> underlying T = TBool) \<or> (underlying V = TString \<and> underlying T = TString)"

section \<open>The types of Monty values\<close>

abbreviation fld :: "string \<Rightarrow> go_type \<Rightarrow> go_type struct_field" where
  "fld n T \<equiv> StructField True [] [] n T"

abbreviation intT :: go_type where "intT \<equiv> TInt int_kind.Int"
abbreviation monthT :: go_type where "monthT \<equiv> TNamed ''time.Month'' intT"
abbreviation uuidT :: go_type where "uuidT \<equiv> TArray 16 (TUint Uint8)"
abbreviation bytesT :: go_type where "bytesT \<equiv> TSlice (TUint Uint8)"
abbreviation pairT :: go_type where
  "pairT \<equiv> TNamed ''monty.Pair'' (TStruct [fld ''Key'' TAny, fld ''Value'' TAny])"
abbreviation listT :: go_type where "listT \<equiv> TNamed ''monty.List'' (TSlice TAny)"
abbreviation dictT :: go_type where "dictT \<equiv> TNamed ''monty.Dict'' (TSlice pairT)"
abbreviation kwargsT :: go_type where "kwargsT \<equiv> TNamed ''monty.Kwargs'' (TMap TString TAny)"
abbreviation classT :: go_type where
  "classT \<equiv> TNamed ''monty.ClassType'' (TStruct [fld ''Name'' TString, fld ''ID'' uuidT,
     fld ''Origin'' (TNamed ''monty.TypeOrigin'' (TUint Uint32)), fld ''IsDataclass'' TBool, fld ''Attrs'' dictT])"

text \<open>
  What the standard library knows of types and values that the model does not carry: the
  dynamic types of values only a host makes, method sets, comparability of those values,
  the texts \<open>fmt\<close> prints, and the stack at a panic.
\<close>

record reflect =
  r_type :: "Value \<Rightarrow> go_type"
  r_implements :: "go_type \<Rightarrow> string \<Rightarrow> bool"
  r_comparable :: "Value \<Rightarrow> bool"
  r_text :: "Value \<Rightarrow> string"
  r_struct :: "go_type struct_field list \<Rightarrow> string"
  r_stack :: string

fun type_of :: "reflect \<Rightarrow> Value \<Rightarrow> go_type" where
  "type_of rt VEllipsis = TNamed ''monty.Ellipsis'' (TStruct [])"
| "type_of rt VNotImplemented = TNamed ''monty.NotImplemented'' (TStruct [])"
| "type_of rt (VBool b) = TBool"
| "type_of rt (VInt64 w) = TInt Int64"
| "type_of rt (VBigInt z) = TPointer TBigInt"
| "type_of rt (VFloat64 w) = TFloat64"
| "type_of rt (VComplex128 re im) = TComplex128"
| "type_of rt (VString s) = TString"
| "type_of rt (VBytes b) = bytesT"
| "type_of rt (VList xs) = listT"
| "type_of rt (VTuple xs) = TNamed ''monty.Tuple'' (TSlice TAny)"
| "type_of rt (VSet xs) = TNamed ''monty.Set'' (TSlice TAny)"
| "type_of rt (VFrozenSet xs) = TNamed ''monty.FrozenSet'' (TSlice TAny)"
| "type_of rt (VDict d) = dictT"
| "type_of rt (VNamedTuple n fs xs) = TNamed ''monty.NamedTuple''
     (TStruct [fld ''TypeName'' TString, fld ''FieldNames'' (TSlice TString), fld ''Values'' (TSlice TAny)])"
| "type_of rt (VDate x) = TNamed ''monty.Date''
     (TStruct [fld ''Year'' intT, fld ''Month'' monthT, fld ''Day'' intT])"
| "type_of rt (VTime x) = TNamed ''monty.Time''
     (TStruct [fld ''Hour'' intT, fld ''Minute'' intT, fld ''Second'' intT, fld ''Microsecond'' intT,
        fld ''OffsetSeconds'' (TPointer intT), fld ''TimezoneName'' (TPointer TString), fld ''Fold'' intT])"
| "type_of rt (VDateTime x) = TNamed ''monty.DateTime''
     (TStruct [fld ''Year'' intT, fld ''Month'' monthT, fld ''Day'' intT, fld ''Hour'' intT, fld ''Minute'' intT,
        fld ''Second'' intT, fld ''Microsecond'' intT, fld ''OffsetSeconds'' (TPointer intT),
        fld ''TimezoneName'' (TPointer TString)])"
| "type_of rt (VTimeDelta x) = TNamed ''monty.TimeDelta''
     (TStruct [fld ''Days'' intT, fld ''Seconds'' intT, fld ''Microseconds'' intT])"
| "type_of rt (VTimeZone x) = TNamed ''monty.TimeZone''
     (TStruct [fld ''OffsetSeconds'' intT, fld ''Name'' (TPointer TString)])"
| "type_of rt (VException x) = TNamed ''monty.Exception'' (TStruct [fld ''Type'' TString, fld ''Message'' TString])"
| "type_of rt (VType s) = TNamed ''monty.Type'' TString"
| "type_of rt (VInstanceType s) = TNamed ''monty.InstanceType'' TString"
| "type_of rt (VBuiltinFunction s) = TNamed ''monty.BuiltinFunction'' TString"
| "type_of rt (VPath s) = TNamed ''monty.Path'' TString"
| "type_of rt (VFunction x) = TNamed ''monty.Function''
     (TStruct [fld ''Name'' TString, fld ''Docstring'' (TPointer TString)])"
| "type_of rt (VFileHandle x) = TNamed ''monty.FileHandle''
     (TStruct [fld ''Path'' TString, fld ''Mode'' TString, fld ''Position'' (TUint Uint64)])"
| "type_of rt (VDataclass n i fs d fr) = TNamed ''monty.Dataclass''
     (TStruct [fld ''Name'' TString, fld ''TypeID'' (TUint Uint64), fld ''FieldNames'' (TSlice TString),
        fld ''Attrs'' dictT, fld ''Frozen'' TBool])"
| "type_of rt (VRepr s) = TNamed ''monty.Repr'' TString"
| "type_of rt (VCycle i p) = TNamed ''monty.Cycle''
     (TStruct [fld ''Identity'' (TUint Uint64), fld ''Placeholder'' TString])"
| "type_of rt (VClassType c) = classT"
| "type_of rt (VClassInstance c i d) = TNamed ''monty.ClassInstance''
     (TStruct [fld ''Type'' classT, fld ''ID'' uuidT, fld ''Attrs'' dictT])"
| "type_of rt (VModule m) = TNamed ''monty.Module''
     (TStruct [fld ''Name'' TString, fld ''ID'' uuidT, fld ''Attrs'' dictT])"
| "type_of rt v = r_type rt v"

text \<open>The values that only a host makes: \<open>r_type\<close> and \<open>r_comparable\<close> speak of these.\<close>

fun host_only :: "Value \<Rightarrow> bool" where
  "host_only VNil = True"
| "host_only (VExternalModule m) = True"
| "host_only HNilPtr = True"
| "host_only (HBigInt z) = True"
| "host_only (HInt k w) = True"
| "host_only (HUint k w) = True"
| "host_only (HFloat32 w) = True"
| "host_only (HComplex64 re im) = True"
| "host_only (HSlice xs) = True"
| "host_only (HArray xs) = True"
| "host_only (HByteArray b) = True"
| "host_only (HMap b d) = True"
| "host_only (HStruct fs) = True"
| "host_only (HTime x) = True"
| "host_only (HDuration x) = True"
| "host_only (HText r) = True"
| "host_only (HFunc i doc) = True"
| "host_only (HAsync f) = True"
| "host_only (HRef a) = True"
| "host_only (HOther ty) = True"
| "host_only v = False"

text \<open>Whether \<open>==\<close> is defined on a value: not when it holds a slice, a map or a function.\<close>

fun value_comparable :: "reflect \<Rightarrow> Value \<Rightarrow> bool" where
  "value_comparable rt (VBytes b) = False"
| "value_comparable rt (VList xs) = False"
| "value_comparable rt (VTuple xs) = False"
| "value_comparable rt (VSet xs) = False"
| "value_comparable rt (VFrozenSet xs) = False"
| "value_comparable rt (VDict d) = False"
| "value_comparable rt (VNamedTuple n fs xs) = False"
| "value_comparable rt (VDataclass n i fs d fr) = False"
| "value_comparable rt (VClassType c) = False"
| "value_comparable rt (VClassInstance c i d) = False"
| "value_comparable rt (VModule m) = False"
| "value_comparable rt v = (if host_only v then r_comparable rt v else True)"

section \<open>Names of types\<close>

definition int_text :: "int_kind \<Rightarrow> string" where
  "int_text k = (case k of int_kind.Int \<Rightarrow> ''int'' | Int8 \<Rightarrow> ''int8'' | Int16 \<Rightarrow> ''int16''
     | Int32 \<Rightarrow> ''int32'' | Int64 \<Rightarrow> ''int64'')"

definition uint_text :: "uint_kind \<Rightarrow> string" where
  "uint_text k = (case k of Uint \<Rightarrow> ''uint'' | Uint8 \<Rightarrow> ''uint8'' | Uint16 \<Rightarrow> ''uint16''
     | Uint32 \<Rightarrow> ''uint32'' | Uint64 \<Rightarrow> ''uint64'' | Uintptr \<Rightarrow> ''uintptr'')"

fun type_text :: "reflect \<Rightarrow> go_type \<Rightarrow> string" where
  "type_text rt TAny = ''interface {}''"
| "type_text rt (TInterface n) = n"
| "type_text rt (TPointer T) = ''*'' @ type_text rt T"
| "type_text rt (TSlice T) = ''[]'' @ type_text rt T"
| "type_text rt (TArray n T) = ''['' @ decimal_nat n @ '']'' @ type_text rt T"
| "type_text rt (TMap K T) = ''map['' @ type_text rt K @ '']'' @ type_text rt T"
| "type_text rt (TStruct fs) = r_struct rt fs"
| "type_text rt (TFunc s) = s"
| "type_text rt TBool = ''bool''"
| "type_text rt (TInt k) = int_text k"
| "type_text rt (TUint k) = uint_text k"
| "type_text rt TFloat32 = ''float32''"
| "type_text rt TFloat64 = ''float64''"
| "type_text rt TComplex64 = ''complex64''"
| "type_text rt TComplex128 = ''complex128''"
| "type_text rt TString = ''string''"
| "type_text rt TBigInt = ''big.Int''"
| "type_text rt (TOther s) = s"
| "type_text rt (TNamed n T) = n"

text \<open>\<open>%T\<close> of a value, \<open><nil>\<close> for nil.\<close>

definition value_type_text :: "reflect \<Rightarrow> Value \<Rightarrow> string" where
  "value_type_text rt v = (if v = VNil then ''<nil>'' else type_text rt (type_of rt v))"

section \<open>Numbers\<close>

text \<open>
  Converted data.  \<open>DHost v\<close> is the data of the value \<open>v\<close> itself.  Integers are the 64-bit
  words that \<open>reflect\<close> reads back, floats the bits of the \<open>float64\<close> they convert to, a
  \<open>DMap\<close> lists the assignments to the map in order, and a struct field is \<open>None\<close> when it
  keeps its zero value.  What is stored in a container carries its dynamic type.
\<close>

datatype go_data =
    DHost Value
  | DNil
  | DInt uint64
  | DUint uint64
  | DFloat uint64
  | DComplex uint64 uint64
  | DBigInt int
  | DBytes bytes
  | DPointer "go_type \<times> go_data"
  | DSlice "(go_type \<times> go_data) list"
  | DArray "(go_type \<times> go_data) list"
  | DMap "((go_type \<times> go_data) \<times> (go_type \<times> go_data)) list"
  | DStruct "(go_type \<times> go_data) option list"

definition int_bits :: "int_kind \<Rightarrow> nat" where
  "int_bits k = (case k of int_kind.Int \<Rightarrow> 64 | Int8 \<Rightarrow> 8 | Int16 \<Rightarrow> 16 | Int32 \<Rightarrow> 32 | Int64 \<Rightarrow> 64)"

definition uint_bits :: "uint_kind \<Rightarrow> nat" where
  "uint_bits k = (case k of Uint \<Rightarrow> 64 | Uint8 \<Rightarrow> 8 | Uint16 \<Rightarrow> 16 | Uint32 \<Rightarrow> 32 | Uint64 \<Rightarrow> 64 | Uintptr \<Rightarrow> 64)"

text \<open>\<open>OverflowInt\<close> and \<open>OverflowUint\<close>: shifting the upper bits out and back changes the number.\<close>

definition overflow_int :: "int_kind \<Rightarrow> uint64 \<Rightarrow> bool" where
  "overflow_int k w \<longleftrightarrow> signed_drop_bit (64 - int_bits k) (push_bit (64 - int_bits k) w) \<noteq> w"

definition overflow_uint :: "uint_kind \<Rightarrow> uint64 \<Rightarrow> bool" where
  "overflow_uint k w \<longleftrightarrow> drop_bit (64 - uint_bits k) (push_bit (64 - uint_bits k) w) \<noteq> w"

text \<open>\<open>OverflowFloat\<close> for a \<open>float32\<close>: above \<open>MaxFloat32\<close> and finite.\<close>

definition f64_abs :: "uint64 \<Rightarrow> nat" where
  "f64_abs w = unat w mod 2 ^ 63"

definition max_float32 :: nat where "max_float32 = 5183643170566569984"

definition overflow_float32 :: "uint64 \<Rightarrow> bool" where
  "overflow_float32 w \<longleftrightarrow> max_float32 < f64_abs w \<and> f64_exp w \<noteq> 2047"

text \<open>\<open>float64(float32(x))\<close>: 24 bits of precision, multiples of \<open>2 ^ -149\<close>; infinities and NaN stay.\<close>

definition round_float32 :: "uint64 \<Rightarrow> uint64" where
  "round_float32 w =
     (if f64_exp w = 2047 then w else
      case f64_parts w of (m, e) \<Rightarrow>
        let k = max (floorlog 2 m - 24) (925 - e);
            q = round_ratio m (2 ^ k)
        in (if unat w < 2 ^ 63 then 0 else 2 ^ 63) + f64_of_scaled (q * 2 ^ (e + k)) 1074)"

text \<open>\<open>big.Float.SetInt(z).Float64()\<close>: the nearest \<open>float64\<close>, infinite beyond the range.\<close>

definition f64_infinity :: uint64 where "f64_infinity = 2047 * 2 ^ 52"

definition f64_of_int :: "int \<Rightarrow> uint64" where
  "f64_of_int z =
     (let n = nat \<bar>z\<bar> in
      (if z < 0 then 2 ^ 63 else 0) + (if 1024 < floorlog 2 n then f64_infinity else f64_of_scaled n 0))"

definition set_float :: "go_type \<Rightarrow> uint64 \<Rightarrow> go_data" where
  "set_float T w = DFloat (if underlying T = TFloat32 then round_float32 w else w)"

text \<open>\<open>numericTo\<close>: the integer, complex and float branches, then the whole.\<close>

definition integerTo :: "int \<Rightarrow> go_type \<Rightarrow> go_data option" where
  "integerTo z T = (case underlying T of
      TInt k \<Rightarrow>
        if \<not> (- (2 ^ 63) \<le> z \<and> z < 2 ^ 63) then None
        else if overflow_int k (word_of_int z) then None else Some (DInt (word_of_int z))
    | TUint k \<Rightarrow>
        if z < 0 \<or> \<not> z < 2 ^ 64 then None
        else if overflow_uint k (word_of_int z) then None else Some (DUint (word_of_int z))
    | TFloat32 \<Rightarrow>
        if f64_is_inf (f64_of_int z) \<or> overflow_float32 (f64_of_int z) then None
        else Some (set_float T (f64_of_int z))
    | TFloat64 \<Rightarrow> if f64_is_inf (f64_of_int z) then None else Some (set_float T (f64_of_int z))
    | _ \<Rightarrow> if T = TBigInt then Some (DBigInt z) else None)"

definition complexTo :: "uint64 \<Rightarrow> uint64 \<Rightarrow> go_type \<Rightarrow> go_data option" where
  "complexTo re im T = (case underlying T of
      TComplex64 \<Rightarrow>
        if overflow_float32 re \<or> overflow_float32 im then None
        else Some (DComplex (round_float32 re) (round_float32 im))
    | TComplex128 \<Rightarrow> Some (DComplex re im)
    | _ \<Rightarrow> None)"

definition floatTo :: "uint64 \<Rightarrow> go_type \<Rightarrow> go_data option" where
  "floatTo w T = (case underlying T of
      TFloat32 \<Rightarrow> if \<not> f64_is_inf w \<and> overflow_float32 w then None else Some (set_float T w)
    | TFloat64 \<Rightarrow> Some (set_float T w)
    | _ \<Rightarrow> None)"

definition numericTo :: "Value \<Rightarrow> go_type \<Rightarrow> go_data option" where
  "numericTo v T = (case v of
      VInt64 w \<Rightarrow> integerTo (sint w) T
    | VBigInt z \<Rightarrow> integerTo z T
    | VComplex128 re im \<Rightarrow> complexTo re im T
    | VFloat64 w \<Rightarrow> floatTo w T
    | _ \<Rightarrow> None)"

end
