(* ===== verification/Host_Values.thy ===== *)
theory Host_Values
  imports Go_Types Encode
begin

text \<open>
  \<open>convertHostArg\<close>, \<open>Decode\<close> and their helpers (\<open>host.go\<close> lines 40-56 and 186-351), and
  \<open>DictMap\<close> (\<open>wire.go\<close>).  A \<open>reflect.Value\<close> is its type together with its data.
\<close>

section \<open>Assignability\<close>

definition implements :: "reflect \<Rightarrow> go_type \<Rightarrow> go_type \<Rightarrow> bool" where
  "implements rt V T = (case underlying T of TAny \<Rightarrow> True | TInterface n \<Rightarrow> r_implements rt V n | _ \<Rightarrow> False)"

text \<open>
  \<open>AssignableTo\<close>: identical types, identical underlying types of which one has no name, or an
  interface and a type that implements it.
\<close>

definition assignable :: "reflect \<Rightarrow> go_type \<Rightarrow> go_type \<Rightarrow> bool" where
  "assignable rt V T \<longleftrightarrow>
     V = T \<or> (\<not> (has_name V \<and> has_name T) \<and> underlying V = underlying T) \<or> implements rt V T"

section \<open>Sequences and dictionaries\<close>

definition sequenceValues :: "Value \<Rightarrow> Value list option" where
  "sequenceValues v = (case v of VList xs \<Rightarrow> Some xs | VTuple xs \<Rightarrow> Some xs
     | VSet xs \<Rightarrow> Some xs | VFrozenSet xs \<Rightarrow> Some xs | _ \<Rightarrow> None)"

definition raw_bytes :: "Value \<Rightarrow> bytes option" where
  "raw_bytes v = (case v of VBytes b \<Rightarrow> Some b | _ \<Rightarrow> None)"

definition resultDict :: "Value \<Rightarrow> dict option" where
  "resultDict v = (case v of
      VDict d \<Rightarrow> Some d
    | VClassInstance c i d \<Rightarrow> Some d
    | VDataclass n i fs d fr \<Rightarrow> Some d
    | VNamedTuple n fs xs \<Rightarrow> if length fs \<noteq> length xs then None else Some (zip (map VString fs) xs)
    | _ \<Rightarrow> None)"

definition dict_pair ::
  "reflect \<Rightarrow> Value \<times> Value \<Rightarrow> (string \<rightharpoonup> Value) \<Rightarrow> (string \<rightharpoonup> Value) \<times> go_error option" where
  "dict_pair rt p m = (case fst p of
      VString key \<Rightarrow>
        if m key \<noteq> None then fail m (Errorf ''duplicate dictionary key %q'' [AStr key])
        else ok (m(key \<mapsto> snd p))
    | k \<Rightarrow> fail m (Errorf ''dictionary key has type %T, not string'' [AStr (value_type_text rt k)]))"

definition DictMap :: "reflect \<Rightarrow> dict \<Rightarrow> go_error + (string \<rightharpoonup> Value)" where
  "DictMap rt d = result_of (fold_res (dict_pair rt) d Map.empty)"

section \<open>Conversion\<close>

text \<open>
  How a conversion can end without a value: with an error, or with a panic of \<open>reflect\<close>.  Only
  an error gets the position of the item that caused it; a panic passes all enclosing calls.
\<close>

datatype conv_error = Failed go_error | Panics string

abbreviation failed :: "go_error \<Rightarrow> conv_error + 'a" where
  "failed e \<equiv> Inl (Failed e)"

definition wrap_failed :: "(go_error \<Rightarrow> go_error) \<Rightarrow> conv_error + 'a \<Rightarrow> conv_error + 'a" where
  "wrap_failed w r = (case r of Inl (Failed e) \<Rightarrow> failed (w e) | Inl (Panics p) \<Rightarrow> Inl (Panics p) | Inr x \<Rightarrow> Inr x)"

definition as_failed :: "go_error + 'a \<Rightarrow> conv_error + 'a" where
  "as_failed r = (case r of Inl e \<Rightarrow> failed e | Inr x \<Rightarrow> Inr x)"

lemma wrap_failed_simps [simp]:
  "wrap_failed w (failed e) = failed (w e)" "wrap_failed w (Inl (Panics p)) = Inl (Panics p)"
  "wrap_failed w (Inr x) = Inr x"
  by (simp_all add: wrap_failed_def)

lemma wrap_failed_Inr: "wrap_failed w r = Inr x \<longleftrightarrow> r = Inr x"
  by (auto simp: wrap_failed_def split: sum.splits conv_error.splits)

lemma wrap_failed_Panics: "wrap_failed w r = Inl (Panics p) \<longleftrightarrow> r = Inl (Panics p)"
  by (auto simp: wrap_failed_def split: sum.splits conv_error.splits)

lemma as_failed_simps [simp]: "as_failed (Inl e) = failed e" "as_failed (Inr x) = Inr x"
  by (simp_all add: as_failed_def)

lemma as_failed_Inr: "as_failed r = Inr x \<longleftrightarrow> r = Inr x"
  by (cases r) simp_all

lemma as_failed_not_Panics: "as_failed r \<noteq> Inl (Panics p)"
  by (cases r) simp_all

definition cannot_convert :: "reflect \<Rightarrow> Value \<Rightarrow> go_type \<Rightarrow> go_error" where
  "cannot_convert rt v T = Errorf ''%T cannot convert to %s'' [AStr (value_type_text rt v), AStr (type_text rt T)]"

text \<open>
  \<open>reflect.Copy\<close> of bytes: the kind of the element type is \<open>Uint8\<close> here, but \<open>Copy\<close> panics
  unless the element type is \<open>uint8\<close> itself.
\<close>

definition copy_bytes :: "reflect \<Rightarrow> go_type \<Rightarrow> go_type \<Rightarrow> bytes \<Rightarrow> conv_error + go_type \<times> go_data" where
  "copy_bytes rt T E b =
     (if E = TUint Uint8 then Inr (T, DBytes b)
      else Inl (Panics (''reflect.Copy: '' @ type_text rt E @ '' != uint8'')))"

text \<open>\<open>Value.Comparable\<close> of a converted map key.\<close>

fun key_comparable :: "reflect \<Rightarrow> go_type \<times> go_data \<Rightarrow> bool" where
  "key_comparable rt (T, DHost v) = value_comparable rt v"
| "key_comparable rt (T, DNil) =
     (case underlying T of TSlice E \<Rightarrow> False | TMap K E \<Rightarrow> False | TFunc s \<Rightarrow> False | _ \<Rightarrow> True)"
| "key_comparable rt (T, DBytes b) = (case underlying T of TSlice E \<Rightarrow> False | _ \<Rightarrow> True)"
| "key_comparable rt (T, DSlice xs) = False"
| "key_comparable rt (T, DMap d) = False"
| "key_comparable rt (T, DArray xs) = (\<forall>x \<in> set xs. key_comparable rt x)"
| "key_comparable rt (T, DStruct fs) =
     (\<forall>f \<in> set fs. case f of None \<Rightarrow> True | Some x \<Rightarrow> key_comparable rt x)"
| "key_comparable rt (T, d) = True"

text \<open>The loops over the items of a sequence, the pairs of a dictionary and the fields of a struct.\<close>

definition convert_items ::
  "(Value \<Rightarrow> conv_error + go_type \<times> go_data) \<Rightarrow> Value list \<Rightarrow> conv_error + (go_type \<times> go_data) list" where
  "convert_items conv items =
     map_res (\<lambda>(i, x). wrap_failed (\<lambda>e. Errorf ''index %d: %w'' [AInt (int i), AErr e]) (conv x)) (enumerate 0 items)"

definition convert_pair ::
  "reflect \<Rightarrow> (Value \<Rightarrow> conv_error + go_type \<times> go_data) \<Rightarrow> (Value \<Rightarrow> conv_error + go_type \<times> go_data)
   \<Rightarrow> Value \<times> Value \<Rightarrow> conv_error + (go_type \<times> go_data) \<times> (go_type \<times> go_data)" where
  "convert_pair rt conv_key conv_value p =
     bind_res (wrap_failed (\<lambda>e. Errorf ''map key: %w'' [AErr e]) (conv_key (fst p))) (\<lambda>k.
       if \<not> key_comparable rt k
       then failed (Errorf ''map key of type %s is not comparable'' [AStr (type_text rt (fst k))])
       else bind_res (wrap_failed (\<lambda>e. Errorf ''map value: %w'' [AErr e]) (conv_value (snd p))) (\<lambda>x. Inr (k, x)))"

definition convert_field ::
  "(go_type \<Rightarrow> Value \<Rightarrow> conv_error + go_type \<times> go_data) \<Rightarrow> (string \<rightharpoonup> Value)
   \<Rightarrow> go_type struct_field \<Rightarrow> conv_error + (go_type \<times> go_data) option" where
  "convert_field conv m f = (case Option.bind (field_name f) m of
      None \<Rightarrow> Inr None
    | Some raw \<Rightarrow>
        bind_res (wrap_failed (\<lambda>e. Errorf ''field %s: %w'' [AStr (sfd_name f), AErr e]) (conv (sfd_value f) raw))
          (\<lambda>x. Inr (Some x)))"

lemma convert_field_cong [fundef_cong]:
  assumes "m = m'" and "f = f'" and "\<And>v. conv (sfd_value f') v = conv' (sfd_value f') v"
  shows "convert_field conv m f = convert_field conv' m' f'"
  using assms by (simp add: convert_field_def split: option.splits)

lemma convert_pair_cong [fundef_cong]:
  assumes "p = p'" and "\<And>v. ck v = ck' v" and "\<And>v. cv v = cv' v"
  shows "convert_pair rt ck cv p = convert_pair rt ck' cv' p'"
proof -
  have "ck = ck'" "cv = cv'" using assms by auto
  then show ?thesis using assms(1) by simp
qed

lemma convert_items_cong [fundef_cong]:
  assumes "xs = ys" and "\<And>v. conv v = conv' v"
  shows "convert_items conv xs = convert_items conv' ys"
proof -
  have "conv = conv'" using assms by auto
  then show ?thesis using assms(1) by simp
qed

text \<open>
  The order of the code: nil, assignable values, numbers, the direct conversions of booleans
  and texts, and then the kind of the target.
\<close>

lemma size_field: "f \<in> set fs \<Longrightarrow> size (sfd_value f) < Suc (size_list (size_struct_field size) fs)"
  by (induction fs) (auto simp: struct_field.size, (case_tac f; simp)+)

lemma size_underlying: "size (underlying T) \<le> size T"
  by (induction T rule: underlying.induct) simp_all

lemma elem_smaller:
  "underlying T = TPointer E \<Longrightarrow> size E < size T"
  "underlying T = TSlice E \<Longrightarrow> size E < size T"
  "underlying T = TArray n E \<Longrightarrow> size E < size T"
  "underlying T = TMap K E \<Longrightarrow> size E < size T"
  "underlying T = TMap K E \<Longrightarrow> size K < size T"
  "underlying T = TStruct fs \<Longrightarrow> f \<in> set fs \<Longrightarrow> size (sfd_value f) < size T"
  using size_underlying [of T] size_field [of f fs] by simp_all

function convertHostArg :: "reflect \<Rightarrow> Value \<Rightarrow> go_type \<Rightarrow> conv_error + go_type \<times> go_data" where
  "convertHostArg rt v T =
     (if v = VNil then
        (if nilable T then Inr (T, DNil) else failed (Errorf ''None cannot convert to %s'' [AStr (type_text rt T)]))
      else if assignable rt (type_of rt v) T then Inr (type_of rt v, DHost v)
      else case numericTo v T of Some d \<Rightarrow> Inr (T, d) | None \<Rightarrow>
      if is_number (type_of rt v) \<and> is_number T
      then failed (Errorf ''%v overflows %s'' [AStr (r_text rt v), AStr (type_text rt T)])
      else if safeDirectConversion (type_of rt v) T then Inr (T, DHost v)
      else case underlying T of
        TAny \<Rightarrow> Inr (type_of rt v, DHost v)
      | TInterface n \<Rightarrow>
          if implements rt (type_of rt v) T then Inr (type_of rt v, DHost v)
          else failed (Errorf ''%T does not implement %s'' [AStr (value_type_text rt v), AStr (type_text rt T)])
      | TPointer E \<Rightarrow> bind_res (convertHostArg rt v E) (\<lambda>x. Inr (TPointer E, DPointer x))
      | TSlice E \<Rightarrow>
          (case raw_bytes v of
             Some b \<Rightarrow> if underlying E = TUint Uint8 then copy_bytes rt T E b else failed (cannot_convert rt v T)
           | None \<Rightarrow> case sequenceValues v of
               None \<Rightarrow> failed (cannot_convert rt v T)
             | Some items \<Rightarrow> bind_res (convert_items (\<lambda>x. convertHostArg rt x E) items) (\<lambda>xs. Inr (T, DSlice xs)))
      | TArray n E \<Rightarrow>
          (case raw_bytes v of
             Some b \<Rightarrow>
               if underlying E = TUint Uint8 \<and> length b = n then copy_bytes rt T E b else failed (cannot_convert rt v T)
           | None \<Rightarrow> case sequenceValues v of
               None \<Rightarrow> failed (cannot_convert rt v T)
             | Some items \<Rightarrow>
                 if length items \<noteq> n then failed (cannot_convert rt v T)
                 else bind_res (convert_items (\<lambda>x. convertHostArg rt x E) items) (\<lambda>xs. Inr (T, DArray xs)))
      | TMap K E \<Rightarrow>
          (case resultDict v of
             None \<Rightarrow> failed (cannot_convert rt v T)
           | Some d \<Rightarrow>
               bind_res (map_res (convert_pair rt (\<lambda>x. convertHostArg rt x K) (\<lambda>x. convertHostArg rt x E)) d)
                 (\<lambda>es. Inr (T, DMap es)))
      | TStruct fs \<Rightarrow>
          (case resultDict v of
             None \<Rightarrow> failed (cannot_convert rt v T)
           | Some d \<Rightarrow> bind_res (as_failed (DictMap rt d)) (\<lambda>m.
               bind_res (map_res (\<lambda>f. convert_field (\<lambda>F x. convertHostArg rt x F) m f) fs)
                 (\<lambda>xs. Inr (T, DStruct xs))))
      | TBigInt \<Rightarrow>
          (case resultDict v of
             None \<Rightarrow> failed (cannot_convert rt v T)
           | Some d \<Rightarrow> bind_res (as_failed (DictMap rt d)) (\<lambda>m. Inr (T, DStruct [])))
      | _ \<Rightarrow> failed (cannot_convert rt v T))"
  by pat_completeness auto
termination
  by (relation "measure (\<lambda>(rt, v, T). size T)") (simp_all add: elem_smaller)


declare convertHostArg.simps [simp del]

section \<open>Decode\<close>

text \<open>
  A panic of the conversion is not recovered.  The last step of \<open>Decode\<close> is the type assertion \<open>result.(T)\<close>: it panics when the converted
  value has another type than \<open>T\<close>, and \<open>T\<close> is not an interface it implements.
\<close>

datatype 'a call_result = Result "go_error + 'a" | Panic string

definition Decode_value :: "reflect \<Rightarrow> Value \<Rightarrow> go_type \<Rightarrow> (go_type \<times> go_data) call_result" where
  "Decode_value rt v T =
     (case convertHostArg rt v T of
        Inl (Panics p) \<Rightarrow> Panic p
      | Inl (Failed e) \<Rightarrow> Result (Inl (Errorf ''decode Monty value as %s: %w'' [AStr (type_text rt T), AErr e]))
      | Inr (U, d) \<Rightarrow>
          if is_interface T \<and> d = DNil then Result (Inr (T, DNil))
          else if (if is_interface T then implements rt U T else U = T) then Result (Inr (U, d))
          else Panic (''interface conversion: interface {} is '' @ type_text rt U @ '', not '' @ type_text rt T))"

end
