(* ===== verification/Host_Calls.thy ===== *)
theory Host_Calls
  imports Host_Values Session_Ops
begin

text \<open>
  \<open>callHost\<close> (\<open>host.go\<close> lines 81-174): a Go function of any signature, called with converted
  Monty values.

  A host function is its \<open>reflect\<close> signature together with what a call of it does; a
  \<open>HostFunc\<close> takes the values as they are.
\<close>

section \<open>Host functions\<close>

datatype host_arg =
    ContextArg
  | ValueArg "go_type \<times> go_data"
  | KwargsArg "(string \<times> Value) list"

text \<open>
  A result: its \<open>Interface()\<close>, and what reading it as an error gives: \<open>IsNil\<close> panics on a type
  that cannot be nil (\<open>Inl\<close> of its kind), else the error it holds, if any.
\<close>

datatype go_out = GoOut (out_value: Value) (out_error: "string + go_error option")

record go_func =
  gf_in :: "go_type list"
  gf_variadic :: bool
  gf_out :: "go_type list"
  gf_call :: "host_arg list \<Rightarrow> string + go_out list"

datatype host_func =
    HostFunc "Value list \<Rightarrow> (string \<times> Value) list \<Rightarrow> Value call_result"
  | Reflected go_func

text \<open>\<open>Type.Implements\<close> of a named interface, which implements itself.\<close>

definition implements_named :: "reflect \<Rightarrow> go_type \<Rightarrow> string \<Rightarrow> bool" where
  "implements_named rt T n \<longleftrightarrow> underlying T = TInterface n \<or> r_implements rt T n"

definition takes_context :: "reflect \<Rightarrow> go_func \<Rightarrow> bool" where
  "takes_context rt f =
     (case gf_in f of [] \<Rightarrow> False | P # _ \<Rightarrow> implements_named rt P ''context.Context'')"

definition rest_params :: "reflect \<Rightarrow> go_func \<Rightarrow> go_type list" where
  "rest_params rt f = (if takes_context rt f then tl (gf_in f) else gf_in f)"

definition accepts_kwargs :: "reflect \<Rightarrow> go_func \<Rightarrow> bool" where
  "accepts_kwargs rt f \<longleftrightarrow> rest_params rt f \<noteq> [] \<and> last (gf_in f) = kwargsT"

definition positional_end :: "reflect \<Rightarrow> go_func \<Rightarrow> nat" where
  "positional_end rt f = length (gf_in f) - (if accepts_kwargs rt f then 1 else 0)"

definition positional_params :: "reflect \<Rightarrow> go_func \<Rightarrow> go_type list" where
  "positional_params rt f = (if accepts_kwargs rt f then butlast (rest_params rt f) else rest_params rt f)"

section \<open>Arguments\<close>

definition wrong_count :: "nat \<Rightarrow> nat \<Rightarrow> go_error" where
  "wrong_count want got =
     Errorf ''host function expects %d positional arguments, got %d'' [AInt (int want), AInt (int got)]"

definition convert_argument :: "reflect \<Rightarrow> nat \<Rightarrow> Value \<Rightarrow> go_type \<Rightarrow> conv_error + host_arg" where
  "convert_argument rt i v T =
     bind_res (wrap_failed (\<lambda>e. Errorf ''argument %d: %w'' [AInt (int i), AErr e]) (convertHostArg rt v T))
       (\<lambda>x. Inr (ValueArg x))"

definition element_type :: "go_type \<Rightarrow> go_type" where
  "element_type T = (case underlying T of TSlice E \<Rightarrow> E | _ \<Rightarrow> T)"

text \<open>
  The loop over the positional parameters: the converted arguments and the number of them.  A
  variadic last parameter takes all arguments that are left.
\<close>

fun convert_arguments ::
  "reflect \<Rightarrow> bool \<Rightarrow> nat \<Rightarrow> go_type list \<Rightarrow> nat \<Rightarrow> Value list \<Rightarrow> conv_error + host_arg list \<times> nat" where
  "convert_arguments rt variadic want [] i args = Inr ([], i)"
| "convert_arguments rt variadic want (P # Ps) i args =
     (if variadic \<and> Ps = [] then
        bind_res (map_res (\<lambda>(j, v). convert_argument rt j v (element_type P)) (enumerate i args))
          (\<lambda>xs. Inr (xs, i + length args))
      else case args of
        [] \<Rightarrow> failed (wrong_count want i)
      | v # vs \<Rightarrow>
          bind_res (convert_argument rt i v P) (\<lambda>x.
            bind_res (convert_arguments rt variadic want Ps (Suc i) vs) (\<lambda>(xs, n). Inr (x # xs, n))))"

definition call_arguments ::
  "reflect \<Rightarrow> go_func \<Rightarrow> Value list \<Rightarrow> (string \<times> Value) list \<Rightarrow> conv_error + host_arg list" where
  "call_arguments rt f args kw =
     bind_res
       (convert_arguments rt (gf_variadic f \<and> \<not> accepts_kwargs rt f) (positional_end rt f)
          (positional_params rt f) 0 args)
       (\<lambda>(xs, n).
          if n \<noteq> length args then failed (wrong_count n (length args))
          else if accepts_kwargs rt f
          then Inr ((if takes_context rt f then [ContextArg] else []) @ xs @ [KwargsArg kw])
          else if kw \<noteq> [] then failed (Errorf ''host function does not accept keyword arguments'' [])
          else Inr ((if takes_context rt f then [ContextArg] else []) @ xs))"

section \<open>Results\<close>

definition implements_error :: "reflect \<Rightarrow> go_type \<Rightarrow> bool" where
  "implements_error rt T = implements_named rt T ''error''"

definition host_panic :: "reflect \<Rightarrow> string \<Rightarrow> go_error" where
  "host_panic rt p = Errorf (''panic in host function: %v'' @ [CHR 0x0A] @ ''%s'') [AStr p, AStr (r_stack rt)]"

definition error_result :: "reflect \<Rightarrow> go_out \<Rightarrow> Value \<Rightarrow> go_error + Value" where
  "error_result rt r v =
     (case out_error r of
        Inl kind \<Rightarrow> Inl (host_panic rt (''reflect: call of reflect.Value.IsNil on '' @ kind @ '' Value''))
      | Inr None \<Rightarrow> Inr v
      | Inr (Some e) \<Rightarrow> Inl e)"

definition call_results :: "reflect \<Rightarrow> go_func \<Rightarrow> go_out list \<Rightarrow> go_error + Value" where
  "call_results rt f values =
     (case values of
        [] \<Rightarrow> Inr VNil
      | [x] \<Rightarrow> if implements_error rt (gf_out f ! 0) then error_result rt x VNil else Inr (out_value x)
      | [x, y] \<Rightarrow>
          if \<not> implements_error rt (gf_out f ! 1)
          then Inl (Errorf ''host function second return must implement error'' [])
          else error_result rt y (out_value x)
      | _ \<Rightarrow> Inl (Errorf ''host function must return at most (value, error)'' []))"

section \<open>The call\<close>

text \<open>
  \<open>funs\<close> gives the function a value \<open>HFunc i\<close> stands for.  The deferred recovery covers the
  reflected call and the conversion of its arguments: a \<open>HostFunc\<close> is called before it is installed.
\<close>

definition call_reflected :: "reflect \<Rightarrow> go_func \<Rightarrow> Value list \<Rightarrow> (string \<times> Value) list \<Rightarrow> go_error + Value" where
  "call_reflected rt f args kw =
     (case call_arguments rt f args kw of
        Inl (Failed e) \<Rightarrow> Inl e
      | Inl (Panics p) \<Rightarrow> Inl (host_panic rt p)
      | Inr xs \<Rightarrow>
          (case gf_call f xs of
             Inl p \<Rightarrow> Inl (host_panic rt p)
           | Inr values \<Rightarrow> call_results rt f values))"

definition callHost ::
  "reflect \<Rightarrow> (nat \<Rightarrow> host_func) \<Rightarrow> Value \<Rightarrow> Value list \<Rightarrow> dict \<Rightarrow> Value call_result" where
  "callHost rt funs fn args kwargs =
     (let fn = (case fn of HAsync g \<Rightarrow> g | _ \<Rightarrow> fn) in
      case kwargsMap kwargs of
        Inl e \<Rightarrow> Result (Inl e)
      | Inr kw \<Rightarrow>
          case fn of
            HFunc i doc \<Rightarrow>
              (case funs i of HostFunc g \<Rightarrow> g args kw | Reflected f \<Rightarrow> Result (call_reflected rt f args kw))
          | _ \<Rightarrow> Result (Inl (Errorf ''host value %T is not callable'' [AStr (value_type_text rt fn)])))"

end
