(* ===== verification/Host_Facts.thy ===== *)
theory Host_Facts
  imports Host_Values
begin

text \<open>
  Facts about the conversion of Monty values to Go values: numbers, the types of the results,
  and dictionaries read as structs.
\<close>

text \<open>A \<open>reflect\<close> that knows no host values and no interfaces.\<close>

definition no_reflect :: reflect where
  "no_reflect = \<lparr>r_type = (\<lambda>v. TOther []), r_implements = (\<lambda>T n. False), r_comparable = (\<lambda>v. False),
     r_text = (\<lambda>v. []), r_struct = (\<lambda>fs. []), r_stack = []\<rparr>"

section \<open>Numbers\<close>

definition integer_of :: "Value \<Rightarrow> int option" where
  "integer_of v = (case v of VInt64 w \<Rightarrow> Some (sint w) | VBigInt z \<Rightarrow> Some z | _ \<Rightarrow> None)"

lemma numericTo_integer: "integer_of v = Some z \<Longrightarrow> numericTo v T = integerTo z T"
  by (cases v) (simp_all add: integer_of_def numericTo_def)

lemma int_bits_bounds: "0 < int_bits k" "int_bits k \<le> 64"
  by (cases k; simp add: int_bits_def)+

lemma uint_bits_bounds: "0 < uint_bits k" "uint_bits k \<le> 64"
  by (cases k; simp add: uint_bits_def)+

lemma shift_back_signed:
  assumes "0 < n" and "n \<le> 64"
  shows "signed_drop_bit (64 - n) (push_bit (64 - n) (w :: uint64)) = signed_take_bit (n - 1) w"
proof (rule bit_word_eqI)
  fix i
  assume "i < LENGTH(64)"
  then show "bit (signed_drop_bit (64 - n) (push_bit (64 - n) w)) i = bit (signed_take_bit (n - 1) w) i"
    using assms by (cases "i < n - 1"; cases "i = n - 1")
      (auto simp: bit_signed_drop_bit_iff bit_push_bit_iff bit_signed_take_bit_iff min_def not_le)
qed

lemma sint_in_range: "- (2 ^ 63) \<le> sint (w :: uint64)" "sint (w :: uint64) < 2 ^ 63"
  using sint_ge [of w] sint_lt [of w] by simp_all

lemma overflow_int_iff:
  "overflow_int k w \<longleftrightarrow> \<not> (- (2 ^ (int_bits k - 1)) \<le> sint w \<and> sint w < 2 ^ (int_bits k - 1))"
proof -
  let ?n = "int_bits k"
  have "sint (signed_take_bit (?n - 1) w) = signed_take_bit (?n - 1) (sint w)"
    using int_bits_bounds [of k]
    by (intro bit_eqI) (auto simp: bit_sint_iff bit_signed_take_bit_iff min_def)
  then have "signed_take_bit (?n - 1) w = w \<longleftrightarrow> signed_take_bit (?n - 1) (sint w) = sint w"
    by (metis signed_word_eqI)
  then show ?thesis
    by (simp add: overflow_int_def shift_back_signed int_bits_bounds signed_take_bit_int_eq_self_iff)
qed

lemma overflow_uint_iff: "overflow_uint k w \<longleftrightarrow> 2 ^ uint_bits k \<le> uint w"
proof -
  let ?n = "uint_bits k"
  have "drop_bit (64 - ?n) (push_bit (64 - ?n) w) = take_bit ?n w"
    using uint_bits_bounds [of k]
    by (intro bit_word_eqI) (auto simp: bit_drop_bit_eq bit_push_bit_iff bit_take_bit_iff)
  moreover have "take_bit ?n w = w \<longleftrightarrow> uint w < 2 ^ ?n"
    by (metis take_bit_int_eq_self_iff uint_ge_0 unsigned_take_bit_eq word_uint_eq_iff)
  ultimately show ?thesis by (auto simp: overflow_uint_def)
qed

text \<open>An integer reaches an integer type exactly when the type can hold it, and then unchanged.\<close>

lemma integerTo_signed:
  assumes "underlying T = TInt k"
  shows "integerTo z T =
    (if - (2 ^ (int_bits k - 1)) \<le> z \<and> z < 2 ^ (int_bits k - 1) then Some (DInt (word_of_int z)) else None)"
proof -
  have le: "(2 :: int) ^ (int_bits k - 1) \<le> 2 ^ 63"
    by (cases k) (simp_all add: int_bits_def)
  have "sint (word_of_int z :: uint64) = z" if "- (2 ^ 63) \<le> z" "z < 2 ^ 63"
    using that by (simp add: sint_sbintrunc' signed_take_bit_int_eq_self)
  then show ?thesis using assms le by (auto simp: integerTo_def overflow_int_iff)
qed

lemma integerTo_unsigned:
  assumes "underlying T = TUint k"
  shows "integerTo z T = (if 0 \<le> z \<and> z < 2 ^ uint_bits k then Some (DUint (word_of_int z)) else None)"
proof -
  have le: "(2 :: int) ^ uint_bits k \<le> 2 ^ 64"
    by (cases k) (simp_all add: uint_bits_def)
  have "uint (word_of_int z :: uint64) = z" if "0 \<le> z" "z < 2 ^ 64"
    using that by (simp add: uint_word_of_int)
  then show ?thesis using assms le by (auto simp: integerTo_def overflow_uint_iff)
qed

lemma signed_result: "- (2 ^ (int_bits k - 1)) \<le> z \<and> z < 2 ^ (int_bits k - 1) \<Longrightarrow>
    DInt (word_of_int z) = d \<longleftrightarrow> (\<exists>w. d = DInt w \<and> sint w = z)"
proof -
  assume "- (2 ^ (int_bits k - 1)) \<le> z \<and> z < 2 ^ (int_bits k - 1)"
  then have "- (2 ^ 63) \<le> z" "z < 2 ^ 63" by (cases k; simp add: int_bits_def)+
  then have "sint (word_of_int z :: uint64) = z" by (simp add: sint_sbintrunc' signed_take_bit_int_eq_self)
  then show ?thesis by auto
qed

lemma unsigned_result: "0 \<le> z \<and> z < 2 ^ uint_bits u \<Longrightarrow>
    DUint (word_of_int z) = d \<longleftrightarrow> (\<exists>w. d = DUint w \<and> uint w = z)"
proof -
  assume z: "0 \<le> z \<and> z < 2 ^ uint_bits u"
  then have "z < 2 ^ 64" by (cases u; simp add: uint_bits_def)+
  with z have "uint (word_of_int z :: uint64) = z" by (simp add: uint_word_of_int)
  then show ?thesis by auto
qed

section \<open>The types of the results\<close>

text \<open>
  \<open>stored rt U d\<close>: data \<open>d\<close> is a Go value of type \<open>U\<close>.  Whatever sits in a container, a pointer
  or a field has a type that can be assigned to the element type, so that \<open>reflect\<close> could put it there.
\<close>

inductive stored :: "reflect \<Rightarrow> go_type \<Rightarrow> go_data \<Rightarrow> bool" for rt where
  host: "type_of rt v = U \<or> safeDirectConversion (type_of rt v) U \<Longrightarrow> stored rt U (DHost v)"
| nil: "nilable U \<Longrightarrow> stored rt U DNil"
| int: "underlying U = TInt k \<Longrightarrow> \<not> overflow_int k w \<Longrightarrow> stored rt U (DInt w)"
| uint: "underlying U = TUint k \<Longrightarrow> \<not> overflow_uint k w \<Longrightarrow> stored rt U (DUint w)"
| float: "isFloat U \<Longrightarrow> stored rt U (DFloat w)"
| complex: "underlying U = TComplex64 \<or> underlying U = TComplex128 \<Longrightarrow> stored rt U (DComplex re im)"
| big: "stored rt TBigInt (DBigInt z)"
| byte_slice: "underlying U = bytesT \<Longrightarrow> stored rt U (DBytes b)"
| byte_array: "underlying U = TArray n (TUint Uint8) \<Longrightarrow> length b = n \<Longrightarrow> stored rt U (DBytes b)"
| pointer: "assignable rt (fst x) E \<Longrightarrow> stored rt (fst x) (snd x) \<Longrightarrow> stored rt (TPointer E) (DPointer x)"
| slice: "underlying U = TSlice E \<Longrightarrow> (\<And>x. x \<in> set xs \<Longrightarrow> assignable rt (fst x) E \<and> stored rt (fst x) (snd x)) \<Longrightarrow>
    stored rt U (DSlice xs)"
| array: "underlying U = TArray n E \<Longrightarrow> length xs = n \<Longrightarrow>
    (\<And>x. x \<in> set xs \<Longrightarrow> assignable rt (fst x) E \<and> stored rt (fst x) (snd x)) \<Longrightarrow> stored rt U (DArray xs)"
| map: "underlying U = TMap K E \<Longrightarrow>
    (\<And>k x. (k, x) \<in> set d \<Longrightarrow> key_comparable rt k \<and> assignable rt (fst k) K \<and> stored rt (fst k) (snd k)
       \<and> assignable rt (fst x) E \<and> stored rt (fst x) (snd x)) \<Longrightarrow> stored rt U (DMap d)"
| struct: "underlying U = TStruct fs \<Longrightarrow> length ys = length fs \<Longrightarrow>
    (\<And>f x. (f, Some x) \<in> set (zip fs ys) \<Longrightarrow> assignable rt (fst x) (sfd_value f) \<and> stored rt (fst x) (snd x)) \<Longrightarrow>
    stored rt U (DStruct ys)"
| big_struct: "underlying U = TBigInt \<Longrightarrow> stored rt U (DStruct [])"

lemma assignable_refl [simp]: "assignable rt T T"
  by (simp add: assignable_def)

lemma numericTo_stored: "numericTo v T = Some d \<Longrightarrow> stored rt T d"
  by (auto simp: numericTo_def integerTo_def complexTo_def floatTo_def set_float_def isFloat_def
      split: Value.splits go_type.splits if_splits intro: stored.intros)

lemma map_res_mem_result: "map_res f xs = Inr ys \<Longrightarrow> y \<in> set ys \<Longrightarrow> \<exists>x \<in> set xs. f x = Inr y"
  by (induction xs arbitrary: ys) (auto simp: bind_res_eq_Inr)

lemma in_set_enumerate_snd: "(j, v) \<in> set (enumerate n xs) \<Longrightarrow> v \<in> set xs"
  by (auto simp: in_set_enumerate_eq)

lemma copy_bytes_eq_Inr: "copy_bytes rt T E b = Inr r \<longleftrightarrow> E = TUint Uint8 \<and> r = (T, DBytes b)"
  by (auto simp: copy_bytes_def)

lemma convert_items_result:
  "convert_items conv items = Inr xs \<Longrightarrow> length xs = length items \<and> (\<forall>x \<in> set xs. \<exists>v \<in> set items. conv v = Inr x)"
proof
  assume *: "convert_items conv items = Inr xs"
  then show "length xs = length items" by (simp add: convert_items_def map_res_length)
  show "\<forall>x \<in> set xs. \<exists>v \<in> set items. conv v = Inr x"
  proof
    fix x
    assume "x \<in> set xs"
    from map_res_mem_result [OF * [unfolded convert_items_def] this] obtain j v
      where "(j, v) \<in> set (enumerate 0 items)" "conv v = Inr x" by (auto simp: wrap_failed_Inr)
    then show "\<exists>v \<in> set items. conv v = Inr x" by (auto dest: in_set_enumerate_snd)
  qed
qed

lemma convert_pair_result:
  "convert_pair rt ck cv p = Inr (k, x) \<Longrightarrow> key_comparable rt k \<and> ck (fst p) = Inr k \<and> cv (snd p) = Inr x"
  by (auto simp: convert_pair_def bind_res_eq_Inr wrap_failed_Inr split: if_splits)

lemma convert_field_result:
  "convert_field conv m f = Inr (Some x) \<Longrightarrow> \<exists>v. conv (sfd_value f) v = Inr x"
  by (auto simp: convert_field_def bind_res_eq_Inr wrap_failed_Inr split: option.splits)

lemma map_res_zip: "map_res f xs = Inr ys \<Longrightarrow> (x, y) \<in> set (zip xs ys) \<Longrightarrow> f x = Inr y"
  by (induction xs arbitrary: ys) (auto simp: bind_res_eq_Inr)

text \<open>The conversions that depend on the kind of the target only when nothing simpler applies.\<close>

definition falls_through :: "reflect \<Rightarrow> Value \<Rightarrow> go_type \<Rightarrow> bool" where
  "falls_through rt v T \<longleftrightarrow> v \<noteq> VNil \<and> \<not> assignable rt (type_of rt v) T \<and> numericTo v T = None
     \<and> \<not> (is_number (type_of rt v) \<and> is_number T) \<and> \<not> safeDirectConversion (type_of rt v) T"

lemma convert_direct:
  "\<not> falls_through rt v T \<Longrightarrow> convertHostArg rt v T = Inr r \<Longrightarrow> assignable rt (fst r) T \<and> stored rt (fst r) (snd r)"
  by (auto simp: falls_through_def convertHostArg.simps [of rt v T] intro: stored.host stored.nil numericTo_stored
      split: if_splits option.splits)

lemma convert_nil: "convertHostArg rt VNil T =
    (if nilable T then Inr (T, DNil) else failed (Errorf ''None cannot convert to %s'' [AStr (type_text rt T)]))"
  by (simp add: convertHostArg.simps [of rt VNil T])

lemma convert_assignable:
  "v \<noteq> VNil \<Longrightarrow> assignable rt (type_of rt v) T \<Longrightarrow> convertHostArg rt v T = Inr (type_of rt v, DHost v)"
  by (simp add: convertHostArg.simps [of rt v T])

lemma convert_numeric:
  "v \<noteq> VNil \<Longrightarrow> \<not> assignable rt (type_of rt v) T \<Longrightarrow> numericTo v T = Some d \<Longrightarrow> convertHostArg rt v T = Inr (T, d)"
  by (simp add: convertHostArg.simps [of rt v T])

lemma convert_pointer:
  "falls_through rt v T \<Longrightarrow> underlying T = TPointer E \<Longrightarrow>
   convertHostArg rt v T = bind_res (convertHostArg rt v E) (\<lambda>x. Inr (TPointer E, DPointer x))"
  by (auto simp: falls_through_def convertHostArg.simps [of rt v T])

lemma convert_slice:
  "falls_through rt v T \<Longrightarrow> underlying T = TSlice E \<Longrightarrow>
   convertHostArg rt v T = (case raw_bytes v of
       Some b \<Rightarrow> if underlying E = TUint Uint8 then copy_bytes rt T E b else failed (cannot_convert rt v T)
     | None \<Rightarrow> case sequenceValues v of
         None \<Rightarrow> failed (cannot_convert rt v T)
       | Some items \<Rightarrow> bind_res (convert_items (\<lambda>x. convertHostArg rt x E) items) (\<lambda>xs. Inr (T, DSlice xs)))"
  by (auto simp: falls_through_def convertHostArg.simps [of rt v T])

lemma convert_array:
  "falls_through rt v T \<Longrightarrow> underlying T = TArray n E \<Longrightarrow>
   convertHostArg rt v T = (case raw_bytes v of
       Some b \<Rightarrow> if underlying E = TUint Uint8 \<and> length b = n then copy_bytes rt T E b else failed (cannot_convert rt v T)
     | None \<Rightarrow> case sequenceValues v of
         None \<Rightarrow> failed (cannot_convert rt v T)
       | Some items \<Rightarrow>
           if length items \<noteq> n then failed (cannot_convert rt v T)
           else bind_res (convert_items (\<lambda>x. convertHostArg rt x E) items) (\<lambda>xs. Inr (T, DArray xs)))"
  by (auto simp: falls_through_def convertHostArg.simps [of rt v T])

lemma convert_map:
  "falls_through rt v T \<Longrightarrow> underlying T = TMap K E \<Longrightarrow>
   convertHostArg rt v T = (case resultDict v of
       None \<Rightarrow> failed (cannot_convert rt v T)
     | Some d \<Rightarrow>
         bind_res (map_res (convert_pair rt (\<lambda>x. convertHostArg rt x K) (\<lambda>x. convertHostArg rt x E)) d)
           (\<lambda>es. Inr (T, DMap es)))"
  by (auto simp: falls_through_def convertHostArg.simps [of rt v T])

lemma convert_struct:
  "falls_through rt v T \<Longrightarrow> underlying T = TStruct fs \<Longrightarrow>
   convertHostArg rt v T = (case resultDict v of
       None \<Rightarrow> failed (cannot_convert rt v T)
     | Some d \<Rightarrow> bind_res (as_failed (DictMap rt d)) (\<lambda>m.
         bind_res (map_res (convert_field (\<lambda>F x. convertHostArg rt x F) m) fs) (\<lambda>xs. Inr (T, DStruct xs))))"
  by (auto simp: falls_through_def convertHostArg.simps [of rt v T])

lemma convert_big_struct:
  "falls_through rt v T \<Longrightarrow> underlying T = TBigInt \<Longrightarrow>
   convertHostArg rt v T = (case resultDict v of
       None \<Rightarrow> failed (cannot_convert rt v T) | Some d \<Rightarrow> bind_res (as_failed (DictMap rt d)) (\<lambda>m. Inr (T, DStruct [])))"
  by (auto simp: falls_through_def convertHostArg.simps [of rt v T])

lemmas convert_kinds = convert_pointer convert_slice convert_array convert_map convert_struct convert_big_struct

text \<open>Nothing else is converted.\<close>

lemma convert_other:
  assumes "falls_through rt v T" and "convertHostArg rt v T = Inr r"
  obtains E where "underlying T = TPointer E" | E where "underlying T = TSlice E" | n E where "underlying T = TArray n E"
    | K E where "underlying T = TMap K E" | fs where "underlying T = TStruct fs" | "underlying T = TBigInt"
  using assms
  by (cases "underlying T")
    (auto simp: falls_through_def convertHostArg.simps [of rt v T] assignable_def implements_def)

lemma convert_stored:
  "convertHostArg rt v T = Inr r \<Longrightarrow> assignable rt (fst r) T \<and> stored rt (fst r) (snd r)"
proof (induction T arbitrary: v r rule: measure_induct_rule [of size])
  case (less T)
  note IH = less.IH [OF elem_smaller(1)] less.IH [OF elem_smaller(2)] less.IH [OF elem_smaller(3)]
    less.IH [OF elem_smaller(4)] less.IH [OF elem_smaller(5)] less.IH [OF elem_smaller(6)]
  show ?case
  proof (cases "falls_through rt v T")
    case False
    then show ?thesis using less.prems by (rule convert_direct)
  next
    case True
    show ?thesis
      using True less.prems
    proof (cases rule: convert_other)
      case (1 E)
      with True less.prems obtain x where "convertHostArg rt v E = Inr x" "r = (TPointer E, DPointer x)"
        by (auto simp: convert_pointer bind_res_eq_Inr)
      moreover have "assignable rt (TPointer E) T" by (simp add: assignable_def 1)
      ultimately show ?thesis using IH(1) [OF 1] by (cases x) (auto intro: stored.pointer)
    next
      case (2 E)
      from less.prems consider (bytes) b where "E = TUint Uint8" "r = (T, DBytes b)"
        | (items) items xs where "convert_items (\<lambda>x. convertHostArg rt x E) items = Inr xs" "r = (T, DSlice xs)"
        by (auto simp: convert_slice [OF True 2] copy_bytes_eq_Inr bind_res_eq_Inr split: option.splits if_splits)
      then show ?thesis
        by cases (use 2 IH(2) [OF 2] convert_items_result in \<open>auto intro!: stored.byte_slice stored.slice, blast+\<close>)
    next
      case (3 n E)
      from less.prems consider (bytes) b where "E = TUint Uint8" "length b = n" "r = (T, DBytes b)"
        | (items) items xs where "convert_items (\<lambda>x. convertHostArg rt x E) items = Inr xs" "length items = n"
          "r = (T, DArray xs)"
        by (auto simp: convert_array [OF True 3] copy_bytes_eq_Inr bind_res_eq_Inr split: option.splits if_splits)
      then show ?thesis
      proof cases
        case bytes
        with 3 show ?thesis by (auto intro: stored.byte_array)
      next
        case items
        have "stored rt T (DArray xs)"
          by (rule stored.array [OF 3]) (use items convert_items_result IH(3) [OF 3] in blast)+
        with items show ?thesis by simp
      qed
    next
      case (4 K E)
      from less.prems obtain d es where r: "r = (T, DMap es)"
        and es: "map_res (convert_pair rt (\<lambda>x. convertHostArg rt x K) (\<lambda>x. convertHostArg rt x E)) d = Inr es"
        by (auto simp: convert_map [OF True 4] bind_res_eq_Inr split: option.splits)
      have "stored rt T (DMap es)"
        by (rule stored.map [OF 4])
          (use map_res_mem_result [OF es] convert_pair_result IH(4) [OF 4] IH(5) [OF 4] in blast)
      with r show ?thesis by simp
    next
      case (5 fs)
      from less.prems obtain m ys where r: "r = (T, DStruct ys)"
        and ys: "map_res (convert_field (\<lambda>F x. convertHostArg rt x F) m) fs = Inr ys"
        by (auto simp: convert_struct [OF True 5] bind_res_eq_Inr as_failed_Inr split: option.splits)
      have "assignable rt (fst x) (sfd_value f) \<and> stored rt (fst x) (snd x)" if "(f, Some x) \<in> set (zip fs ys)" for f x
        using convert_field_result [OF map_res_zip [OF ys that]] IH(6) [OF 5 set_zip_leftD [OF that]] by blast
      with r 5 map_res_length [OF ys] show ?thesis by (auto intro: stored.struct)
    next
      case 6
      with True less.prems show ?thesis
        by (auto simp: convert_big_struct bind_res_eq_Inr as_failed_Inr split: option.splits intro: stored.big_struct)
    qed
  qed
qed

section \<open>The type of the result\<close>

text \<open>
  The converted value has the target type itself, except for assignable values, which keep their
  own type, and for new pointers, whose type has no name.
\<close>

lemma convert_type:
  assumes "convertHostArg rt v T = Inr (U, d)" and "\<forall>E. underlying T = TPointer E \<longrightarrow> T = TPointer E"
  shows "U = (if v \<noteq> VNil \<and> assignable rt (type_of rt v) T then type_of rt v else T)"
proof (cases "falls_through rt v T")
  case True
  show ?thesis
    using True assms(1)
    by (cases rule: convert_other)
      (use assms True in \<open>auto simp: convert_kinds copy_bytes_eq_Inr bind_res_eq_Inr falls_through_def split: option.splits if_splits\<close>)
next
  case False
  then show ?thesis
    using assms(1)
    by (auto simp: falls_through_def convertHostArg.simps [of rt v T] split: if_splits option.splits)
qed

lemma convert_interface:
  assumes "is_interface T" and "v \<noteq> VNil" and "convertHostArg rt v T = Inr (U, d)"
  shows "assignable rt (type_of rt v) T"
  using assms
  by (auto simp: convertHostArg.simps [of rt v T] is_interface_def assignable_def implements_def numericTo_def
      integerTo_def complexTo_def floatTo_def is_number_def isSigned_def isUnsigned_def isFloat_def safeDirectConversion_def
      split: if_splits option.splits go_type.splits Value.splits)

section \<open>Dictionaries as maps\<close>

abbreviation text_dict :: "(string \<times> Value) list \<Rightarrow> dict" where
  "text_dict kvs \<equiv> map (\<lambda>(k, x). (VString k, x)) kvs"

lemma dict_pair_eq_ok: "dict_pair rt p m = ok m' \<longleftrightarrow> (\<exists>k. fst p = VString k \<and> m k = None \<and> m' = m(k \<mapsto> snd p))"
  by (cases "fst p") (auto simp: dict_pair_def)

lemma fold_dict_pair:
  "fold_res (dict_pair rt) d m = ok m' \<longleftrightarrow>
     (\<exists>kvs. d = text_dict kvs \<and> distinct (map fst kvs) \<and> set (map fst kvs) \<inter> dom m = {} \<and> m' = m ++ map_of kvs)"
proof (induction d arbitrary: m)
  case Nil
  then show ?case by auto
next
  case (Cons p d)
  have "fold_res (dict_pair rt) (p # d) m = ok m' \<longleftrightarrow>
    (\<exists>k. fst p = VString k \<and> m k = None \<and> fold_res (dict_pair rt) d (m(k \<mapsto> snd p)) = ok m')"
    by (cases "dict_pair rt p m") (auto simp: dict_pair_eq_ok split: option.splits, (cases "fst p"; auto simp: dict_pair_def)+)
  also have "\<dots> \<longleftrightarrow> (\<exists>k kvs. fst p = VString k \<and> m k = None \<and> d = text_dict kvs \<and> distinct (map fst kvs)
      \<and> set (map fst kvs) \<inter> dom (m(k \<mapsto> snd p)) = {} \<and> m' = m(k \<mapsto> snd p) ++ map_of kvs)"
    unfolding Cons.IH by blast
  also have "\<dots> \<longleftrightarrow> (\<exists>kvs. p # d = text_dict kvs \<and> distinct (map fst kvs) \<and> set (map fst kvs) \<inter> dom m = {}
      \<and> m' = m ++ map_of kvs)" (is "?L \<longleftrightarrow> ?R")
  proof
    assume ?L
    then obtain k kvs where *: "fst p = VString k" "m k = None" "d = text_dict kvs" "distinct (map fst kvs)"
      "set (map fst kvs) \<inter> dom (m(k \<mapsto> snd p)) = {}" "m' = m(k \<mapsto> snd p) ++ map_of kvs" by blast
    then show ?R
      by (intro exI [of _ "(k, snd p) # kvs"]) (auto simp: map_add_upd_left dom_map_of_conv_image_fst prod_eq_iff)
  next
    assume ?R
    then obtain q kvs where "p = (VString (fst q), snd q)" "d = text_dict kvs" "distinct (map fst (q # kvs))"
      "set (map fst (q # kvs)) \<inter> dom m = {}" "m' = m ++ map_of (q # kvs)" by (auto simp: Cons_eq_map_conv)
    then show ?L
      by (intro exI [of _ "fst q"] exI [of _ kvs])
        (auto simp: map_add_upd_left dom_map_of_conv_image_fst)
  qed
  finally show ?case .
qed

lemma DictMap_eq_Inr:
  "DictMap rt d = Inr m \<longleftrightarrow> (\<exists>kvs. d = text_dict kvs \<and> distinct (map fst kvs) \<and> m = map_of kvs)"
  by (simp add: DictMap_def result_of_eq_Inr fold_dict_pair)

lemma DictMap_text: "distinct (map fst kvs) \<Longrightarrow> DictMap rt (text_dict kvs) = Inr (map_of kvs)"
  unfolding DictMap_eq_Inr by blast

text \<open>A dictionary meets the kind of a struct or a map: nothing simpler applies to it.\<close>

lemma dict_falls_through:
  "underlying T = TStruct fs \<or> underlying T = TMap K E \<Longrightarrow> falls_through rt (VDict d) T"
  by (auto simp: falls_through_def assignable_def implements_def numericTo_def is_number_def isSigned_def
      isUnsigned_def isFloat_def safeDirectConversion_def)

lemma struct_of_dict:
  assumes "underlying T = TStruct fs" and "distinct (map fst kvs)"
  shows "convertHostArg rt (VDict (text_dict kvs)) T =
    bind_res (map_res (convert_field (\<lambda>F x. convertHostArg rt x F) (map_of kvs)) fs) (\<lambda>xs. Inr (T, DStruct xs))"
  using assms by (simp add: convert_struct [OF dict_falls_through] resultDict_def DictMap_text)

lemma convert_field_agree:
  "(\<And>n. field_name f = Some n \<Longrightarrow> m n = m' n) \<Longrightarrow> convert_field conv m f = convert_field conv m' f"
  by (cases "field_name f") (simp_all add: convert_field_def)

lemma struct_keys_irrelevant:
  assumes "underlying T = TStruct fs" and "distinct (map fst kvs)" and "distinct (map fst kvs')"
    and "\<And>f n. f \<in> set fs \<Longrightarrow> field_name f = Some n \<Longrightarrow> map_of kvs n = map_of kvs' n"
  shows "convertHostArg rt (VDict (text_dict kvs)) T = convertHostArg rt (VDict (text_dict kvs')) T"
proof -
  have "map_res (convert_field (\<lambda>F x. convertHostArg rt x F) (map_of kvs)) fs
      = map_res (convert_field (\<lambda>F x. convertHostArg rt x F) (map_of kvs')) fs"
    by (rule map_res_cong [OF refl convert_field_agree]) (rule assms(4))
  then show ?thesis using assms(1-3) by (simp add: struct_of_dict)
qed

end
