(* ===== verification/Host_Panics.thy ===== *)
theory Host_Panics
  imports Host_Facts
begin

text \<open>
  When the conversion of a Monty value panics, and when \<open>Decode\<close> does.

  \<open>copy_panics rt v T\<close> describes the first without the code's traversal: somewhere in \<open>v\<close>, reached
  before anything fails to convert, a \<open>bytes\<close> value meets a slice or an array whose elements
  have a defined type with the underlying type \<open>uint8\<close>.
\<close>

definition defined_byte :: "go_type \<Rightarrow> bool" where
  "defined_byte E \<longleftrightarrow> underlying E = TUint Uint8 \<and> E \<noteq> TUint Uint8"

definition converts :: "reflect \<Rightarrow> go_type \<Rightarrow> Value \<Rightarrow> bool" where
  "converts rt T v \<longleftrightarrow> (\<exists>r. convertHostArg rt v T = Inr r)"

definition key_converts :: "reflect \<Rightarrow> go_type \<Rightarrow> Value \<Rightarrow> bool" where
  "key_converts rt T v \<longleftrightarrow> (\<exists>r. convertHostArg rt v T = Inr r \<and> key_comparable rt r)"

inductive copy_panics :: "reflect \<Rightarrow> Value \<Rightarrow> go_type \<Rightarrow> bool" for rt where
  bytes_slice: "falls_through rt (VBytes b) T \<Longrightarrow> underlying T = TSlice E \<Longrightarrow> defined_byte E \<Longrightarrow>
    copy_panics rt (VBytes b) T"
| bytes_array: "falls_through rt (VBytes b) T \<Longrightarrow> underlying T = TArray (length b) E \<Longrightarrow> defined_byte E \<Longrightarrow>
    copy_panics rt (VBytes b) T"
| pointer: "falls_through rt v T \<Longrightarrow> underlying T = TPointer E \<Longrightarrow> copy_panics rt v E \<Longrightarrow> copy_panics rt v T"
| slice: "falls_through rt v T \<Longrightarrow> underlying T = TSlice E \<Longrightarrow> sequenceValues v = Some (xs @ x # ys) \<Longrightarrow>
    list_all (converts rt E) xs \<Longrightarrow> copy_panics rt x E \<Longrightarrow> copy_panics rt v T"
| array: "falls_through rt v T \<Longrightarrow> underlying T = TArray (length (xs @ x # ys)) E \<Longrightarrow>
    sequenceValues v = Some (xs @ x # ys) \<Longrightarrow> list_all (converts rt E) xs \<Longrightarrow> copy_panics rt x E \<Longrightarrow> copy_panics rt v T"
| map_key: "falls_through rt v T \<Longrightarrow> underlying T = TMap K E \<Longrightarrow> resultDict v = Some (ps @ (k, x) # qs) \<Longrightarrow>
    list_all (\<lambda>(k, x). key_converts rt K k \<and> converts rt E x) ps \<Longrightarrow> copy_panics rt k K \<Longrightarrow> copy_panics rt v T"
| map_value: "falls_through rt v T \<Longrightarrow> underlying T = TMap K E \<Longrightarrow> resultDict v = Some (ps @ (k, x) # qs) \<Longrightarrow>
    list_all (\<lambda>(k, x). key_converts rt K k \<and> converts rt E x) ps \<Longrightarrow> key_converts rt K k \<Longrightarrow> copy_panics rt x E \<Longrightarrow>
    copy_panics rt v T"
| struct: "falls_through rt v T \<Longrightarrow> underlying T = TStruct (fs @ f # gs) \<Longrightarrow> resultDict v = Some (text_dict kvs) \<Longrightarrow>
    distinct (map fst kvs) \<Longrightarrow>
    list_all (\<lambda>f. \<forall>x. Option.bind (field_name f) (map_of kvs) = Some x \<longrightarrow> converts rt (sfd_value f) x) fs \<Longrightarrow>
    Option.bind (field_name f) (map_of kvs) = Some x \<Longrightarrow> copy_panics rt x (sfd_value f) \<Longrightarrow> copy_panics rt v T"

section \<open>The first failure of a loop\<close>

lemma map_res_stops:
  "map_res f xs = Inl e \<longleftrightarrow> (\<exists>ys x zs. xs = ys @ x # zs \<and> list_all (\<lambda>y. \<exists>r. f y = Inr r) ys \<and> f x = Inl e)"
proof (induction xs)
  case (Cons a xs)
  show ?case
  proof (cases "f a")
    case (Inl e')
    show ?thesis
    proof
      assume "map_res f (a # xs) = Inl e"
      with Inl have "a # xs = [] @ a # xs \<and> list_all (\<lambda>y. \<exists>r. f y = Inr r) [] \<and> f a = Inl e" by simp
      then show "\<exists>ys x zs. a # xs = ys @ x # zs \<and> list_all (\<lambda>y. \<exists>r. f y = Inr r) ys \<and> f x = Inl e" by blast
    qed (use Inl in \<open>auto simp: Cons_eq_append_conv\<close>)
  next
    case (Inr r)
    then have "map_res f (a # xs) = Inl e \<longleftrightarrow> map_res f xs = Inl e" by (cases "map_res f xs") auto
    also have "\<dots> \<longleftrightarrow> (\<exists>ys x zs. xs = ys @ x # zs \<and> list_all (\<lambda>y. \<exists>r. f y = Inr r) ys \<and> f x = Inl e)"
      by (rule Cons.IH)
    also have "\<dots> \<longleftrightarrow> (\<exists>ys x zs. a # xs = ys @ x # zs \<and> list_all (\<lambda>y. \<exists>r. f y = Inr r) ys \<and> f x = Inl e)" (is "?L \<longleftrightarrow> ?R")
    proof
      assume ?L
      then obtain ys x zs where "xs = ys @ x # zs" "list_all (\<lambda>y. \<exists>r. f y = Inr r) ys" "f x = Inl e" by blast
      with Inr show ?R by (intro exI [of _ "a # ys"] exI [of _ x] exI [of _ zs]) simp
    next
      assume ?R
      then obtain ys x zs where *: "a # xs = ys @ x # zs" "list_all (\<lambda>y. \<exists>r. f y = Inr r) ys" "f x = Inl e" by blast
      with Inr obtain ys' where "ys = a # ys'" by (cases ys) auto
      with * show ?L by auto
    qed
    finally show ?thesis .
  qed
qed simp

lemma enumerate_items_stops:
  "map_res (\<lambda>(i, x). wrap_failed (w i) (conv x)) (enumerate n xs) = Inl (Panics m) \<longleftrightarrow>
     map_res conv xs = Inl (Panics m)"
proof (induction xs arbitrary: n)
  case (Cons a xs)
  show ?case
  proof (cases "conv a")
    case (Inl e)
    then show ?thesis by (cases e) auto
  next
    case (Inr r)
    then show ?thesis using Cons.IH [of "Suc n"] by (auto simp: bind_res_def split: sum.splits)
  qed
qed simp

lemma convert_items_panics:
  "convert_items (\<lambda>x. convertHostArg rt x E) items = Inl (Panics m) \<longleftrightarrow>
     (\<exists>ys x zs. items = ys @ x # zs \<and> list_all (converts rt E) ys \<and> convertHostArg rt x E = Inl (Panics m))"
  unfolding convert_items_def enumerate_items_stops
  unfolding map_res_stops converts_def [abs_def] by (rule refl)

lemma convert_pair_panics:
  "convert_pair rt ck cv p = Inl (Panics m) \<longleftrightarrow> ck (fst p) = Inl (Panics m)
     \<or> (\<exists>k. ck (fst p) = Inr k \<and> key_comparable rt k \<and> cv (snd p) = Inl (Panics m))"
  by (cases "ck (fst p)"; cases "cv (snd p)")
    (auto simp: convert_pair_def wrap_failed_def split: conv_error.splits)

lemma convert_pair_converts:
  "(\<exists>r. convert_pair rt (\<lambda>x. convertHostArg rt x K) (\<lambda>x. convertHostArg rt x E) p = Inr r) \<longleftrightarrow>
     key_converts rt K (fst p) \<and> converts rt E (snd p)"
  by (cases "convertHostArg rt (fst p) K"; cases "convertHostArg rt (snd p) E")
    (auto simp: convert_pair_def key_converts_def converts_def wrap_failed_def split: conv_error.splits)

lemma convert_field_panics:
  "convert_field (\<lambda>F x. convertHostArg rt x F) m f = Inl (Panics p) \<longleftrightarrow>
     (\<exists>x. Option.bind (field_name f) m = Some x \<and> convertHostArg rt x (sfd_value f) = Inl (Panics p))"
  by (auto simp: convert_field_def bind_res_def wrap_failed_def split: option.splits sum.splits conv_error.splits)

lemma convert_field_converts:
  "(\<exists>r. convert_field (\<lambda>F x. convertHostArg rt x F) m f = Inr r) \<longleftrightarrow>
     (\<forall>x. Option.bind (field_name f) m = Some x \<longrightarrow> converts rt (sfd_value f) x)"
  by (cases "Option.bind (field_name f) m")
    (auto simp: convert_field_def converts_def bind_res_def wrap_failed_def split: sum.splits conv_error.splits)

section \<open>When the conversion panics\<close>

lemma raw_bytes_eq: "raw_bytes v = Some b \<longleftrightarrow> v = VBytes b"
  by (cases v) (simp_all add: raw_bytes_def)

lemma copy_bytes_panics: "(\<exists>m. copy_bytes rt T E b = Inl (Panics m)) \<longleftrightarrow> E \<noteq> TUint Uint8"
  by (simp add: copy_bytes_def)

lemma copy_panics_panics: "copy_panics rt v T \<Longrightarrow> \<exists>m. convertHostArg rt v T = Inl (Panics m)"
proof (induction rule: copy_panics.induct)
  case (bytes_slice b T E)
  then show ?case by (simp add: convert_slice raw_bytes_def copy_bytes_panics defined_byte_def)
next
  case (bytes_array b T E)
  then show ?case by (simp add: convert_array raw_bytes_def copy_bytes_panics defined_byte_def)
next
  case (pointer v T E)
  then show ?case by (auto simp: convert_pointer)
next
  case (slice v T E xs x ys)
  then obtain m where "convertHostArg rt x E = Inl (Panics m)" by blast
  with slice.hyps(4) have "convert_items (\<lambda>x. convertHostArg rt x E) (xs @ x # ys) = Inl (Panics m)"
    unfolding convert_items_panics by blast
  moreover have "raw_bytes v = None" using slice.hyps(3) by (cases v) (auto simp: raw_bytes_def sequenceValues_def)
  ultimately show ?case using slice.hyps(1-3) by (simp add: convert_slice)
next
  case (array v T xs x ys E)
  then obtain m where "convertHostArg rt x E = Inl (Panics m)" by blast
  with array.hyps(4) have "convert_items (\<lambda>x. convertHostArg rt x E) (xs @ x # ys) = Inl (Panics m)"
    unfolding convert_items_panics by blast
  moreover have "raw_bytes v = None" using array.hyps(3) by (cases v) (auto simp: raw_bytes_def sequenceValues_def)
  ultimately show ?case using array.hyps(1,3) by (simp add: convert_array [OF _ array.hyps(2)])
next
  case (map_key v T K E ps k x qs)
  then obtain m where m: "convertHostArg rt k K = Inl (Panics m)" by blast
  have "map_res (convert_pair rt (\<lambda>x. convertHostArg rt x K) (\<lambda>x. convertHostArg rt x E)) (ps @ (k, x) # qs) = Inl (Panics m)"
    unfolding map_res_stops convert_pair_converts
    using map_key.hyps(4) m by (intro exI [of _ ps] exI [of _ "(k, x)"] exI [of _ qs])
      (simp add: convert_pair_panics case_prod_beta' list_all_iff)
  with map_key.hyps(1-3) show ?case by (simp add: convert_map)
next
  case (map_value v T K E ps k x qs)
  then obtain m where m: "convertHostArg rt x E = Inl (Panics m)" by blast
  have "map_res (convert_pair rt (\<lambda>x. convertHostArg rt x K) (\<lambda>x. convertHostArg rt x E)) (ps @ (k, x) # qs) = Inl (Panics m)"
    unfolding map_res_stops convert_pair_converts
    using map_value.hyps(4,5) m by (intro exI [of _ ps] exI [of _ "(k, x)"] exI [of _ qs])
      (auto simp: convert_pair_panics case_prod_beta' list_all_iff key_converts_def)
  with map_value.hyps(1-3) show ?case by (simp add: convert_map)
next
  case (struct v T fs f gs kvs x)
  then obtain p where p: "convertHostArg rt x (sfd_value f) = Inl (Panics p)" by blast
  have "map_res (convert_field (\<lambda>F x. convertHostArg rt x F) (map_of kvs)) (fs @ f # gs) = Inl (Panics p)"
    unfolding map_res_stops convert_field_converts
    using struct.hyps(5,6) p by (intro exI [of _ fs] exI [of _ f] exI [of _ gs]) (simp add: convert_field_panics)
  with struct.hyps(1,3,4) show ?case by (simp add: convert_struct [OF _ struct.hyps(2)] DictMap_text)
qed

lemma direct_not_panics: "\<not> falls_through rt v T \<Longrightarrow> convertHostArg rt v T \<noteq> Inl (Panics m)"
  by (auto simp: falls_through_def convertHostArg.simps [of rt v T] split: if_splits option.splits)

lemma other_not_panics:
  assumes "falls_through rt v T" and "convertHostArg rt v T = Inl (Panics m)"
  obtains E where "underlying T = TPointer E" | E where "underlying T = TSlice E" | n E where "underlying T = TArray n E"
    | K E where "underlying T = TMap K E" | fs where "underlying T = TStruct fs"
  using assms
  by (cases "underlying T")
    (auto simp: falls_through_def convertHostArg.simps [of rt v T] assignable_def implements_def bind_res_def as_failed_def
      split: option.splits sum.splits if_splits)

lemma panics_copy_panics: "convertHostArg rt v T = Inl (Panics m) \<Longrightarrow> copy_panics rt v T"
proof (induction T arbitrary: v m rule: measure_induct_rule [of size])
  case (less T)
  note IH = less.IH [OF elem_smaller(1)] less.IH [OF elem_smaller(2)] less.IH [OF elem_smaller(3)]
    less.IH [OF elem_smaller(4)] less.IH [OF elem_smaller(5)] less.IH [OF elem_smaller(6)]
  have ft: "falls_through rt v T" using less.prems direct_not_panics by blast
  from ft less.prems show ?case
  proof (cases rule: other_not_panics)
    case (1 E)
    with less.prems have "convertHostArg rt v E = Inl (Panics m)"
      by (auto simp: convert_pointer [OF ft] bind_res_def split: sum.splits)
    then show ?thesis using IH(1) [OF 1] copy_panics.pointer [OF ft 1] by blast
  next
    case (2 E)
    from less.prems consider (bytes) b where "v = VBytes b" "defined_byte E"
      | (items) items where "sequenceValues v = Some items"
          "convert_items (\<lambda>x. convertHostArg rt x E) items = Inl (Panics m)"
      unfolding convert_slice [OF ft 2]
      by (auto simp: raw_bytes_eq copy_bytes_def defined_byte_def bind_res_def split: option.splits if_splits sum.splits)
    then show ?thesis
    proof cases
      case bytes
      with 2 ft show ?thesis by (auto intro: copy_panics.bytes_slice)
    next
      case items
      then show ?thesis unfolding convert_items_panics using copy_panics.slice [OF ft 2] IH(2) [OF 2] by blast
    qed
  next
    case (3 n E)
    from less.prems consider (bytes) b where "v = VBytes b" "defined_byte E" "length b = n"
      | (items) items where "sequenceValues v = Some items" "length items = n"
          "convert_items (\<lambda>x. convertHostArg rt x E) items = Inl (Panics m)"
      unfolding convert_array [OF ft 3]
      by (auto simp: raw_bytes_eq copy_bytes_def defined_byte_def bind_res_def split: option.splits if_splits sum.splits)
    then show ?thesis
    proof cases
      case bytes
      with 3 ft show ?thesis by (auto intro: copy_panics.bytes_array)
    next
      case items
      then show ?thesis unfolding convert_items_panics using copy_panics.array [OF ft] 3 IH(3) [OF 3] by blast
    qed
  next
    case (4 K E)
    let ?f = "convert_pair rt (\<lambda>x. convertHostArg rt x K) (\<lambda>x. convertHostArg rt x E)"
    from less.prems obtain d where d: "resultDict v = Some d" "map_res ?f d = Inl (Panics m)"
      by (auto simp: convert_map [OF ft 4] bind_res_def split: option.splits sum.splits)
    from d(2) obtain ps k x qs where p: "d = ps @ (k, x) # qs" "?f (k, x) = Inl (Panics m)"
      "list_all (\<lambda>(k, x). key_converts rt K k \<and> converts rt E x) ps"
      unfolding map_res_stops convert_pair_converts by (force simp: case_prod_beta')
    from p(2) consider "convertHostArg rt k K = Inl (Panics m)"
      | "key_converts rt K k" "convertHostArg rt x E = Inl (Panics m)"
      by (auto simp: convert_pair_panics key_converts_def)
    then show ?thesis
      using d(1) p(1,3) IH(4) [OF 4] IH(5) [OF 4] copy_panics.map_key [OF ft 4] copy_panics.map_value [OF ft 4]
      by cases blast+
  next
    case (5 fs)
    from less.prems obtain d n where d: "resultDict v = Some d" "DictMap rt d = Inr n"
      "map_res (convert_field (\<lambda>F x. convertHostArg rt x F) n) fs = Inl (Panics m)"
      by (auto simp: convert_struct [OF ft 5] bind_res_def as_failed_def split: option.splits sum.splits)
    from d(2) obtain kvs where kvs: "d = text_dict kvs" "distinct (map fst kvs)" "n = map_of kvs"
      unfolding DictMap_eq_Inr by blast
    from d(3) obtain gs f hs x where f: "fs = gs @ f # hs" "Option.bind (field_name f) n = Some x"
      "convertHostArg rt x (sfd_value f) = Inl (Panics m)"
      "list_all (\<lambda>f. \<forall>x. Option.bind (field_name f) n = Some x \<longrightarrow> converts rt (sfd_value f) x) gs"
      unfolding map_res_stops convert_field_converts convert_field_panics by blast
    have "copy_panics rt x (sfd_value f)" by (rule IH(6) [OF 5 _ f(3)]) (simp add: f(1))
    then show ?thesis
      using copy_panics.struct [OF ft 5 [unfolded f(1)]] d(1) kvs f(2,4) by blast
  qed
qed

text \<open>The conversion panics exactly on a defined byte type.\<close>

lemma convert_panics: "(\<exists>m. convertHostArg rt v T = Inl (Panics m)) \<longleftrightarrow> copy_panics rt v T"
  using copy_panics_panics panics_copy_panics by blast

lemma copy_panics_bytes: "defined_byte E \<Longrightarrow> copy_panics rt (VBytes b) (TSlice E)"
  by (rule copy_panics.bytes_slice)
    (auto simp: defined_byte_def falls_through_def assignable_def implements_def numericTo_def is_number_def isSigned_def
      isUnsigned_def isFloat_def safeDirectConversion_def)

text \<open>A type without a defined byte type inside is safe.\<close>

function byte_safe :: "go_type \<Rightarrow> bool" where
  "byte_safe (TNamed n T) = byte_safe T"
| "byte_safe (TPointer E) = byte_safe E"
| "byte_safe (TSlice E) = (\<not> defined_byte E \<and> byte_safe E)"
| "byte_safe (TArray n E) = (\<not> defined_byte E \<and> byte_safe E)"
| "byte_safe (TMap K E) = (byte_safe K \<and> byte_safe E)"
| "byte_safe (TStruct fs) = (\<forall>f \<in> set fs. byte_safe (sfd_value f))"
| "byte_safe TAny = True"
| "byte_safe (TInterface s) = True"
| "byte_safe (TFunc s) = True"
| "byte_safe TBool = True"
| "byte_safe (TInt k) = True"
| "byte_safe (TUint u) = True"
| "byte_safe TFloat32 = True"
| "byte_safe TFloat64 = True"
| "byte_safe TComplex64 = True"
| "byte_safe TComplex128 = True"
| "byte_safe TString = True"
| "byte_safe TBigInt = True"
| "byte_safe (TOther s) = True"
  by pat_completeness auto
termination
  by (relation "measure size") (auto simp: size_field)

lemma byte_safe_underlying: "byte_safe (underlying T) = byte_safe T"
  by (induction T rule: underlying.induct) simp_all

lemma copy_panics_unsafe: "copy_panics rt v T \<Longrightarrow> \<not> byte_safe (underlying T)"
  by (induction rule: copy_panics.induct) (simp_all add: byte_safe_underlying)

section \<open>When Decode panics\<close>

lemma Decode_panics:
  assumes "\<forall>E. underlying T = TPointer E \<longrightarrow> T = TPointer E" and "\<not> is_interface (type_of rt v)"
  shows "(\<exists>m. Decode_value rt v T = Panic m) \<longleftrightarrow>
    copy_panics rt v T \<or> v \<noteq> VNil \<and> \<not> is_interface T \<and> type_of rt v \<noteq> T \<and> underlying (type_of rt v) = underlying T
    \<and> \<not> (has_name (type_of rt v) \<and> has_name T)"
proof (cases "convertHostArg rt v T")
  case (Inl e)
  then have "v = VNil \<or> \<not> assignable rt (type_of rt v) T" by (auto simp: convert_assignable)
  then have no: "\<not> (v \<noteq> VNil \<and> \<not> is_interface T \<and> type_of rt v \<noteq> T \<and> underlying (type_of rt v) = underlying T
      \<and> \<not> (has_name (type_of rt v) \<and> has_name T))" by (auto simp: assignable_def)
  show ?thesis
    using Inl no convert_panics [of rt v T] by (cases e) (auto simp: Decode_value_def)
next
  case (Inr r)
  then have none: "\<not> copy_panics rt v T" using convert_panics [of rt v T] by auto
  obtain U d where r: "r = (U, d)" by (cases r)
  note conv = Inr [unfolded r]
  show ?thesis
  proof (cases "is_interface T")
    case True
    show ?thesis
    proof (cases "v = VNil")
      case True
      with conv none \<open>is_interface T\<close> show ?thesis by (auto simp: Decode_value_def convert_nil split: if_splits)
    next
      case False
      then have as: "assignable rt (type_of rt v) T" using convert_interface True conv by blast
      then have "implements rt (type_of rt v) T"
        using True assms(2) by (auto simp: assignable_def is_interface_def)
      moreover have "U = type_of rt v" using convert_type [OF conv assms(1)] as False by simp
      ultimately show ?thesis using conv True none by (simp add: Decode_value_def)
    qed
  next
    case False
    then have "\<not> implements rt (type_of rt v) T"
      by (simp add: implements_def is_interface_def split: go_type.splits)
    with False conv none convert_type [OF conv assms(1)] show ?thesis
      by (auto simp: Decode_value_def assignable_def)
  qed
qed

end
