(* ===== verification/Host_Call_Facts.thy ===== *)
theory Host_Call_Facts
  imports Host_Calls Host_Panics
begin

text \<open>
  When \<open>callHost\<close> calls the host function and with what, and what becomes of its panics.
\<close>

section \<open>The arguments\<close>

text \<open>The type of every argument when \<open>n\<close> of them are passed; \<open>None\<close> when \<open>n\<close> is not accepted.\<close>

fun argument_types :: "bool \<Rightarrow> go_type list \<Rightarrow> nat \<Rightarrow> go_type list option" where
  "argument_types variadic [] n = (if n = 0 then Some [] else None)"
| "argument_types variadic (P # Ps) n =
     (if variadic \<and> Ps = [] then Some (replicate n (element_type P))
      else case n of 0 \<Rightarrow> None | Suc m \<Rightarrow> map_option (Cons P) (argument_types variadic Ps m))"

definition converted_to :: "reflect \<Rightarrow> Value list \<Rightarrow> go_type list \<Rightarrow> (go_type \<times> go_data) list \<Rightarrow> bool" where
  "converted_to rt args Es rs \<longleftrightarrow> length Es = length args
     \<and> list_all2 (\<lambda>(v, E) r. convertHostArg rt v E = Inr r) (zip args Es) rs"

lemma converted_to_simps [simp]:
  "converted_to rt [] [] rs \<longleftrightarrow> rs = []"
  "converted_to rt (v # vs) (E # Es) rs \<longleftrightarrow>
     (\<exists>r rs'. rs = r # rs' \<and> convertHostArg rt v E = Inr r \<and> converted_to rt vs Es rs')"
  by (auto simp: converted_to_def list_all2_Cons1)

lemma convert_argument_eq_Inr: "convert_argument rt i v T = Inr x \<longleftrightarrow> (\<exists>r. convertHostArg rt v T = Inr r \<and> x = ValueArg r)"
  by (auto simp: convert_argument_def bind_res_eq_Inr wrap_failed_Inr)

lemma convert_rest:
  "map_res (\<lambda>(j, v). convert_argument rt j v E) (enumerate i args) = Inr xs \<longleftrightarrow>
     (\<exists>rs. converted_to rt args (replicate (length args) E) rs \<and> xs = map ValueArg rs)"
proof (induction args arbitrary: i xs)
  case (Cons v args)
  have "map_res (\<lambda>(j, v). convert_argument rt j v E) (enumerate i (v # args)) = Inr xs \<longleftrightarrow>
      (\<exists>r rs. convertHostArg rt v E = Inr r \<and> converted_to rt args (replicate (length args) E) rs
         \<and> xs = map ValueArg (r # rs))"
    by (simp add: bind_res_eq_Inr convert_argument_eq_Inr Cons.IH) blast
  then show ?case by (simp only: length_Cons replicate_Suc converted_to_simps) blast
qed auto

lemma argument_types_length: "argument_types variadic Ps n = Some Es \<Longrightarrow> length Es = n"
  by (induction Ps arbitrary: n Es) (auto split: if_splits nat.splits)

lemma convert_arguments_eq_Inr:
  "convert_arguments rt variadic want Ps i args = Inr (xs, i + length args) \<longleftrightarrow>
     (\<exists>Es rs. argument_types variadic Ps (length args) = Some Es \<and> converted_to rt args Es rs \<and> xs = map ValueArg rs)"
proof (induction Ps arbitrary: i args xs)
  case Nil
  then show ?case by (auto simp: converted_to_def)
next
  case (Cons P Ps)
  show ?case
  proof (cases "variadic \<and> Ps = []")
    case True
    then show ?thesis by (auto simp: bind_res_eq_Inr convert_rest)
  next
    case False
    note IH = Cons.IH [of "Suc i"]
    show ?thesis
    proof (cases args)
      case Nil
      with False show ?thesis by auto
    next
      case (Cons v vs)
      have "convert_arguments rt variadic want (P # Ps) i args = Inr (xs, i + length args) \<longleftrightarrow>
        (\<exists>r ys. convertHostArg rt v P = Inr r \<and> xs = ValueArg r # ys
           \<and> convert_arguments rt variadic want Ps (Suc i) vs = Inr (ys, Suc i + length vs))"
        using False Cons by (auto simp: bind_res_eq_Inr convert_argument_eq_Inr)
      also have "\<dots> \<longleftrightarrow> (\<exists>Es rs. argument_types variadic (P # Ps) (length args) = Some Es
          \<and> converted_to rt args Es rs \<and> xs = map ValueArg rs)"
        unfolding IH using False Cons by (fastforce simp: Cons_eq_map_conv)
      finally show ?thesis .
    qed
  qed
qed

lemma convert_arguments_count:
  "convert_arguments rt variadic want Ps i args = Inr (xs, n) \<Longrightarrow> n \<le> i + length args"
  by (induction Ps arbitrary: i args xs)
    (fastforce simp: bind_res_eq_Inr split: if_splits list.splits)+

text \<open>The arguments of the function, first to last: the context, the converted values, the keywords.\<close>

definition full_arguments :: "reflect \<Rightarrow> go_func \<Rightarrow> (go_type \<times> go_data) list \<Rightarrow> (string \<times> Value) list \<Rightarrow> host_arg list" where
  "full_arguments rt f rs kw = (if takes_context rt f then [ContextArg] else []) @ map ValueArg rs
     @ (if accepts_kwargs rt f then [KwargsArg kw] else [])"

definition accepted :: "reflect \<Rightarrow> go_func \<Rightarrow> Value list \<Rightarrow> (string \<times> Value) list \<Rightarrow> (go_type \<times> go_data) list \<Rightarrow> bool" where
  "accepted rt f args kw rs \<longleftrightarrow> (kw = [] \<or> accepts_kwargs rt f)
     \<and> (\<exists>Es. argument_types (gf_variadic f \<and> \<not> accepts_kwargs rt f) (positional_params rt f) (length args) = Some Es
          \<and> converted_to rt args Es rs)"

lemma call_arguments_eq_Inr:
  "call_arguments rt f args kw = Inr xs \<longleftrightarrow> (\<exists>rs. accepted rt f args kw rs \<and> xs = full_arguments rt f rs kw)"
proof -
  have "call_arguments rt f args kw = Inr xs \<longleftrightarrow>
    (\<exists>ys. convert_arguments rt (gf_variadic f \<and> \<not> accepts_kwargs rt f) (positional_end rt f)
            (positional_params rt f) 0 args = Inr (ys, 0 + length args)
       \<and> (kw = [] \<or> accepts_kwargs rt f)
       \<and> xs = (if takes_context rt f then [ContextArg] else []) @ ys
              @ (if accepts_kwargs rt f then [KwargsArg kw] else []))"
    by (auto simp: call_arguments_def bind_res_eq_Inr split: if_splits)
  then show ?thesis
    unfolding convert_arguments_eq_Inr by (auto simp: accepted_def full_arguments_def)
qed

section \<open>The call\<close>

lemma call_reflected_accepted:
  "accepted rt f args kw rs \<Longrightarrow>
   call_reflected rt f args kw = (case gf_call f (full_arguments rt f rs kw) of
       Inl p \<Rightarrow> Inl (host_panic rt p) | Inr values \<Rightarrow> call_results rt f values)"
  using call_arguments_eq_Inr [of rt f args kw "full_arguments rt f rs kw"]
  by (auto simp: call_reflected_def)

lemma call_reflected_refused:
  assumes "\<nexists>rs. accepted rt f args kw rs"
  shows "\<exists>e. \<forall>g. call_reflected rt (f\<lparr>gf_call := g\<rparr>) args kw = Inl e"
proof -
  have "takes_context rt (f\<lparr>gf_call := g\<rparr>) = takes_context rt f" for g by (simp add: takes_context_def)
  then have "rest_params rt (f\<lparr>gf_call := g\<rparr>) = rest_params rt f" for g by (simp add: rest_params_def)
  then have "accepts_kwargs rt (f\<lparr>gf_call := g\<rparr>) = accepts_kwargs rt f" for g by (simp add: accepts_kwargs_def)
  then have same: "call_arguments rt (f\<lparr>gf_call := g\<rparr>) args kw = call_arguments rt f args kw" for g
    using \<open>\<And>g. takes_context rt (f\<lparr>gf_call := g\<rparr>) = takes_context rt f\<close>
      \<open>\<And>g. rest_params rt (f\<lparr>gf_call := g\<rparr>) = rest_params rt f\<close>
    by (simp add: call_arguments_def positional_end_def positional_params_def cong: if_cong)
  from assms obtain e where "call_arguments rt f args kw = Inl e"
    by (cases "call_arguments rt f args kw") (auto simp: call_arguments_eq_Inr)
  then show ?thesis by (cases e) (simp_all add: call_reflected_def same)
qed

text \<open>Every value that is passed to the function has a type that its parameter takes.\<close>

lemma accepted_typed:
  assumes "converted_to rt args Es rs"
  shows "list_all2 (\<lambda>r E. assignable rt (fst r) E \<and> stored rt (fst r) (snd r)) rs Es"
  using assms
proof (induction args arbitrary: Es rs)
  case Nil
  then show ?case by (auto simp: converted_to_def)
next
  case (Cons v vs)
  then show ?case by (cases Es) (auto simp: converted_to_def [of _ _ "[]"] dest: convert_stored)
qed

section \<open>Examples\<close>

text \<open>\<open>func(n int64) int64 { return n + 1 }\<close>, and a function of a context and one number.\<close>

definition add_one :: go_func where
  "add_one = \<lparr>gf_in = [TInt Int64], gf_variadic = False, gf_out = [TInt Int64],
     gf_call = (\<lambda>xs. case xs of [ValueArg (T, DHost (VInt64 w))] \<Rightarrow> Inr [GoOut (VInt64 (w + 1)) (Inr None)] | _ \<Rightarrow> Inr [])\<rparr>"

definition with_context :: go_func where
  "with_context = \<lparr>gf_in = [TInterface ''context.Context'', TInt Int64], gf_variadic = False, gf_out = [],
     gf_call = (\<lambda>xs. Inr [])\<rparr>"

text \<open>
  A panic in the conversion of an argument: the function is not called, and the deferred recovery
  of \<open>callHost\<close> makes an error of the panic.
\<close>

lemma call_reflected_copy_panics:
  assumes "rest_params rt f = [T]" and "\<not> accepts_kwargs rt f" and "\<not> gf_variadic f" and "copy_panics rt v T"
  shows "\<exists>p. call_reflected rt f [v] kw = Inl (host_panic rt p)"
proof -
  from assms(4) obtain p where "convertHostArg rt v T = Inl (Panics p)" using convert_panics [of rt v T] by blast
  then have "call_arguments rt f [v] kw = Inl (Panics p)"
    using assms(1-3) by (simp add: call_arguments_def positional_params_def convert_argument_def)
  then have "call_reflected rt f [v] kw = Inl (host_panic rt p)" by (simp add: call_reflected_def)
  then show ?thesis by blast
qed

text \<open>The messages for too few and for too many arguments differ on what the function expects.\<close>

lemma wrong_counts:
  "call_arguments no_reflect with_context [] [] = failed (wrong_count 2 0)"
  "call_arguments no_reflect with_context [VInt64 1, VInt64 2] [] = failed (wrong_count 1 2)"
  by (simp_all add: call_arguments_def with_context_def accepts_kwargs_def positional_params_def positional_end_def
      rest_params_def takes_context_def implements_named_def convert_argument_def convert_assignable numeral_2_eq_2)

end
