(* ===== verification/Host_Roundtrip.thy ===== *)
theory Host_Roundtrip
  imports Host_Facts Value_Roundtrip
begin

text \<open>
  Go data that is passed to Monty and comes back unchanged.  \<open>native h T d hv\<close>: the Go value of
  type \<open>T\<close> with data \<open>d\<close> is seen by the encoder as \<open>hv\<close>.  The lemma of this theory is that the
  conversion to \<open>T\<close> of what \<open>hv\<close> denotes in Python gives \<open>d\<close> again.

  Left out are the types that lose information on the way: elements of interface type, pointers
  to pointers, slice types to which a \<open>List\<close> or a \<open>[]byte\<close> can be assigned as it is, and the
  defined types the encoder treats apart from their kind (\<open>special_types\<close>, and every type with
  a \<open>MarshalText\<close>): a \<open>time.Duration\<close> becomes a timedelta.  Arrays are those of \<open>uint8\<close> itself or of
  elements that are no bytes; on an array of a defined byte type the encoder panics.
\<close>

text \<open>The cases of the type switch in \<open>encode\<close>, without the pointers and \<open>big.Int\<close>.\<close>

definition special_types :: "string list" where
  "special_types =
     [''monty.Ellipsis'', ''monty.NotImplemented'', ''monty.Tuple'', ''monty.List'', ''monty.Set'', ''monty.FrozenSet'',
      ''monty.Dict'', ''monty.NamedTuple'', ''monty.Date'', ''monty.Time'', ''monty.ClassType'', ''monty.ClassInstance'',
      ''monty.DateTime'', ''monty.TimeDelta'', ''monty.TimeZone'', ''monty.Exception'', ''monty.Type'',
      ''monty.BuiltinFunction'', ''monty.Path'', ''monty.FileHandle'', ''monty.Dataclass'', ''monty.Function'',
      ''monty.ExternalModule'', ''monty.Module'', ''monty.InstanceType'', ''time.Time'', ''time.Duration'']"

definition marshals_text :: "reflect \<Rightarrow> go_type \<Rightarrow> bool" where
  "marshals_text rt T = r_implements rt T ''encoding.TextMarshaler''"

text \<open>The encoder goes by the kind of the type.\<close>

definition by_kind :: "reflect \<Rightarrow> go_type \<Rightarrow> bool" where
  "by_kind rt T \<longleftrightarrow> \<not> marshals_text rt T \<and> (case T of TNamed n U \<Rightarrow> n \<notin> set special_types | _ \<Rightarrow> True)"

definition with_value :: "go_type struct_field \<Rightarrow> Value \<Rightarrow> Value struct_field" where
  "with_value f v = StructField (sfd_exported f) (sfd_monty f) (sfd_json f) (sfd_name f) v"

lemma field_name_with_value [simp]: "field_name (with_value f v) = field_name f"
  and sfd_value_with_value [simp]: "sfd_value (with_value f v) = v"
  by (simp_all add: with_value_def field_name_def Let_def)

definition field_names :: "go_type struct_field list \<Rightarrow> string list" where
  "field_names fs = List.map_filter field_name fs"

inductive native :: "reflect \<Rightarrow> heap \<Rightarrow> go_type \<Rightarrow> go_data \<Rightarrow> Value \<Rightarrow> bool" for rt h where
  bool: "by_kind rt T \<Longrightarrow> underlying T = TBool \<Longrightarrow> native rt h T (DHost (VBool b)) (VBool b)"
| string: "by_kind rt T \<Longrightarrow> underlying T = TString \<Longrightarrow> native rt h T (DHost (VString s)) (VString s)"
| int64: "native rt h (TInt Int64) (DHost (VInt64 w)) (VInt64 w)"
| int: "by_kind rt T \<Longrightarrow> underlying T = TInt k \<Longrightarrow> T \<noteq> TInt Int64 \<Longrightarrow> \<not> overflow_int k w \<Longrightarrow>
    native rt h T (DInt w) (HInt k w)"
| uint: "by_kind rt T \<Longrightarrow> underlying T = TUint k \<Longrightarrow> \<not> overflow_uint k w \<Longrightarrow> native rt h T (DUint w) (HUint k w)"
| float64: "native rt h TFloat64 (DHost (VFloat64 w)) (VFloat64 w)"
| named_float64: "by_kind rt T \<Longrightarrow> underlying T = TFloat64 \<Longrightarrow> T \<noteq> TFloat64 \<Longrightarrow> native rt h T (DFloat w) (VFloat64 w)"
| float32: "by_kind rt T \<Longrightarrow> underlying T = TFloat32 \<Longrightarrow> round_float32 w = w \<Longrightarrow> \<not> overflow_float32 w \<Longrightarrow>
    native rt h T (DFloat w) (HFloat32 w)"
| complex128: "native rt h TComplex128 (DHost (VComplex128 re im)) (VComplex128 re im)"
| complex64: "by_kind rt T \<Longrightarrow> underlying T = TComplex64 \<Longrightarrow> round_float32 re = re \<Longrightarrow> round_float32 im = im \<Longrightarrow>
    \<not> overflow_float32 re \<Longrightarrow> \<not> overflow_float32 im \<Longrightarrow> native rt h T (DComplex re im) (HComplex64 re im)"
| big: "native rt h TBigInt (DBigInt z) (HBigInt z)"
| big_pointer: "native rt h (TPointer TBigInt) (DHost (VBigInt z)) (VBigInt z)"
| bytes: "native rt h bytesT (DHost (VBytes b)) (VBytes b)"
| byte_array: "by_kind rt T \<Longrightarrow> underlying T = TArray n (TUint Uint8) \<Longrightarrow> length b = n \<Longrightarrow>
    native rt h T (DBytes b) (HByteArray b)"
| nil_pointer: "native rt h (TPointer E) DNil HNilPtr"
| pointer: "by_kind rt (TPointer E) \<Longrightarrow> map_of h a = Some (CPointer ty hv) \<Longrightarrow> (\<And>t. hv \<noteq> HTime t) \<Longrightarrow> E \<noteq> TBigInt \<Longrightarrow>
    (\<And>F. E \<noteq> TPointer F) \<Longrightarrow> native rt h E d hv \<Longrightarrow> native rt h (TPointer E) (DPointer (E, d)) (HRef a)"
| shared: "map_of h a = Some (CContainer ty hv) \<Longrightarrow> underlying T = TSlice E \<or> underlying T = TMap K E \<Longrightarrow>
    native rt h T d hv \<Longrightarrow> native rt h T d (HRef a)"
| slice: "by_kind rt T \<Longrightarrow> underlying T = TSlice E \<Longrightarrow> underlying E \<noteq> TUint Uint8 \<Longrightarrow> E \<noteq> TAny \<Longrightarrow>
    list_all2 (native rt h E) ds hvs \<Longrightarrow> native rt h T (DSlice (map (Pair E) ds)) (HSlice hvs)"
| array: "by_kind rt T \<Longrightarrow> underlying T = TArray n E \<Longrightarrow> underlying E \<noteq> TUint Uint8 \<Longrightarrow> length ds = n \<Longrightarrow>
    list_all2 (native rt h E) ds hvs \<Longrightarrow> native rt h T (DArray (map (Pair E) ds)) (HArray hvs)"
| map: "by_kind rt T \<Longrightarrow> underlying T = TMap K E \<Longrightarrow> by_kind rt K \<Longrightarrow> underlying K = TString \<Longrightarrow> sorted ks \<Longrightarrow>
    distinct ks \<Longrightarrow> length ks = length ds \<Longrightarrow> list_all2 (native rt h E) ds hvs \<Longrightarrow>
    native rt h T (DMap (map (\<lambda>(k, d). ((K, DHost (VString k)), (E, d))) (zip ks ds))) (HMap True (text_dict (zip ks hvs)))"
| struct: "by_kind rt T \<Longrightarrow> underlying T = TStruct fs \<Longrightarrow> distinct (field_names fs) \<Longrightarrow> length xs = length fs \<Longrightarrow>
    list_all2 (\<lambda>f p. (field_name f = None \<and> fst p = None)
       \<or> (field_name f \<noteq> None \<and> (\<exists>d. fst p = Some d \<and> native rt h (sfd_value f) d (snd p)))) fs xs \<Longrightarrow>
    native rt h T (DStruct (map2 (\<lambda>f p. map_option (Pair (sfd_value f)) (fst p)) fs xs))
      (HStruct (map2 (\<lambda>f p. with_value f (snd p)) fs xs))"

section \<open>Single conversions\<close>

lemma unnamed_underlying: "\<not> has_name T \<Longrightarrow> underlying T = T"
  by (cases T) simp_all

lemma convert_text:
  "underlying T = TString \<Longrightarrow> convertHostArg rt (VString s) T = Inr (T, DHost (VString s))"
  by (auto dest: unnamed_underlying simp: convertHostArg.simps [of rt "VString s" T] assignable_def implements_def numericTo_def
      is_number_def isSigned_def isUnsigned_def isFloat_def safeDirectConversion_def)

lemma convert_bool:
  "underlying T = TBool \<Longrightarrow> convertHostArg rt (VBool b) T = Inr (T, DHost (VBool b))"
  by (auto dest: unnamed_underlying simp: convertHostArg.simps [of rt "VBool b" T] assignable_def implements_def numericTo_def
      is_number_def isSigned_def isUnsigned_def isFloat_def safeDirectConversion_def)

lemma not_assignable_number:
  "underlying T = TInt k \<Longrightarrow> T \<noteq> TInt Int64 \<Longrightarrow> \<not> assignable rt (TInt Int64) T"
  "underlying T = TUint u \<Longrightarrow> \<not> assignable rt (TInt Int64) T"
  "underlying T = TInt k \<Longrightarrow> \<not> assignable rt (TPointer TBigInt) T"
  "underlying T = TUint u \<Longrightarrow> \<not> assignable rt (TPointer TBigInt) T"
  "underlying T = TFloat32 \<Longrightarrow> \<not> assignable rt TFloat64 T"
  "underlying T = TFloat64 \<Longrightarrow> T \<noteq> TFloat64 \<Longrightarrow> \<not> assignable rt TFloat64 T"
  "underlying T = TComplex64 \<Longrightarrow> \<not> assignable rt TComplex128 T"
  by (cases T; auto simp: assignable_def implements_def)+

lemma convert_signed:
  assumes "underlying T = TInt k" and "T \<noteq> TInt Int64" and "\<not> overflow_int k w"
  shows "convertHostArg rt (VInt64 w) T = Inr (T, DInt w)"
  using assms
  by (intro convert_numeric) (auto simp: not_assignable_number numericTo_def integerTo_signed overflow_int_iff)

lemma convert_unsigned:
  assumes "underlying T = TUint k" and "\<not> overflow_uint k w"
  shows "convertHostArg rt (if w \<le> 2 ^ 63 - 1 then VInt64 w else VBigInt (uint w)) T = Inr (T, DUint w)"
proof (rule convert_numeric)
  let ?v = "if w \<le> 2 ^ 63 - 1 then VInt64 w else VBigInt (uint w)"
  have "sint w = uint w" if "w \<le> 2 ^ 63 - 1"
    using that by (simp add: sint_uint word_le_def signed_take_bit_int_eq_self order.trans [OF _ uint_ge_0])
  then have "integer_of ?v = Some (uint w)" by (simp add: integer_of_def)
  then show "numericTo ?v T = Some (DUint w)"
    using assms by (simp add: numericTo_integer integerTo_unsigned overflow_uint_iff)
qed (use assms in \<open>auto simp: not_assignable_number\<close>)


lemma convert_float64:
  "underlying T = TFloat64 \<Longrightarrow> T \<noteq> TFloat64 \<Longrightarrow> convertHostArg rt (VFloat64 w) T = Inr (T, DFloat w)"
  by (intro convert_numeric) (auto simp: not_assignable_number numericTo_def floatTo_def set_float_def)

lemma convert_float32:
  "underlying T = TFloat32 \<Longrightarrow> round_float32 w = w \<Longrightarrow> \<not> overflow_float32 w \<Longrightarrow>
   convertHostArg rt (VFloat64 w) T = Inr (T, DFloat w)"
  by (intro convert_numeric) (auto simp: not_assignable_number numericTo_def floatTo_def set_float_def)

lemma convert_complex64:
  "underlying T = TComplex64 \<Longrightarrow> round_float32 re = re \<Longrightarrow> round_float32 im = im \<Longrightarrow>
   \<not> overflow_float32 re \<Longrightarrow> \<not> overflow_float32 im \<Longrightarrow> convertHostArg rt (VComplex128 re im) T = Inr (T, DComplex re im)"
  by (intro convert_numeric) (auto simp: not_assignable_number numericTo_def complexTo_def)

lemma convert_big: "convertHostArg rt (VBigInt z) TBigInt = Inr (TBigInt, DBigInt z)"
  by (rule convert_numeric) (simp_all add: numericTo_def integerTo_def assignable_def implements_def)

lemma convert_byte_array:
  assumes "underlying T = TArray n (TUint Uint8)" and "length b = n"
  shows "convertHostArg rt (VBytes b) T = Inr (T, DBytes b)"
proof -
  have "falls_through rt (VBytes b) T"
    using assms(1) by (auto simp: falls_through_def assignable_def implements_def numericTo_def is_number_def
      isSigned_def isUnsigned_def isFloat_def safeDirectConversion_def)
  from convert_array [OF this assms(1)] show ?thesis using assms by (simp add: raw_bytes_def copy_bytes_def)
qed

lemma pointer_falls_through:
  "w \<noteq> VNil \<Longrightarrow> \<not> host_only w \<Longrightarrow> E \<noteq> TBigInt \<Longrightarrow> falls_through rt w (TPointer E)"
  by (cases w) (auto simp: falls_through_def assignable_def implements_def numericTo_def integerTo_def complexTo_def
      floatTo_def is_number_def isSigned_def isUnsigned_def isFloat_def safeDirectConversion_def)

lemma list_falls_through:
  "underlying T = TSlice E \<and> E \<noteq> TAny \<or> underlying T = TArray n E \<Longrightarrow> falls_through rt (VList ws) T"
  by (auto simp: falls_through_def assignable_def implements_def numericTo_def is_number_def isSigned_def
      isUnsigned_def isFloat_def safeDirectConversion_def)

section \<open>Containers\<close>

lemma convert_items_all2:
  "list_all2 (\<lambda>w d. conv w = Inr (f d)) ws ds \<Longrightarrow> convert_items conv ws = Inr (map f ds)"
  using list_all2_enumerate [of "\<lambda>w d. conv w = Inr (f d)" 0 ws ds]
  by (simp add: convert_items_def map_res_eq_Inr wrap_failed_Inr list_all2_map2 case_prod_beta)

lemma convert_items_native:
  assumes "list_all2 (\<lambda>d hv. \<forall>w. denotes h hv w \<longrightarrow> conv w = Inr (E, d)) ds hvs" and "list_all2 (denotes h) hvs ws"
  shows "convert_items conv ws = Inr (map (Pair E) ds)"
proof (rule convert_items_all2)
  have "list_all2 (\<lambda>d w. conv w = Inr (E, d)) ds ws"
    by (rule list_all2_trans [OF _ assms]) blast
  then show "list_all2 (\<lambda>w d. conv w = Inr (E, d)) ws ds"
    by (simp add: list_all2_conv_all_nth)
qed

lemma denotes_text_dict:
  assumes "denotes h (VDict (text_dict kvs)) w"
  shows "\<exists>kws. w = VDict (text_dict kws) \<and> list_all2 (\<lambda>p q. fst p = fst q \<and> denotes h (snd p) (snd q)) kvs kws"
proof -
  obtain e where e: "w = VDict e"
    "list_all2 (\<lambda>p q. denotes h (fst p) (fst q) \<and> denotes h (snd p) (snd q)) (text_dict kvs) e"
    using assms by (rule denotes_dictE) simp_all
  have "\<exists>kws. e = text_dict kws \<and> list_all2 (\<lambda>p q. fst p = fst q \<and> denotes h (snd p) (snd q)) kvs kws"
    using e(2)
  proof (induction kvs arbitrary: e)
    case (Cons p kvs)
    from Cons.prems obtain q e' where q: "e = q # e'" "denotes h (VString (fst p)) (fst q)" "denotes h (snd p) (snd q)"
      and e': "list_all2 (\<lambda>p q. denotes h (fst p) (fst q) \<and> denotes h (snd p) (snd q)) (text_dict kvs) e'"
      by (cases p) (auto simp: list_all2_Cons1)
    have "q = (VString (fst p), snd q)" using leaf_denotes [OF q(2), of "VString (fst p)"] by (simp add: prod_eq_iff)
    moreover from Cons.IH [OF e'] obtain kws where "e' = text_dict kws"
      "list_all2 (\<lambda>p q. fst p = fst q \<and> denotes h (snd p) (snd q)) kvs kws" by blast
    ultimately show ?case using q by (intro exI [of _ "(fst p, snd q) # kws"]) auto
  qed simp
  with e(1) show ?thesis by blast
qed

section \<open>The round trip\<close>

text \<open>What the conversion of a denoted value gives, and when that value is None.\<close>

definition comes_back :: "reflect \<Rightarrow> go_type \<Rightarrow> go_data \<Rightarrow> Value \<Rightarrow> bool" where
  "comes_back rt T d w \<longleftrightarrow> convertHostArg rt w T = Inr (T, d)
     \<and> (if w = VNil then \<exists>E. T = TPointer E else \<not> host_only w)"

lemma leaf_comes_back:
  assumes "denotes h hv w" and "leaf_value hv = Some x" and "comes_back rt T d x"
  shows "comes_back rt T d w"
  using leaf_denotes [OF assms(1,2)] assms(3) by simp

lemma native_slice:
  assumes "underlying T = TSlice E" and "E \<noteq> TAny"
    and "list_all2 (\<lambda>d hv. \<forall>w. denotes h hv w \<longrightarrow> comes_back rt E d w) ds hvs" and "denotes h (HSlice hvs) w"
  shows "comes_back rt T (DSlice (map (Pair E) ds)) w"
proof -
  from assms(4) obtain ws where w: "w = VList ws" "list_all2 (denotes h) hvs ws"
    by (rule denotes_sliceE) simp_all
  have "list_all2 (\<lambda>d hv. \<forall>w. denotes h hv w \<longrightarrow> convertHostArg rt w E = Inr (E, d)) ds hvs"
    using assms(3) by (rule list_all2_mono) (simp add: comes_back_def)
  from convert_items_native [OF this w(2)] show ?thesis
    using assms(1,2) w(1)
    by (simp add: comes_back_def convert_slice [OF list_falls_through] raw_bytes_def sequenceValues_def)
qed

lemma native_array:
  assumes "underlying T = TArray n E" and "length ds = n"
    and "list_all2 (\<lambda>d hv. \<forall>w. denotes h hv w \<longrightarrow> comes_back rt E d w) ds hvs" and "denotes h (HArray hvs) w"
  shows "comes_back rt T (DArray (map (Pair E) ds)) w"
proof -
  from assms(4) obtain ws where w: "w = VList ws" "list_all2 (denotes h) hvs ws"
    by (rule denotes_arrayE) simp_all
  have "list_all2 (\<lambda>d hv. \<forall>w. denotes h hv w \<longrightarrow> convertHostArg rt w E = Inr (E, d)) ds hvs"
    using assms(3) by (rule list_all2_mono) (simp add: comes_back_def)
  from convert_items_native [OF this w(2)] show ?thesis
    using assms(1,2) w list_all2_lengthD [OF assms(3)] list_all2_lengthD [OF w(2)]
    by (simp add: comes_back_def convert_array [OF list_falls_through] raw_bytes_def sequenceValues_def)
qed

lemma convert_pair_native:
  assumes "underlying K = TString" and "convertHostArg rt w E = Inr (E, d)"
  shows "convert_pair rt (\<lambda>x. convertHostArg rt x K) (\<lambda>x. convertHostArg rt x E) (VString k, w)
    = Inr ((K, DHost (VString k)), (E, d))"
  using assms by (simp add: convert_pair_def convert_text)

lemma sorted_entries: "sorted ks \<Longrightarrow> map_entries True (text_dict (zip ks hvs)) = text_dict (zip ks hvs)"
proof -
  have "map (\<lambda>p. string_key p) (text_dict (zip ks hvs)) = take (length hvs) ks"
    by (induction ks hvs rule: list_induct2') (simp_all add: string_key_def)
  then show "sorted ks \<Longrightarrow> map_entries True (text_dict (zip ks hvs)) = text_dict (zip ks hvs)"
    by (simp add: map_entries_def sort_key_id_if_sorted sorted_wrt_take)
qed

lemma native_map:
  assumes "underlying T = TMap K E" and "underlying K = TString" and "sorted ks" and "length ks = length ds"
    and "list_all2 (\<lambda>d hv. \<forall>w. denotes h hv w \<longrightarrow> comes_back rt E d w) ds hvs"
    and "denotes h (HMap True (text_dict (zip ks hvs))) w"
  shows "comes_back rt T (DMap (map (\<lambda>(k, d). ((K, DHost (VString k)), (E, d))) (zip ks ds))) w"
proof -
  from assms(6) have "denotes h (VDict (map_entries True (text_dict (zip ks hvs)))) w"
    by (rule denotes_mapE) simp_all
  from denotes_text_dict [OF this [unfolded sorted_entries [OF assms(3)]]] obtain kws
    where w: "w = VDict (text_dict kws)"
      "list_all2 (\<lambda>p q. fst p = fst q \<and> denotes h (snd p) (snd q)) (zip ks hvs) kws" by blast
  have "list_all2 (\<lambda>p r. convert_pair rt (\<lambda>x. convertHostArg rt x K) (\<lambda>x. convertHostArg rt x E) (VString (fst p), snd p)
      = Inr r) kws (map (\<lambda>(k, d). ((K, DHost (VString k)), (E, d))) (zip ks ds))"
  proof (rule list_all2_all_nthI)
    show len: "length kws = length (map (\<lambda>(k, d). ((K, DHost (VString k)), (E, d))) (zip ks ds))"
      using list_all2_lengthD [OF w(2)] list_all2_lengthD [OF assms(5)] by simp
    fix i
    assume "i < length kws"
    with len assms(4,5) list_all2_lengthD [OF assms(5)] list_all2_nthD2 [OF w(2)]
    have "fst (kws ! i) = ks ! i" "denotes h (hvs ! i) (snd (kws ! i))" "i < length ds" by auto
    with list_all2_nthD [OF assms(5), of i] assms(4)
    show "convert_pair rt (\<lambda>x. convertHostArg rt x K) (\<lambda>x. convertHostArg rt x E) (VString (fst (kws ! i)), snd (kws ! i))
      = Inr (map (\<lambda>(k, d). ((K, DHost (VString k)), (E, d))) (zip ks ds) ! i)"
      by (simp add: convert_pair_native assms(2) comes_back_def)
  qed
  then have "map_res (convert_pair rt (\<lambda>x. convertHostArg rt x K) (\<lambda>x. convertHostArg rt x E)) (text_dict kws)
      = Inr (map (\<lambda>(k, d). ((K, DHost (VString k)), (E, d))) (zip ks ds))"
    by (simp add: map_res_eq_Inr list_all2_map1 case_prod_beta)
  with assms(1) w(1) show ?thesis
    by (simp add: comes_back_def convert_map [OF dict_falls_through] resultDict_def)
qed

text \<open>The dictionary of a struct: the names of its encoded fields with their values, in order.\<close>

definition struct_kvs :: "go_type struct_field list \<Rightarrow> ('d \<times> Value) list \<Rightarrow> (string \<times> Value) list" where
  "struct_kvs fs xs = List.map_filter (\<lambda>(f, p). map_option (\<lambda>n. (n, snd p)) (field_name f)) (zip fs xs)"

lemma struct_entries:
  "length xs = length fs \<Longrightarrow>
   List.map_filter struct_entry (map2 (\<lambda>f p. with_value f (snd p)) fs xs) = text_dict (struct_kvs fs xs)"
  by (induction xs fs rule: list_induct2)
    (auto simp: struct_kvs_def map_filter_simps struct_entry_def split: option.split)

lemma struct_kvs_names: "length xs = length fs \<Longrightarrow> map fst (struct_kvs fs xs) = field_names fs"
  by (induction xs fs rule: list_induct2)
    (auto simp: struct_kvs_def field_names_def map_filter_simps split: option.split)

lemma struct_kvs_mem:
  "(f, p) \<in> set (zip fs xs) \<Longrightarrow> field_name f = Some n \<Longrightarrow> (n, snd p) \<in> set (struct_kvs fs xs)"
  by (induction fs xs rule: list_induct2')
    (auto simp: struct_kvs_def map_filter_simps split: option.split)

lemma all2_mem: "list_all2 P xs ys \<Longrightarrow> x \<in> set xs \<Longrightarrow> \<exists>y \<in> set ys. P x y"
  by (induction rule: list_all2_induct) auto

lemma all2_same_keys: "list_all2 (\<lambda>p q. fst p = fst q \<and> P p q) xs ys \<Longrightarrow> map fst ys = map fst xs"
  by (induction rule: list_all2_induct) auto

lemma native_struct:
  assumes "underlying T = TStruct fs" and "distinct (field_names fs)" and "length xs = length fs"
    and "list_all2 (\<lambda>f p. (field_name f = None \<and> fst p = None)
       \<or> (field_name f \<noteq> None \<and> (\<exists>d. fst p = Some d \<and>
            (\<forall>w. denotes h (snd p) w \<longrightarrow> comes_back rt (sfd_value f) d w)))) fs xs"
    and "denotes h (HStruct (map2 (\<lambda>f p. with_value f (snd p)) fs xs)) w"
  shows "comes_back rt T (DStruct (map2 (\<lambda>f p. map_option (Pair (sfd_value f)) (fst p)) fs xs)) w"
proof -
  from assms(5) have "denotes h (VDict (List.map_filter struct_entry (map2 (\<lambda>f p. with_value f (snd p)) fs xs))) w"
    by (rule denotes_structE) simp_all
  from denotes_text_dict [OF this [unfolded struct_entries [OF assms(3)]]] obtain kws
    where w: "w = VDict (text_dict kws)"
      "list_all2 (\<lambda>p q. fst p = fst q \<and> denotes h (snd p) (snd q)) (struct_kvs fs xs) kws" by blast
  have keys: "distinct (map fst kws)"
    using all2_same_keys [OF w(2)] struct_kvs_names [OF assms(3)] assms(2) by simp
  have field: "convert_field (\<lambda>F x. convertHostArg rt x F) (map_of kws) f = Inr (map_option (Pair (sfd_value f)) (fst p))"
    if fp: "(f, p) \<in> set (zip fs xs)" for f p
  proof (cases "field_name f")
    case None
    with assms(4) fp show ?thesis by (auto simp: convert_field_def list_all2_iff)
  next
    case (Some n)
    with assms(4) fp obtain d where d: "fst p = Some d" "\<forall>w. denotes h (snd p) w \<longrightarrow> comes_back rt (sfd_value f) d w"
      by (auto simp: list_all2_iff)
    from all2_mem [OF w(2) struct_kvs_mem [OF fp Some]] obtain x where "(n, x) \<in> set kws" "denotes h (snd p) x" by auto
    with keys d Some show ?thesis by (auto simp: convert_field_def comes_back_def)
  qed
  have "map_res (convert_field (\<lambda>F x. convertHostArg rt x F) (map_of kws)) fs
      = Inr (map2 (\<lambda>f p. map_option (Pair (sfd_value f)) (fst p)) fs xs)"
    unfolding map_res_eq_Inr list_all2_conv_all_nth
    using assms(3) by (auto intro!: field simp: set_zip)
  then show ?thesis
    using assms(1) w(1) by (simp add: comes_back_def struct_of_dict [OF _ keys])
qed

lemma native_comes_back: "native rt h T d hv \<Longrightarrow> denotes h hv w \<Longrightarrow> comes_back rt T d w"
proof (induction arbitrary: w rule: native.induct)
  case (uint T k u)
  then have "w = (if u \<le> 2 ^ 63 - 1 then VInt64 u else VBigInt (uint u))"
    by (intro leaf_denotes [OF uint.prems]) simp
  with uint.hyps show ?case using convert_unsigned [of T k u rt] by (auto simp: comes_back_def)
next
  case (nil_pointer E)
  then have "w = VNil" by (intro leaf_denotes [OF nil_pointer.prems]) simp
  then show ?case by (simp add: comes_back_def convert_nil nilable_def)
next
  case (pointer E a ty hv d)
  from pointer.prems have "denotes h hv w" by (rule denotes_refE) (use pointer.hyps(2,3) in auto)
  with pointer.IH have ret: "comes_back rt E d w" by blast
  with pointer.hyps(5) have "w \<noteq> VNil" "\<not> host_only w" by (auto simp: comes_back_def split: if_splits)
  with ret show ?case
    by (simp add: comes_back_def convert_pointer [OF pointer_falls_through [OF _ _ pointer.hyps(4)]])
next
  case (shared a ty hv T E K d)
  from shared.prems have "denotes h hv w" by (rule denotes_refE) (use shared.hyps(1) in auto)
  with shared.IH show ?case by blast
next
  case (slice T E ds hvs)
  show ?case by (rule native_slice [OF slice.hyps(2,4) _ slice.prems]) (use slice.IH in \<open>auto elim: list_all2_mono\<close>)
next
  case (array T n E ds hvs)
  show ?case by (rule native_array [OF array.hyps(2,4) _ array.prems]) (use array.IH in \<open>auto elim: list_all2_mono\<close>)
next
  case (map T K E ks ds hvs)
  show ?case
    by (rule native_map [OF map.hyps(2,4,5,7) _ map.prems]) (use map.IH in \<open>auto elim: list_all2_mono\<close>)
next
  case (struct T fs xs)
  show ?case
    by (rule native_struct [OF struct.hyps(2-4) _ struct.prems]) (use struct.IH in \<open>fastforce elim!: list_all2_mono\<close>)
qed (erule leaf_comes_back, simp,
  simp add: comes_back_def convert_text convert_bool convert_signed convert_float64 convert_float32
    convert_complex64 convert_big convert_byte_array convert_assignable)+

lemma native_not_interface: "native rt h T d hv \<Longrightarrow> \<not> is_interface T"
  by (induction rule: native.induct) (simp_all add: is_interface_def)

end
