(* ===== verification/OS_Files.thy ===== *)
theory OS_Files
  imports Raise "HOL-Library.Sublist"
begin

text \<open>
  The operating system as \<open>installer.go\<close> and \<open>findBinary\<close> use it: files by absolute path,
  system calls that can fail at any time, Unix path names, and what the code reads of the
  platform, the network and the archive readers.
\<close>

section \<open>Errors\<close>

datatype os_error = NotExist | Exist | Permission | OtherError string

fun errno :: "os_error \<Rightarrow> go_error" where
  "errno NotExist = Errorf ''no such file or directory'' []"
| "errno Exist = Errorf ''file exists'' []"
| "errno Permission = Errorf ''permission denied'' []"
| "errno (OtherError s) = Errorf ''%s'' [AStr s]"

text \<open>An \<open>*fs.PathError\<close>, and \<open>errors.Is\<close> on a wrapped one.\<close>

definition path_error :: "string \<Rightarrow> string \<Rightarrow> os_error \<Rightarrow> go_error" where
  "path_error oper path e = Errorf ''%s %s: %w'' [AStr oper, AStr path, AErr (errno e)]"

definition errors_is :: "go_error \<Rightarrow> os_error \<Rightarrow> bool" where
  "errors_is e target \<longleftrightarrow> errno target \<in> set (error_chain e)"

section \<open>Paths\<close>

text \<open>
  \<open>filepath.Clean\<close> of an absolute Unix path: its elements without empty ones and dots, with
  every \<open>..\<close> taking the element before it away.
\<close>

fun split_slash :: "string \<Rightarrow> string list" where
  "split_slash [] = [[]]"
| "split_slash (c # cs) =
     (if c = CHR ''/'' then [] # split_slash cs
      else (case split_slash cs of [] \<Rightarrow> [[c]] | e # es \<Rightarrow> (c # e) # es))"

definition push_elem :: "string \<Rightarrow> string list \<Rightarrow> string list" where
  "push_elem e stack =
     (if e = [] \<or> e = ''.'' then stack else if e = ''..'' then tl stack else e # stack)"

definition path_elems :: "string \<Rightarrow> string list" where
  "path_elems p = rev (fold push_elem (split_slash p) [])"

definition render :: "string list \<Rightarrow> string" where
  "render es = (if es = [] then ''/'' else concat (map (\<lambda>e. ''/'' @ e) es))"

definition clean :: "string \<Rightarrow> string" where
  "clean p = render (path_elems p)"

definition join :: "string \<Rightarrow> string list \<Rightarrow> string" where
  "join p es = clean (p @ concat (map (\<lambda>e. ''/'' @ e) es))"

definition dir_of :: "string \<Rightarrow> string" where
  "dir_of p = render (butlast (path_elems p))"

text \<open>The directory and a name, as \<open>CreateTemp\<close> joins them.\<close>

definition in_dir :: "string \<Rightarrow> string \<Rightarrow> string" where
  "in_dir dir name = dir @ (if dir \<noteq> [] \<and> last dir = CHR ''/'' then [] else ''/'') @ name"

section \<open>Files\<close>

record os_file =
  fi_content :: bytes
  fi_regular :: bool
  fi_executable :: bool

type_synonym files = "string \<rightharpoonup> os_file"

text \<open>One try to take the installation lock, as the clock and the system answered it.\<close>

record attempt =
  at_open :: "os_error option"
  at_until :: int
  at_now :: int
  at_age :: "int option"
  at_remove :: "os_error option"
  at_done :: "go_error option"

text \<open>
  The state of the system: its files, the number of calls so far, and the tries at the lock to come.
\<close>

record system =
  w_files :: files
  w_calls :: nat
  w_attempts :: "attempt list"

record response =
  rp_status :: nat
  rp_statusText :: string
  rp_body :: bytes
  rp_broken :: "go_error option"

datatype tar_item =
    TarEntry string char int bytes "go_error option"  \<comment> \<open>name, type, size, data, what ends the data\<close>
  | TarError go_error

text \<open>
  The environment: \<open>os_fault n\<close> lets the \<open>n\<close>-th call fail, \<open>os_random n\<close> is what \<open>CreateTemp\<close> puts into
  a name, \<open>os_sha256\<close> the digest in hexadecimal, \<open>os_untar\<close> what \<open>gzip\<close> and \<open>tar\<close> read from an archive
  of which at most so many bytes are unpacked.
\<close>

record os_env =
  os_goos :: string
  os_goarch :: string
  os_cwd :: "go_error + string"
  os_userCache :: "go_error + string"
  os_getenv :: "string \<Rightarrow> string"
  os_lookPath :: "go_error + string"
  os_fault :: "nat \<Rightarrow> os_error option"
  os_random :: "nat \<Rightarrow> string"
  os_sha256 :: "bytes \<Rightarrow> string"
  os_untar :: "nat \<Rightarrow> bytes \<Rightarrow> go_error + tar_item list"
  os_request :: "string \<Rightarrow> go_error option"
  os_response :: "string \<Rightarrow> go_error + response"
  os_lock_text :: bytes

definition Abs_path :: "os_env \<Rightarrow> string \<Rightarrow> go_error + string" where
  "Abs_path env p =
     (if p \<noteq> [] \<and> hd p = CHR ''/'' then Inr (clean p)
      else bind_res (os_cwd env) (\<lambda>wd. Inr (clean (wd @ ''/'' @ p))))"

section \<open>System calls\<close>

type_synonym ('e, 'a) os = "system \<Rightarrow> ('e + 'a) \<times> system"

definition return_os :: "'a \<Rightarrow> ('e, 'a) os" where
  "return_os x w = (Inr x, w)"

definition fail_os :: "'e \<Rightarrow> ('e, 'a) os" where
  "fail_os e w = (Inl e, w)"

definition bind_os :: "('e, 'a) os \<Rightarrow> ('a \<Rightarrow> ('e, 'b) os) \<Rightarrow> ('e, 'b) os" where
  "bind_os m f w = (case m w of (Inl e, w') \<Rightarrow> (Inl e, w') | (Inr x, w') \<Rightarrow> f x w')"

definition catch_os :: "('e, 'a) os \<Rightarrow> ('e \<Rightarrow> ('d, 'b) os) \<Rightarrow> ('a \<Rightarrow> ('d, 'b) os) \<Rightarrow> ('d, 'b) os" where
  "catch_os m h f w = (case m w of (Inl e, w') \<Rightarrow> h e w' | (Inr x, w') \<Rightarrow> f x w')"

definition error_os :: "('e \<Rightarrow> 'd) \<Rightarrow> ('e, 'a) os \<Rightarrow> ('d, 'a) os" where
  "error_os g m = catch_os m (\<lambda>e. fail_os (g e)) return_os"

definition pure_os :: "'e + 'a \<Rightarrow> ('e, 'a) os" where
  "pure_os r w = (r, w)"

text \<open>A deferred call runs whatever happened, and its own error is dropped.\<close>

definition finally_os :: "('e, 'a) os \<Rightarrow> ('d, 'b) os \<Rightarrow> ('e, 'a) os" where
  "finally_os m d w = (case m w of (r, w') \<Rightarrow> (r, snd (d w')))"

definition sys :: "os_env \<Rightarrow> (nat \<Rightarrow> files \<Rightarrow> os_error + 'a \<times> files) \<Rightarrow> (os_error, 'a) os" where
  "sys env f w =
     (let w' = w\<lparr>w_calls := Suc (w_calls w)\<rparr> in
      case os_fault env (w_calls w) of
        Some e \<Rightarrow> (Inl e, w')
      | None \<Rightarrow> (case f (w_calls w) (w_files w) of
            Inl e \<Rightarrow> (Inl e, w')
          | Inr (x, fs) \<Rightarrow> (Inr x, w'\<lparr>w_files := fs\<rparr>)))"

definition os_get :: "os_env \<Rightarrow> string \<Rightarrow> (os_error, os_file) os" where
  "os_get env path = sys env (\<lambda>n fs. case fs path of None \<Rightarrow> Inl NotExist | Some f \<Rightarrow> Inr (f, fs))"

definition os_nothing :: "os_env \<Rightarrow> (os_error, unit) os" where
  "os_nothing env = sys env (\<lambda>n fs. Inr ((), fs))"

definition os_remove :: "os_env \<Rightarrow> string \<Rightarrow> (os_error, unit) os" where
  "os_remove env path =
     sys env (\<lambda>n fs. if fs path = None then Inl NotExist else Inr ((), fs(path := None)))"

definition os_rename :: "os_env \<Rightarrow> string \<Rightarrow> string \<Rightarrow> (os_error, unit) os" where
  "os_rename env a b =
     sys env (\<lambda>n fs. case fs a of None \<Rightarrow> Inl NotExist | Some f \<Rightarrow> Inr ((), fs(a := None, b := Some f)))"

definition os_chmod755 :: "os_env \<Rightarrow> string \<Rightarrow> (os_error, unit) os" where
  "os_chmod755 env path =
     sys env (\<lambda>n fs. case fs path of None \<Rightarrow> Inl NotExist
        | Some f \<Rightarrow> Inr ((), fs(path \<mapsto> f\<lparr>fi_executable := True\<rparr>)))"

definition os_create_temp :: "os_env \<Rightarrow> string \<Rightarrow> string \<Rightarrow> string \<Rightarrow> (os_error, string) os" where
  "os_create_temp env dir pre suf =
     sys env (\<lambda>n fs. let path = in_dir dir (pre @ os_random env n @ suf) in
       if fs path \<noteq> None then Inl Exist
       else Inr (path, fs(path \<mapsto> \<lparr>fi_content = [], fi_regular = True, fi_executable = False\<rparr>)))"

definition os_write :: "os_env \<Rightarrow> string \<Rightarrow> bytes \<Rightarrow> (os_error, unit) os" where
  "os_write env path b =
     sys env (\<lambda>n fs. case fs path of None \<Rightarrow> Inl NotExist
        | Some f \<Rightarrow> Inr ((), fs(path \<mapsto> f\<lparr>fi_content := fi_content f @ b\<rparr>)))"

end
