(* ===== verification/Installer.thy ===== *)
theory Installer
  imports OS_Files Arena
begin

text \<open>
  Installation of the worker (\<open>installer.go\<close>) and the search for its executable
  (\<open>FindBinary\<close> in \<open>pool.go\<close>).  Closing files and response bodies whose errors are dropped is
  left out; nothing follows from it.
\<close>

section \<open>Artifacts and the cache\<close>

definition maxRuntimeArchiveSize :: nat where "maxRuntimeArchiveSize = 64 * 2 ^ 20"
definition maxRuntimeUnpackedSize :: nat where "maxRuntimeUnpackedSize = 128 * 2 ^ 20"
definition maxRuntimeBinarySize :: nat where "maxRuntimeBinarySize = 64 * 2 ^ 20"

text \<open>Durations in nanoseconds.\<close>

definition installLockStaleAfter :: int where "installLockStaleAfter = 5 * 60 * 10 ^ 9"
definition installLockPermissionRetry :: int where "installLockPermissionRetry = 10 ^ 9"

record install_options =
  io_CacheDir :: string
  io_Force :: bool

record artifact =
  ra_goos :: string
  ra_goarch :: string
  ra_url :: string
  ra_archiveSHA256 :: string
  ra_binarySHA256 :: string
  ra_member :: string

definition runtimeArtifacts :: "(string \<times> artifact) list" where
  "runtimeArtifacts =
   [(''darwin/arm64'', \<lparr>ra_goos = ''darwin'', ra_goarch = ''arm64'',
      ra_url = ''https://registry.npmjs.org/@pydantic/monty-darwin-arm64/-/monty-darwin-arm64-1.2.0.tgz'',
      ra_archiveSHA256 = ''5f2e4aa0b7177dfbb9527988b64f4cc3f33e2ca4188134f274201309a1b2c3ff'',
      ra_binarySHA256 = ''bbff17e025871b6e6f5ac464c757ac5717ab32e328381c6a914190b80eec5c24'',
      ra_member = ''package/monty''\<rparr>),
    (''darwin/amd64'', \<lparr>ra_goos = ''darwin'', ra_goarch = ''amd64'',
      ra_url = ''https://registry.npmjs.org/@pydantic/monty-darwin-x64/-/monty-darwin-x64-1.2.0.tgz'',
      ra_archiveSHA256 = ''d20d2181f18a31c2d5c316a8fdd29bd4b5ca0c57260379d658f4f295c1696823'',
      ra_binarySHA256 = ''a2dd4831bec846a559d4e1a4148dad1a937820abf8d3129ec3ec91d0b4633b29'',
      ra_member = ''package/monty''\<rparr>),
    (''linux/arm64'', \<lparr>ra_goos = ''linux'', ra_goarch = ''arm64'',
      ra_url = ''https://registry.npmjs.org/@pydantic/monty-linux-arm64-gnu/-/monty-linux-arm64-gnu-1.2.0.tgz'',
      ra_archiveSHA256 = ''8fb2314c955f1cf92fe12e0a23391d4059f4c2ff7de29745be2e09a60cc29773'',
      ra_binarySHA256 = ''24691f2bdbf6eb6f60862adf801b619ca5c10d35147de37833dbceab9ac2ea6d'',
      ra_member = ''package/monty''\<rparr>),
    (''linux/amd64'', \<lparr>ra_goos = ''linux'', ra_goarch = ''amd64'',
      ra_url = ''https://registry.npmjs.org/@pydantic/monty-linux-x64-gnu/-/monty-linux-x64-gnu-1.2.0.tgz'',
      ra_archiveSHA256 = ''6f791fcf4dcb45230970d67f78a12d9a1e53198e6118d0354a54ffb0126f0ac6'',
      ra_binarySHA256 = ''d36ff64238568cd0fa6e152f5359512b7cd78acc000a0659fe1823ebf54b85b5'',
      ra_member = ''package/monty''\<rparr>),
    (''windows/amd64'', \<lparr>ra_goos = ''windows'', ra_goarch = ''amd64'',
      ra_url = ''https://registry.npmjs.org/@pydantic/monty-win32-x64-msvc/-/monty-win32-x64-msvc-1.2.0.tgz'',
      ra_archiveSHA256 = ''819a2c007060ba2942edaf6170706ae90f29fab83af92b8ecfa32bb31f25889e'',
      ra_binarySHA256 = ''f35610bf02a9050d9bd5bbe0b9cf7d2ce43c4905a51db79b074291195dff34cd'',
      ra_member = ''package/monty.exe''\<rparr>)]"

definition runtimeArtifactFor :: "string \<Rightarrow> string \<Rightarrow> go_error + artifact" where
  "runtimeArtifactFor goos goarch =
     (let key = goos @ ''/'' @ goarch in
      case map_of runtimeArtifacts key of
        None \<Rightarrow> Inl (Errorf ''Monty %s has no runtime for %s'' [AStr RuntimeVersion, AStr key])
      | Some a \<Rightarrow> Inr a)"

definition currentRuntimeArtifact :: "os_env \<Rightarrow> go_error + artifact" where
  "currentRuntimeArtifact env = runtimeArtifactFor (os_goos env) (os_goarch env)"

definition resolveRuntimeCacheDir :: "os_env \<Rightarrow> string \<Rightarrow> go_error + string" where
  "resolveRuntimeCacheDir env explicit =
     (let dir = (if explicit = [] then os_getenv env ''MONTY_CACHE_DIR'' else explicit) in
      bind_res
        (if dir \<noteq> [] then Inr dir
         else (case os_userCache env of
             Inl e \<Rightarrow> Inl (Errorf ''resolve Monty runtime cache: %w'' [AErr e])
           | Inr c \<Rightarrow> Inr (if c = [] then ''monty-go'' else c @ ''/monty-go'')))
        (\<lambda>dir. case Abs_path env dir of
            Inl e \<Rightarrow> Inl (Errorf ''resolve Monty runtime cache %q: %w'' [AStr dir, AErr e])
          | Inr p \<Rightarrow> Inr p))"

definition RuntimeCacheDir :: "os_env \<Rightarrow> go_error + string" where
  "RuntimeCacheDir env = resolveRuntimeCacheDir env []"

definition runtimeBinaryPath :: "string \<Rightarrow> artifact \<Rightarrow> string" where
  "runtimeBinaryPath cacheDir a =
     join cacheDir [''runtime'', ''v'' @ RuntimeVersion, ra_goos a @ ''-'' @ ra_goarch a,
       take 16 (ra_binarySHA256 a), if ra_goos a = ''windows'' then ''monty.exe'' else ''monty'']"

text \<open>\<open>strings.EqualFold\<close> on hexadecimal digits.\<close>

definition lower :: "char \<Rightarrow> char" where
  "lower c = (let n = of_char c :: nat in if 65 \<le> n \<and> n \<le> 90 then char_of (n + 32) else c)"

definition equal_fold :: "string \<Rightarrow> string \<Rightarrow> bool" where
  "equal_fold s t \<longleftrightarrow> map lower s = map lower t"

definition validateRuntimeBinary :: "os_env \<Rightarrow> string \<Rightarrow> artifact \<Rightarrow> (go_error, unit) os" where
  "validateRuntimeBinary env path a =
     bind_os (error_os (\<lambda>e. Errorf ''cached Monty runtime: %w'' [AErr (path_error ''open'' path e)]) (os_get env path)) (\<lambda>f.
     bind_os (error_os (\<lambda>e. Errorf ''inspect cached Monty runtime: %w'' [AErr (path_error ''stat'' path e)]) (os_nothing env)) (\<lambda>_.
       if \<not> fi_regular f then fail_os (Errorf ''cached Monty runtime is not a regular file: %s'' [AStr path])
       else if os_goos env \<noteq> ''windows'' \<and> \<not> fi_executable f
       then fail_os (Errorf ''cached Monty runtime is not executable: %s'' [AStr path])
       else bind_os (error_os (\<lambda>e. Errorf ''hash cached Monty runtime: %w'' [AErr (path_error ''read'' path e)]) (os_nothing env)) (\<lambda>_.
         if \<not> equal_fold (os_sha256 env (fi_content f)) (ra_binarySHA256 a)
         then fail_os (Errorf ''cached Monty runtime failed SHA-256 verification: %s'' [AStr path])
         else return_os ())))"

definition cachedRuntimeBinary :: "os_env \<Rightarrow> string \<Rightarrow> artifact \<Rightarrow> (go_error, string) os" where
  "cachedRuntimeBinary env cacheDir a =
     bind_os (pure_os (resolveRuntimeCacheDir env cacheDir)) (\<lambda>root.
       let path = runtimeBinaryPath root a in
       bind_os (validateRuntimeBinary env path a) (\<lambda>_. pure_os (Abs_path env path)))"

section \<open>The installation lock\<close>

datatype lock_result = Locked | LockFailed go_error | StillWaiting

definition lock_error :: "string \<Rightarrow> os_error \<Rightarrow> go_error" where
  "lock_error path e = Errorf ''lock Monty runtime installation: %w'' [AErr (path_error ''open'' path e)]"

text \<open>A lock older than five minutes is removed; when that works the next try follows at once.\<close>

definition breaks_stale :: "attempt \<Rightarrow> bool" where
  "breaks_stale a = (case at_age a of
      None \<Rightarrow> False
    | Some age \<Rightarrow> installLockStaleAfter < age \<and> at_remove a \<in> {None, Some NotExist})"

definition next_until :: "bool \<Rightarrow> attempt \<Rightarrow> os_error \<Rightarrow> int option \<Rightarrow> int option" where
  "next_until retryPermission a e until1 =
     (if retryPermission \<and> e = Permission then
        (case until1 of None \<Rightarrow> Some (at_until a + installLockPermissionRetry) | Some u \<Rightarrow> Some u)
      else if e = Exist then None else until1)"

definition gives_up :: "bool \<Rightarrow> attempt \<Rightarrow> os_error \<Rightarrow> int option \<Rightarrow> bool" where
  "gives_up retryPermission a e until1 \<longleftrightarrow>
     (if retryPermission \<and> e = Permission
      then (case next_until retryPermission a e until1 of None \<Rightarrow> False | Some u \<Rightarrow> \<not> at_now a < u)
      else e \<noteq> Exist)"

fun acquireInstallLock ::
  "bool \<Rightarrow> string \<Rightarrow> int option \<Rightarrow> attempt list \<Rightarrow> lock_result \<times> attempt list" where
  "acquireInstallLock retryPermission path until1 [] = (StillWaiting, [])"
| "acquireInstallLock retryPermission path until1 (a # as) =
     (case at_open a of
        None \<Rightarrow> (Locked, as)
      | Some e \<Rightarrow>
          if gives_up retryPermission a e until1 then (LockFailed (lock_error path e), as)
          else if breaks_stale a then acquireInstallLock retryPermission path (next_until retryPermission a e until1) as
          else (case at_done a of
              Some d \<Rightarrow> (LockFailed (Errorf ''wait for Monty runtime installation: %w'' [AErr d]), as)
            | None \<Rightarrow> acquireInstallLock retryPermission path (next_until retryPermission a e until1) as))"

section \<open>Unpacking\<close>

definition simple_error :: "string \<Rightarrow> go_error" where
  "simple_error s = Errorf s []"

text \<open>
  The first error of the copy, the sync and the close, each of which is made.
\<close>

definition write_file :: "os_env \<Rightarrow> string \<Rightarrow> bytes \<Rightarrow> go_error option \<Rightarrow> (go_error, unit) os" where
  "write_file env path b broken w =
     (case error_os (path_error ''write'' path) (os_write env path b) w of (r1, w1) \<Rightarrow>
      case error_os (path_error ''sync'' path) (os_nothing env) w1 of (r2, w2) \<Rightarrow>
      case error_os (path_error ''close'' path) (os_nothing env) w2 of (r3, w3) \<Rightarrow>
      (bind_res r1 (\<lambda>_. case broken of Some e \<Rightarrow> Inl e | None \<Rightarrow> bind_res r2 (\<lambda>_. r3)), w3))"

definition install_file :: "os_env \<Rightarrow> string \<Rightarrow> string \<Rightarrow> artifact \<Rightarrow> (go_error, unit) os" where
  "install_file env tmp target a =
     catch_os (validateRuntimeBinary env target a)
       (\<lambda>_. bind_os
          (catch_os (os_remove env target)
             (\<lambda>e. if e = NotExist then return_os ()
                  else fail_os (Errorf ''replace cached Monty runtime: %w'' [AErr (path_error ''remove'' target e)]))
             return_os)
          (\<lambda>_. error_os (\<lambda>e. Errorf ''install Monty runtime: %w'' [AErr (path_error ''rename'' tmp e)])
             (os_rename env tmp target)))
       return_os"

definition write_temporary ::
  "os_env \<Rightarrow> string \<Rightarrow> bytes \<Rightarrow> go_error option \<Rightarrow> int \<Rightarrow> string \<Rightarrow> artifact \<Rightarrow> (go_error, unit) os" where
  "write_temporary env tmp data broken expectedSize target a =
     bind_os (error_os (\<lambda>e. Errorf ''extract Monty runtime executable: %w'' [AErr e]) (write_file env tmp data broken)) (\<lambda>_.
       if int (length data) \<noteq> expectedSize
       then fail_os (Errorf ''extract Monty runtime: executable size is %d, expected %d''
              [AInt (int (length data)), AInt expectedSize])
       else if \<not> equal_fold (os_sha256 env data) (ra_binarySHA256 a)
       then fail_os (simple_error ''extract Monty runtime: executable failed SHA-256 verification'')
       else bind_os (error_os (\<lambda>e. Errorf ''make Monty runtime executable: %w'' [AErr (path_error ''chmod'' tmp e)])
                       (os_chmod755 env tmp)) (\<lambda>_. install_file env tmp target a))"

definition writeRuntimeBinary ::
  "os_env \<Rightarrow> bytes \<Rightarrow> go_error option \<Rightarrow> int \<Rightarrow> string \<Rightarrow> artifact \<Rightarrow> (go_error, unit) os" where
  "writeRuntimeBinary env source broken expectedSize target a =
     bind_os (error_os (\<lambda>e. Errorf ''create Monty runtime executable: %w'' [AErr (path_error ''open'' (dir_of target) e)])
                (os_create_temp env (dir_of target) ''.monty-runtime-'' [])) (\<lambda>tmp.
       finally_os
         (write_temporary env tmp (take (maxRuntimeBinarySize + 1) source)
            (if maxRuntimeBinarySize < length source then None else broken) expectedSize target a)
         (os_remove env tmp))"

text \<open>The headers of the archive up to the wanted member; \<open>'0'\<close> and NUL are the types of regular files.\<close>

fun extract_member :: "os_env \<Rightarrow> tar_item list \<Rightarrow> string \<Rightarrow> artifact \<Rightarrow> (go_error, unit) os" where
  "extract_member env [] target a =
     fail_os (Errorf ''extract Monty runtime: archive does not contain %s'' [AStr (ra_member a)])"
| "extract_member env (TarError e # items) target a =
     fail_os (Errorf ''read Monty runtime archive: %w'' [AErr e])"
| "extract_member env (TarEntry name ty sz data broken # items) target a =
     (if name \<noteq> ra_member a then extract_member env items target a
      else if ty \<noteq> CHR ''0'' \<and> ty \<noteq> CHR 0x00
      then fail_os (Errorf ''extract Monty runtime: %s is not a regular file'' [AStr (ra_member a)])
      else if sz < 0 \<or> int maxRuntimeBinarySize < sz
      then fail_os (Errorf ''extract Monty runtime: executable size %d is invalid'' [AInt sz])
      else writeRuntimeBinary env data broken sz target a)"

definition extractRuntimeArchiveReader :: "os_env \<Rightarrow> bytes \<Rightarrow> string \<Rightarrow> artifact \<Rightarrow> (go_error, unit) os" where
  "extractRuntimeArchiveReader env archive target a =
     (case os_untar env (maxRuntimeUnpackedSize + 1) archive of
        Inl e \<Rightarrow> fail_os (Errorf ''decompress Monty runtime archive: %w'' [AErr e])
      | Inr items \<Rightarrow> extract_member env items target a)"

definition extractRuntimeArchive :: "os_env \<Rightarrow> string \<Rightarrow> string \<Rightarrow> artifact \<Rightarrow> (go_error, unit) os" where
  "extractRuntimeArchive env archivePath target a =
     bind_os (error_os (\<lambda>e. Errorf ''open Monty runtime archive: %w'' [AErr (path_error ''open'' archivePath e)])
                (os_get env archivePath)) (\<lambda>f.
       extractRuntimeArchiveReader env (fi_content f) target a)"

section \<open>Downloading\<close>

definition save_archive :: "os_env \<Rightarrow> string \<Rightarrow> response \<Rightarrow> artifact \<Rightarrow> (go_error, unit) os" where
  "save_archive env path rsp a =
     (let data = take (maxRuntimeArchiveSize + 1) (rp_body rsp);
          broken = (if maxRuntimeArchiveSize < length (rp_body rsp) then None else rp_broken rsp) in
      bind_os
        (error_os (\<lambda>e. Errorf ''download Monty runtime: %w'' [AErr e])
           (bind_os (error_os (path_error ''write'' path) (os_write env path data))
              (\<lambda>_. case broken of Some e \<Rightarrow> fail_os e | None \<Rightarrow> return_os ()))) (\<lambda>_.
      bind_os (error_os (\<lambda>e. Errorf ''save Monty runtime archive: %w'' [AErr (path_error ''close'' path e)]) (os_nothing env)) (\<lambda>_.
        if maxRuntimeArchiveSize < length data
        then fail_os (Errorf ''download Monty runtime: archive exceeds %d bytes'' [AInt (int maxRuntimeArchiveSize)])
        else if \<not> equal_fold (os_sha256 env data) (ra_archiveSHA256 a)
        then fail_os (simple_error ''download Monty runtime: archive failed SHA-256 verification'')
        else return_os ())))"

definition downloadAndExtractRuntime :: "os_env \<Rightarrow> artifact \<Rightarrow> string \<Rightarrow> (go_error, unit) os" where
  "downloadAndExtractRuntime env a target =
     (case os_request env (ra_url a) of
        Some e \<Rightarrow> fail_os (Errorf ''create Monty runtime request: %w'' [AErr e])
      | None \<Rightarrow>
        (case os_response env (ra_url a) of
           Inl e \<Rightarrow> fail_os (Errorf ''download Monty runtime: %w'' [AErr e])
         | Inr rsp \<Rightarrow>
             if rp_status rsp \<noteq> 200
             then fail_os (Errorf ''download Monty runtime: %s returned %s'' [AStr (ra_url a), AStr (rp_statusText rsp)])
             else
               bind_os (error_os (\<lambda>e. Errorf ''create Monty runtime download: %w'' [AErr (path_error ''open'' (dir_of target) e)])
                          (os_create_temp env (dir_of target) ''.monty-'' ''.tgz'')) (\<lambda>archivePath.
                 finally_os
                   (bind_os (save_archive env archivePath rsp a)
                      (\<lambda>_. extractRuntimeArchive env archivePath target a))
                   (os_remove env archivePath))))"

section \<open>Installing\<close>

datatype install_result = Installed "go_error + string" | LockPending

text \<open>Taking the lock writes the lock file, and the deferred release removes it.\<close>

definition locked_install :: "os_env \<Rightarrow> install_options \<Rightarrow> artifact \<Rightarrow> string \<Rightarrow> string \<Rightarrow> (go_error, string) os" where
  "locked_install env option1 a cacheDir target =
     (let install = bind_os (downloadAndExtractRuntime env a target) (\<lambda>_.
            error_os (\<lambda>e. Errorf ''verify installed Monty runtime: %w'' [AErr e]) (cachedRuntimeBinary env cacheDir a)) in
      if io_Force option1 then install
      else catch_os (cachedRuntimeBinary env cacheDir a) (\<lambda>_. install) return_os)"

definition take_lock :: "os_env \<Rightarrow> string \<Rightarrow> system \<Rightarrow> system" where
  "take_lock env path w = w\<lparr>w_files := (w_files w)(path \<mapsto>
     \<lparr>fi_content = os_lock_text env, fi_regular = True, fi_executable = False\<rparr>)\<rparr>"

definition with_lock :: "os_env \<Rightarrow> install_options \<Rightarrow> artifact \<Rightarrow> string \<Rightarrow> string \<Rightarrow> system \<Rightarrow> install_result \<times> system" where
  "with_lock env option1 a cacheDir target w =
     (case error_os (\<lambda>e. Errorf ''create Monty runtime cache: %w'' [AErr (path_error ''mkdir'' (dir_of target) e)])
             (os_nothing env) w of
        (Inl e, w) \<Rightarrow> (Installed (Inl e), w)
      | (Inr _, w) \<Rightarrow>
         (case acquireInstallLock (os_goos env = ''windows'') (target @ ''.lock'') None (w_attempts w) of
            (StillWaiting, as) \<Rightarrow> (LockPending, w\<lparr>w_attempts := as\<rparr>)
          | (LockFailed e, as) \<Rightarrow> (Installed (Inl e), w\<lparr>w_attempts := as\<rparr>)
          | (Locked, as) \<Rightarrow>
              (case finally_os (locked_install env option1 a cacheDir target) (os_remove env (target @ ''.lock''))
                      (take_lock env (target @ ''.lock'') (w\<lparr>w_attempts := as\<rparr>)) of
                 (r, w) \<Rightarrow> (Installed r, w))))"

definition installRuntime :: "os_env \<Rightarrow> install_options \<Rightarrow> artifact \<Rightarrow> system \<Rightarrow> install_result \<times> system" where
  "installRuntime env option1 a w =
     (case resolveRuntimeCacheDir env (io_CacheDir option1) of
        Inl e \<Rightarrow> (Installed (Inl e), w)
      | Inr cacheDir \<Rightarrow>
          let target = runtimeBinaryPath cacheDir a in
          if io_Force option1 then with_lock env option1 a cacheDir target w
          else (case cachedRuntimeBinary env cacheDir a w of
              (Inr path, w) \<Rightarrow> (Installed (Inr path), w)
            | (Inl e, w) \<Rightarrow> with_lock env option1 a cacheDir target w))"

definition no_install_options :: install_options where
  "no_install_options = \<lparr>io_CacheDir = [], io_Force = False\<rparr>"

text \<open>\<open>cancelled\<close> is \<open>ctx.Err()\<close> at the call.\<close>

definition Install :: "os_env \<Rightarrow> go_error option \<Rightarrow> install_options list \<Rightarrow> system \<Rightarrow> install_result \<times> system" where
  "Install env cancelled options w =
     (case cancelled of
        Some e \<Rightarrow> (Installed (Inl (Errorf ''install Monty runtime: %w'' [AErr e])), w)
      | None \<Rightarrow>
          if 1 < length options
          then (Installed (Inl (simple_error ''Install accepts at most one InstallOptions value'')), w)
          else (case currentRuntimeArtifact env of
              Inl e \<Rightarrow> (Installed (Inl e), w)
            | Inr a \<Rightarrow> installRuntime env (case options of [] \<Rightarrow> no_install_options | o1 # _ \<Rightarrow> o1) a w))"

end
