(* ===== verification/Install_Lock.thy ===== *)
theory Install_Lock
  imports Installer
begin

text \<open>
  The installation lock among several processes: \<open>acquireInstallLockWithOpen\<close> and the release
  it returns (\<open>installer.go\<close> lines 248-287), one system call at a time.

  A process tries to create the lock file; if the file exists it asks for its age, removes it
  when that is more than five minutes, and else sleeps.  The release removes the file at the path,
  whoever wrote it.  A process may crash and leave its lock behind.
\<close>

section \<open>Processes\<close>

datatype lock_pc = Trying | Blocked | Breaking | Sleeping | Holding | Gone

text \<open>
  The lock file with its writer and its time, the clock, where each process is, and whether a lock
  older than five minutes has ever been seen.
\<close>

record lock_state =
  lk_lock :: "(nat \<times> int) option"
  lk_clock :: int
  lk_pc :: "nat \<Rightarrow> lock_pc"
  lk_seenStale :: bool

definition stale :: "lock_state \<Rightarrow> bool" where
  "stale s = (case lk_lock s of None \<Rightarrow> False | Some (j, t) \<Rightarrow> installLockStaleAfter < lk_clock s - t)"

definition at_pc :: "nat \<Rightarrow> lock_pc \<Rightarrow> lock_state \<Rightarrow> lock_state" where
  "at_pc i c s = s\<lparr>lk_pc := (lk_pc s)(i := c)\<rparr>"

inductive process_step :: "nat \<Rightarrow> lock_state \<Rightarrow> lock_state \<Rightarrow> bool" for i where
  create: "lk_pc s i = Trying \<Longrightarrow> lk_lock s = None \<Longrightarrow>
    process_step i s (at_pc i Holding (s\<lparr>lk_lock := Some (i, lk_clock s)\<rparr>))"
| exists_already: "lk_pc s i = Trying \<Longrightarrow> lk_lock s \<noteq> None \<Longrightarrow> process_step i s (at_pc i Blocked s)"
| stat_stale: "lk_pc s i = Blocked \<Longrightarrow> stale s \<Longrightarrow> process_step i s (at_pc i Breaking (s\<lparr>lk_seenStale := True\<rparr>))"
| stat_fresh: "lk_pc s i = Blocked \<Longrightarrow> \<not> stale s \<Longrightarrow> process_step i s (at_pc i Sleeping s)"
| remove: "lk_pc s i = Breaking \<Longrightarrow> process_step i s (at_pc i Trying (s\<lparr>lk_lock := None\<rparr>))"
| remove_fails: "lk_pc s i = Breaking \<Longrightarrow> process_step i s (at_pc i Sleeping s)"
| timer: "lk_pc s i = Sleeping \<Longrightarrow> process_step i s (at_pc i Trying s)"
| cancel: "lk_pc s i = Sleeping \<Longrightarrow> process_step i s (at_pc i Gone s)"
| release: "lk_pc s i = Holding \<Longrightarrow> process_step i s (at_pc i Gone (s\<lparr>lk_lock := None\<rparr>))"
| crash: "process_step i s (at_pc i Gone s)"

inductive time_step :: "lock_state \<Rightarrow> lock_state \<Rightarrow> bool" where
  tick: "0 \<le> d \<Longrightarrow> time_step s (s\<lparr>lk_clock := lk_clock s + d\<rparr>)"

definition start_lock :: "int \<Rightarrow> lock_state" where
  "start_lock t = \<lparr>lk_lock = None, lk_clock = t, lk_pc = (\<lambda>i. Trying), lk_seenStale = False\<rparr>"

inductive lock_reachable :: "lock_state \<Rightarrow> bool" where
  start: "lock_reachable (start_lock t)"
| process: "lock_reachable s \<Longrightarrow> process_step i s s' \<Longrightarrow> lock_reachable s'"
| time: "lock_reachable s \<Longrightarrow> time_step s s' \<Longrightarrow> lock_reachable s'"

text \<open>One process alone, and the clock.\<close>

definition solo :: "nat \<Rightarrow> lock_state \<Rightarrow> lock_state \<Rightarrow> bool" where
  "solo i s s' \<longleftrightarrow> process_step i s s' \<or> time_step s s'"

section \<open>Exclusion\<close>

definition lock_inv :: "lock_state \<Rightarrow> bool" where
  "lock_inv s \<longleftrightarrow>
     (\<forall>j t. lk_lock s = Some (j, t) \<longrightarrow> t \<le> lk_clock s)
     \<and> (\<not> lk_seenStale s \<longrightarrow> (\<forall>i. lk_pc s i \<noteq> Breaking) \<and> (\<forall>i. lk_pc s i = Holding \<longrightarrow> (\<exists>t. lk_lock s = Some (i, t))))"

lemma lock_inv_holder:
  assumes "lock_inv s" and "\<not> lk_seenStale s" and "lk_pc s i = Holding" and "lk_pc s j = Holding"
  shows "i = j"
proof -
  from assms obtain t u where "lk_lock s = Some (i, t)" "lk_lock s = Some (j, u)"
    unfolding lock_inv_def by metis
  then show ?thesis by simp
qed

lemma process_step_inv: "process_step i s s' \<Longrightarrow> lock_inv s \<Longrightarrow> lock_inv s'"
proof (induction rule: process_step.induct)
  case (release s)
  show ?case
  proof (cases "lk_seenStale s")
    case True
    then show ?thesis by (simp add: lock_inv_def at_pc_def)
  next
    case False
    then have "lk_pc s j \<noteq> Holding" if "j \<noteq> i" for j using lock_inv_holder [of s i j] release that by blast
    with release False show ?thesis by (simp add: lock_inv_def at_pc_def)
  qed
qed (auto simp: lock_inv_def at_pc_def)

lemma lock_reachable_inv: "lock_reachable s \<Longrightarrow> lock_inv s"
proof (induction rule: lock_reachable.induct)
  case (start t)
  then show ?case by (simp add: lock_inv_def start_lock_def)
next
  case (process s i s')
  then show ?case by (blast intro: process_step_inv)
next
  case (time s s')
  from time.hyps(2) time.IH show ?case by cases (force simp: lock_inv_def)
qed

lemma exclusive_lock:
  assumes "lock_reachable s" and "\<not> lk_seenStale s" and "lk_pc s i = Holding" and "lk_pc s j = Holding"
  shows "i = j"
  using assms by (intro lock_inv_holder [OF lock_reachable_inv])

section \<open>Progress\<close>

lemma solo_trying:
  assumes "lk_pc s i \<in> {Trying, Blocked, Breaking, Sleeping}"
  shows "\<exists>s'. (solo i)\<^sup>*\<^sup>* s s' \<and> lk_pc s' i = Trying \<and> lk_clock s' = lk_clock s
    \<and> (\<forall>l. lk_lock s' = Some l \<longrightarrow> lk_lock s = Some l)"
proof -
  have sleeping: "(solo i)\<^sup>*\<^sup>* s (at_pc i Trying s)" if "lk_pc s i = Sleeping" for s
    using process_step.timer [OF that] by (auto simp: solo_def)
  consider "lk_pc s i = Trying" | "lk_pc s i = Blocked" | "lk_pc s i = Breaking" | "lk_pc s i = Sleeping"
    using assms by blast
  then show ?thesis
  proof cases
    case 1
    then show ?thesis by blast
  next
    case 2
    show ?thesis
    proof (cases "stale s")
      case False
      with 2 have "solo i s (at_pc i Sleeping s)" by (simp add: solo_def process_step.stat_fresh)
      moreover have "(solo i)\<^sup>*\<^sup>* (at_pc i Sleeping s) (at_pc i Trying (at_pc i Sleeping s))"
        by (rule sleeping) (simp add: at_pc_def)
      ultimately show ?thesis
        by (intro exI [of _ "at_pc i Trying (at_pc i Sleeping s)"]) (auto simp: at_pc_def intro: converse_rtranclp_into_rtranclp)
    next
      case True
      let ?b = "at_pc i Breaking (s\<lparr>lk_seenStale := True\<rparr>)"
      have "solo i s ?b" using 2 True by (simp add: solo_def process_step.stat_stale)
      moreover have "solo i ?b (at_pc i Trying (?b\<lparr>lk_lock := None\<rparr>))"
        by (simp add: solo_def, rule disjI1, rule process_step.remove) (simp add: at_pc_def)
      ultimately show ?thesis
        by (intro exI [of _ "at_pc i Trying (?b\<lparr>lk_lock := None\<rparr>)"])
          (auto simp: at_pc_def intro: converse_rtranclp_into_rtranclp)
    qed
  next
    case 3
    then have "solo i s (at_pc i Trying (s\<lparr>lk_lock := None\<rparr>))" by (simp add: solo_def process_step.remove)
    then show ?thesis by (intro exI [of _ "at_pc i Trying (s\<lparr>lk_lock := None\<rparr>)"]) (auto simp: at_pc_def)
  next
    case 4
    with sleeping show ?thesis by (intro exI [of _ "at_pc i Trying s"]) (auto simp: at_pc_def)
  qed
qed

lemma solo_create:
  assumes "lk_pc s i = Trying" and "lk_lock s = None"
  shows "\<exists>s'. solo i s s' \<and> lk_pc s' i = Holding \<and> lk_clock s' = lk_clock s"
  using process_step.create [OF assms]
  by (intro exI [of _ "at_pc i Holding (s\<lparr>lk_lock := Some (i, lk_clock s)\<rparr>)"]) (simp add: solo_def at_pc_def)

lemma solo_takes:
  assumes "lk_pc s i = Trying" and "\<forall>j t. lk_lock s = Some (j, t) \<longrightarrow> t \<le> lk_clock s"
  shows "\<exists>s'. (solo i)\<^sup>*\<^sup>* s s' \<and> lk_pc s' i = Holding \<and> lk_clock s' \<le> lk_clock s + installLockStaleAfter + 1"
proof (cases "lk_lock s")
  case None
  from solo_create [OF assms(1) None] show ?thesis by (auto simp: installLockStaleAfter_def)
next
  case (Some l)
  obtain j t where l: "l = (j, t)" by (cases l)
  define d where "d = installLockStaleAfter + 1"
  let ?a = "at_pc i Blocked s"
  let ?b = "?a\<lparr>lk_clock := lk_clock ?a + d\<rparr>"
  let ?c = "at_pc i Breaking (?b\<lparr>lk_seenStale := True\<rparr>)"
  let ?d = "at_pc i Trying (?c\<lparr>lk_lock := None\<rparr>)"
  have "solo i s ?a" using assms(1) Some by (simp add: solo_def process_step.exists_already)
  moreover have "solo i ?a ?b"
    unfolding solo_def by (rule disjI2, rule time_step.tick) (simp add: d_def installLockStaleAfter_def)
  moreover have "stale ?b" using assms(2) Some l by (simp add: stale_def at_pc_def d_def)
  then have "solo i ?b ?c" unfolding solo_def by (intro disjI1 process_step.stat_stale) (simp_all add: at_pc_def)
  moreover have "solo i ?c ?d" unfolding solo_def by (rule disjI1, rule process_step.remove) (simp add: at_pc_def)
  ultimately have path: "(solo i)\<^sup>*\<^sup>* s ?d" by (meson converse_rtranclp_into_rtranclp rtranclp.rtrancl_refl)
  from solo_create [of ?d i] obtain s' where "solo i ?d s'" "lk_pc s' i = Holding" "lk_clock s' = lk_clock s + d"
    by (auto simp: at_pc_def)
  with path show ?thesis by (intro exI [of _ s']) (auto simp: d_def)
qed

lemma lock_can_be_taken:
  assumes "lock_reachable s" and "lk_pc s i \<in> {Trying, Blocked, Breaking, Sleeping}"
  shows "\<exists>s'. (solo i)\<^sup>*\<^sup>* s s' \<and> lk_pc s' i = Holding \<and> lk_clock s' \<le> lk_clock s + installLockStaleAfter + 1"
proof -
  from solo_trying [OF assms(2)] obtain s1 where s1: "(solo i)\<^sup>*\<^sup>* s s1" "lk_pc s1 i = Trying" "lk_clock s1 = lk_clock s"
    "\<forall>l. lk_lock s1 = Some l \<longrightarrow> lk_lock s = Some l" by blast
  have fresh: "\<forall>j t. lk_lock s1 = Some (j, t) \<longrightarrow> t \<le> lk_clock s1"
    using lock_reachable_inv [OF assms(1)] s1(3,4) by (auto simp: lock_inv_def)
  obtain s2 where "(solo i)\<^sup>*\<^sup>* s1 s2" "lk_pc s2 i = Holding" "lk_clock s2 \<le> lk_clock s1 + installLockStaleAfter + 1"
    using solo_takes [OF s1(2) fresh] by blast
  with s1(1,3) show ?thesis by (intro exI [of _ s2]) (auto intro: rtranclp_trans)
qed

section \<open>The race between two processes that find the lock stale\<close>

text \<open>Process 0 leaves its lock behind; six minutes later processes 1 and 2 both ask for its age.\<close>

lemma two_breaking:
  "\<exists>s. lock_reachable s \<and> lk_pc s 1 = Breaking \<and> lk_pc s 2 = Breaking"
proof -
  let ?s0 = "start_lock 0"
  let ?s1 = "at_pc 0 Holding (?s0\<lparr>lk_lock := Some (0, lk_clock ?s0)\<rparr>)"
  let ?s2 = "at_pc 0 Gone ?s1"
  let ?s3 = "?s2\<lparr>lk_clock := lk_clock ?s2 + 6 * 60 * 10 ^ 9\<rparr>"
  let ?s4 = "at_pc 1 Blocked ?s3"
  let ?s5 = "at_pc 2 Blocked ?s4"
  let ?s6 = "at_pc 1 Breaking (?s5\<lparr>lk_seenStale := True\<rparr>)"
  let ?s7 = "at_pc 2 Breaking (?s6\<lparr>lk_seenStale := True\<rparr>)"
  note defs = at_pc_def start_lock_def stale_def installLockStaleAfter_def
  have "lock_reachable ?s0" by (rule lock_reachable.start)
  then have "lock_reachable ?s1" by (rule lock_reachable.process [OF _ process_step.create]) (simp_all add: defs)
  then have "lock_reachable ?s2" by (rule lock_reachable.process [OF _ process_step.crash])
  then have "lock_reachable ?s3" by (rule lock_reachable.time [OF _ time_step.tick]) simp
  then have "lock_reachable ?s4" by (rule lock_reachable.process [OF _ process_step.exists_already]) (simp_all add: defs)
  then have "lock_reachable ?s5" by (rule lock_reachable.process [OF _ process_step.exists_already]) (simp_all add: defs)
  then have "lock_reachable ?s6" by (rule lock_reachable.process [OF _ process_step.stat_stale]) (simp_all add: defs)
  then have "lock_reachable ?s7" by (rule lock_reachable.process [OF _ process_step.stat_stale]) (simp_all add: defs)
  then show ?thesis by (intro exI [of _ ?s7] conjI) (simp_all add: defs)
qed

text \<open>The removal of the stale lock and the creation of a new one, by a process that has seen it.\<close>

lemma breaking_takes:
  assumes "lk_pc s i = Breaking"
  shows "(process_step i)\<^sup>*\<^sup>* s (at_pc i Holding (s\<lparr>lk_lock := Some (i, lk_clock s)\<rparr>))"
proof -
  let ?r = "at_pc i Trying (s\<lparr>lk_lock := None\<rparr>)"
  have "process_step i s ?r" using assms by (rule process_step.remove)
  moreover have "process_step i ?r (at_pc i Holding (?r\<lparr>lk_lock := Some (i, lk_clock ?r)\<rparr>))"
    by (rule process_step.create) (simp_all add: at_pc_def)
  moreover have "at_pc i Holding (?r\<lparr>lk_lock := Some (i, lk_clock ?r)\<rparr>) = at_pc i Holding (s\<lparr>lk_lock := Some (i, lk_clock s)\<rparr>)"
    by (simp add: at_pc_def)
  ultimately show ?thesis by (metis converse_rtranclp_into_rtranclp rtranclp.rtrancl_refl)
qed

lemma process_steps_reachable: "(process_step i)\<^sup>*\<^sup>* s s' \<Longrightarrow> lock_reachable s \<Longrightarrow> lock_reachable s'"
  by (induction rule: rtranclp_induct) (auto intro: lock_reachable.process)

text \<open>Process 1 has just created its lock; process 2 removes it all the same, and both hold the lock.\<close>

lemma lock_race:
  "\<exists>s s'. lock_reachable s \<and> lk_pc s 1 = Holding \<and> lk_lock s = Some (1, lk_clock s)
     \<and> (process_step 2)\<^sup>*\<^sup>* s s' \<and> lk_pc s' 1 = Holding \<and> lk_pc s' 2 = Holding"
proof -
  obtain s0 where s0: "lock_reachable s0" "lk_pc s0 1 = Breaking" "lk_pc s0 2 = Breaking" using two_breaking by blast
  let ?s = "at_pc 1 Holding (s0\<lparr>lk_lock := Some (1, lk_clock s0)\<rparr>)"
  have "lock_reachable ?s" using breaking_takes [OF s0(2)] s0(1) by (rule process_steps_reachable)
  moreover have "(process_step 2)\<^sup>*\<^sup>* ?s (at_pc 2 Holding (?s\<lparr>lk_lock := Some (2, lk_clock ?s)\<rparr>))"
    by (rule breaking_takes) (use s0(3) in \<open>simp add: at_pc_def\<close>)
  moreover have "lk_lock ?s = Some (1, lk_clock ?s)" by (simp add: at_pc_def)
  moreover have "lk_pc ?s 1 = Holding" "lk_pc (at_pc 2 Holding (?s\<lparr>lk_lock := Some (2, lk_clock ?s)\<rparr>)) 1 = Holding"
    "lk_pc (at_pc 2 Holding (?s\<lparr>lk_lock := Some (2, lk_clock ?s)\<rparr>)) 2 = Holding" by (simp_all add: at_pc_def)
  ultimately show ?thesis by blast
qed

section \<open>The wait of one process\<close>

text \<open>
  What the tries find while a lock is left behind: it exists, its age grows by at least the 50
  milliseconds slept, and once it has been removed the next try creates it.
\<close>

definition left_behind :: "attempt list \<Rightarrow> bool" where
  "left_behind as \<longleftrightarrow> (\<forall>n < length as.
     at_open (as ! n) \<in> {None, Some Exist} \<and> at_done (as ! n) = None \<and> at_remove (as ! n) = None
     \<and> (\<exists>age. at_age (as ! n) = Some age \<and> 50 * 10 ^ 6 * int n \<le> age)
     \<and> (Suc n < length as \<and> breaks_stale (as ! n) \<longrightarrow> at_open (as ! Suc n) = None))"

lemma acquire_finds:
  assumes "n < length as" and "at_open (as ! n) = None"
    and "\<forall>m < n. at_open (as ! m) \<in> {None, Some Exist} \<and> at_done (as ! m) = None"
  shows "fst (acquireInstallLock retry path u as) = Locked"
  using assms
proof (induction as arbitrary: n u)
  case (Cons a as)
  show ?case
  proof (cases "at_open a")
    case (Some e)
    with Cons.prems(2) have n: "0 < n" by (intro gr0I) simp
    with Cons.prems(3) Some have e: "e = Exist" "at_done a = None" by (fastforce dest: spec [of _ 0])+
    obtain k where k: "n = Suc k" using n by (cases n) simp_all
    have "fst (acquireInstallLock retry path v as) = Locked" for v
    proof (rule Cons.IH [of k])
      show "\<forall>m<k. at_open (as ! m) \<in> {None, Some Exist} \<and> at_done (as ! m) = None"
        using Cons.prems(3) k by (metis Suc_less_eq nth_Cons_Suc)
    qed (use Cons.prems k in simp_all)
    with Some e show ?thesis by (simp add: gives_up_def)
  qed simp
qed simp

lemma left_behind_nth:
  assumes "left_behind as" and "n < length as"
  shows "at_open (as ! n) \<in> {None, Some Exist} \<and> at_done (as ! n) = None"
    and "installLockStaleAfter < 50 * 10 ^ 6 * int n \<Longrightarrow> breaks_stale (as ! n)"
    and "Suc n < length as \<Longrightarrow> breaks_stale (as ! n) \<Longrightarrow> at_open (as ! Suc n) = None"
  using assms by (auto simp: left_behind_def breaks_stale_def)

lemma left_behind_locked:
  assumes "left_behind as" and "6002 < length as"
  shows "fst (acquireInstallLock retry path u as) = Locked"
proof -
  have "breaks_stale (as ! 6001)"
    using assms by (intro left_behind_nth(2)) (simp_all add: installLockStaleAfter_def)
  with left_behind_nth(3) [OF assms(1), of 6001] assms(2) have "at_open (as ! 6002) = None" by simp
  with assms(2) show ?thesis by (rule acquire_finds) (use left_behind_nth(1) [OF assms(1)] assms(2) in simp)
qed

end
