(* ===== verification/Find_Binary.thy ===== *)
theory Find_Binary
  imports Installer Pool
begin

text \<open>
  \<open>FindBinary\<close> (\<open>pool.go\<close> lines 189-275): the explicit path, \<open>MONTY_BIN\<close>, the runtime cache, the
  \<open>PATH\<close>, and the directories from the current one up to the root; and what \<open>New\<close> makes of it.
\<close>

definition executableFile :: "os_env \<Rightarrow> string \<Rightarrow> string \<Rightarrow> (go_error, string) os" where
  "executableFile env path source =
     bind_os (error_os (\<lambda>e. Errorf ''monty binary from %s: %w'' [AStr source, AErr (path_error ''stat'' path e)]) (os_get env path)) (\<lambda>f.
       if \<not> fi_regular f then fail_os (Errorf ''monty binary from %s is not a regular file: %s'' [AStr source, AStr path])
       else if os_goos env \<noteq> ''windows'' \<and> \<not> fi_executable f
       then fail_os (Errorf ''monty binary from %s is not executable: %s'' [AStr source, AStr path])
       else pure_os (Abs_path env path))"

definition npm_triple :: "os_env \<Rightarrow> string" where
  "npm_triple env =
     (case map_of [(''darwin/amd64'', ''darwin-x64''), (''darwin/arm64'', ''darwin-arm64''),
                   (''linux/amd64'', ''linux-x64-gnu''), (''linux/arm64'', ''linux-arm64-gnu''),
                   (''windows/amd64'', ''win32-x64-msvc'')] (os_goos env @ ''/'' @ os_goarch env) of
        None \<Rightarrow> [] | Some t \<Rightarrow> t)"

definition exe_name :: "os_env \<Rightarrow> string" where
  "exe_name env = (if os_goos env = ''windows'' then ''monty.exe'' else ''monty'')"

definition candidates :: "os_env \<Rightarrow> string \<Rightarrow> (string \<times> string) list" where
  "candidates env dir =
     (if npm_triple env \<noteq> []
      then [(join dir [''node_modules'', ''@pydantic'', ''monty-'' @ npm_triple env, exe_name env], ''npm package'')]
      else [])
     @ map (\<lambda>profile. (join dir [''target'', profile, exe_name env], ''Cargo target'')) [''debug'', ''release'']"

text \<open>The current directory and its parents; \<open>filepath.Dir\<close> of the root is the root.\<close>

fun ancestors :: "string list \<Rightarrow> string list" where
  "ancestors [] = [render []]"
| "ancestors (e # es) = render (rev (e # es)) # ancestors es"

definition no_binary :: string where
  "no_binary = ''could not locate the monty binary (call monty.Install, enable Options.AutoInstall, pass BinaryPath, or set MONTY_BIN)''"

definition not_found :: "go_error option \<Rightarrow> go_error" where
  "not_found cacheErr =
     (case cacheErr of
        Some e \<Rightarrow> if errors_is e NotExist then Errorf no_binary [] else Errorf ''%s: %w'' [AStr no_binary, AErr e]
      | None \<Rightarrow> Errorf no_binary [])"

fun first_executable :: "os_env \<Rightarrow> (string \<times> string) list \<Rightarrow> go_error \<Rightarrow> (go_error, string) os" where
  "first_executable env [] e = fail_os e"
| "first_executable env ((path, source) # cs) e =
     catch_os (executableFile env path source) (\<lambda>_. first_executable env cs e) return_os"

definition search_up :: "os_env \<Rightarrow> go_error option \<Rightarrow> (go_error, string) os" where
  "search_up env cacheErr =
     (case os_cwd env of
        Inl _ \<Rightarrow> fail_os (not_found cacheErr)
      | Inr cwd \<Rightarrow>
          first_executable env (concat (map (candidates env) (ancestors (rev (path_elems cwd))))) (not_found cacheErr))"

definition search_path :: "os_env \<Rightarrow> go_error option \<Rightarrow> (go_error, string) os" where
  "search_path env cacheErr =
     (case os_lookPath env of Inr p \<Rightarrow> return_os p | Inl _ \<Rightarrow> search_up env cacheErr)"

definition search_cache :: "os_env \<Rightarrow> string \<Rightarrow> (go_error, string) os" where
  "search_cache env cacheDir =
     (case currentRuntimeArtifact env of
        Inl _ \<Rightarrow> search_path env None
      | Inr a \<Rightarrow> catch_os (cachedRuntimeBinary env cacheDir a) (\<lambda>e. search_path env (Some e)) return_os)"

definition findBinary :: "os_env \<Rightarrow> string \<Rightarrow> string \<Rightarrow> (go_error, string) os" where
  "findBinary env explicit cacheDir =
     (if explicit \<noteq> [] then executableFile env explicit ''BinaryPath''
      else let bin = os_getenv env ''MONTY_BIN'' in
        if bin \<noteq> [] then catch_os (executableFile env bin ''MONTY_BIN'') (\<lambda>_. search_cache env cacheDir) return_os
        else search_cache env cacheDir)"

definition FindBinary :: "os_env \<Rightarrow> string \<Rightarrow> (go_error, string) os" where
  "FindBinary env explicit = findBinary env explicit []"

text \<open>
  How \<open>New\<close> comes by its executable; \<open>Options.CacheDir\<close> is passed beside the options, \<open>cancelled\<close> is
  \<open>ctx.Err()\<close> when \<open>Install\<close> is called.
\<close>

definition New_executable ::
  "os_env \<Rightarrow> go_error option \<Rightarrow> pool_options \<Rightarrow> string \<Rightarrow> system \<Rightarrow> install_result \<times> system" where
  "New_executable env cancelled o1 cacheDir w =
     (case findBinary env (pl_BinaryPath o1) cacheDir w of
        (Inr b, w) \<Rightarrow> (Installed (Inr b), w)
      | (Inl e, w) \<Rightarrow>
          if pl_AutoInstall o1 \<and> pl_BinaryPath o1 = []
          then Install env cancelled [\<lparr>io_CacheDir = cacheDir, io_Force = False\<rparr>] w
          else (Installed (Inl e), w))"

end
