(* ===== verification/Installer_Facts.thy ===== *)
theory Installer_Facts
  imports Find_Binary
begin

text \<open>
  What an installation does to the files, and what \<open>installRuntime\<close> and \<open>findBinary\<close> return.
\<close>

section \<open>Paths\<close>

definition good_elem :: "string \<Rightarrow> bool" where
  "good_elem e \<longleftrightarrow> e \<noteq> [] \<and> CHR ''/'' \<notin> set e \<and> e \<noteq> ''.'' \<and> e \<noteq> ''..''"

lemma split_slash_not_Nil [simp]: "split_slash s \<noteq> []"
  by (cases s) (simp_all split: list.split)

lemma split_slash_elem: "CHR ''/'' \<notin> set e \<Longrightarrow> split_slash e = [e]"
  by (induction e) auto

lemma split_slash_append: "split_slash (s @ CHR ''/'' # t) = split_slash s @ split_slash t"
  by (induction s) (auto split: list.split simp: Cons_eq_append_conv)

lemma split_slash_render: "\<forall>e \<in> set es. good_elem e \<Longrightarrow> split_slash (concat (map (\<lambda>e. ''/'' @ e) es)) = [] # es"
proof (induction es rule: rev_induct)
  case (snoc e es)
  then have "split_slash (concat (map (\<lambda>e. ''/'' @ e) es) @ CHR ''/'' # e) = ([] # es) @ [e]"
    by (simp add: split_slash_append split_slash_elem good_elem_def)
  then show ?case by simp
qed simp

lemma split_slash_elems: "e \<in> set (split_slash s) \<Longrightarrow> CHR ''/'' \<notin> set e"
proof (induction s arbitrary: e)
  case (Cons c s)
  then show ?case by (cases "split_slash s") (auto split: if_splits)
qed simp

lemma push_good: "\<forall>e \<in> set es. good_elem e \<Longrightarrow> fold push_elem es stack = rev es @ stack"
  by (induction es arbitrary: stack) (simp_all add: push_elem_def good_elem_def)

lemma fold_push_good:
  "\<forall>e \<in> set es. CHR ''/'' \<notin> set e \<Longrightarrow> \<forall>e \<in> set stack. good_elem e \<Longrightarrow> \<forall>e \<in> set (fold push_elem es stack). good_elem e"
proof (induction es arbitrary: stack)
  case (Cons e es)
  have "\<forall>x \<in> set (push_elem e stack). good_elem x"
    using Cons.prems by (cases stack) (auto simp: push_elem_def good_elem_def)
  with Cons show ?case by simp
qed simp

lemma path_elems_good: "e \<in> set (path_elems p) \<Longrightarrow> good_elem e"
  using fold_push_good [of "split_slash p" "[]"] split_slash_elems by (fastforce simp: path_elems_def)

lemma path_elems_render: "\<forall>e \<in> set es. good_elem e \<Longrightarrow> path_elems (render es) = es"
  by (cases "es = []")
    (simp_all add: path_elems_def render_def split_slash_render push_good, simp_all add: push_elem_def push_good)

lemma clean_clean [simp]: "clean (clean p) = clean p"
  by (simp add: clean_def path_elems_render path_elems_good)

lemma clean_absolute: "clean p \<noteq> [] \<and> hd (clean p) = CHR ''/''"
  by (cases "path_elems p") (simp_all add: clean_def render_def)

lemma Abs_path_clean [simp]: "Abs_path env (clean p) = Inr (clean p)"
  using clean_absolute [of p] by (simp add: Abs_path_def)

text \<open>A path that ends in a plain name, and its siblings.\<close>

lemma path_elems_snoc: "good_elem e \<Longrightarrow> path_elems (p @ CHR ''/'' # e) = path_elems p @ [e]"
  by (simp add: path_elems_def split_slash_append split_slash_elem good_elem_def push_elem_def)

lemma render_snoc:
  assumes "\<forall>d \<in> set ds. good_elem d"
  shows "in_dir (render ds) e = render (ds @ [e])"
proof (cases ds rule: rev_cases)
  case (snoc ds' d)
  then have "d \<noteq> []" "CHR ''/'' \<notin> set d" using assms by (simp_all add: good_elem_def)
  then have "last d \<noteq> CHR ''/''" using last_in_set by fastforce
  with snoc \<open>d \<noteq> []\<close> show ?thesis by (simp add: in_dir_def render_def)
qed (simp add: in_dir_def render_def)

lemma in_dir_split: "in_dir d x = in_dir d [] @ x"
  by (simp add: in_dir_def)

lemma in_dir_eq [simp]: "in_dir d x = in_dir d y \<longleftrightarrow> x = y"
  by (simp add: in_dir_def)

text \<open>The executable and the temporary files beside it.\<close>

definition exe_of :: "artifact \<Rightarrow> string" where
  "exe_of a = (if ra_goos a = ''windows'' then ''monty.exe'' else ''monty'')"

lemma target_in_dir: "runtimeBinaryPath cacheDir a = in_dir (dir_of (runtimeBinaryPath cacheDir a)) (exe_of a)"
proof -
  have exe: "good_elem (exe_of a)" by (simp add: exe_of_def good_elem_def)
  define q where "q = cacheDir @ concat (map (\<lambda>e. ''/'' @ e)
    [''runtime'', ''v'' @ RuntimeVersion, ra_goos a @ ''-'' @ ra_goarch a, take 16 (ra_binarySHA256 a)])"
  have "runtimeBinaryPath cacheDir a = clean (q @ CHR ''/'' # exe_of a)"
    by (simp add: runtimeBinaryPath_def join_def exe_of_def q_def)
  then have target: "runtimeBinaryPath cacheDir a = render (path_elems q @ [exe_of a])"
    by (simp add: clean_def path_elems_snoc [OF exe])
  moreover have "\<forall>e \<in> set (path_elems q @ [exe_of a]). good_elem e" using exe path_elems_good by auto
  ultimately show ?thesis
    using render_snoc [of "path_elems q" "exe_of a"] by (simp add: dir_of_def path_elems_render)
qed

definition temporary :: "string \<Rightarrow> string \<Rightarrow> bool" where
  "temporary target p \<longleftrightarrow> (\<exists>x. p = in_dir (dir_of target) (''.monty-'' @ x))"

definition install_target :: "string \<Rightarrow> artifact \<Rightarrow> bool" where
  "install_target target a \<longleftrightarrow> target = in_dir (dir_of target) (exe_of a)"

lemma temporary_not_target:
  assumes "install_target target a" and "temporary target p"
  shows "p \<noteq> target \<and> p \<noteq> target @ ''.lock''"
proof -
  define d where "d = dir_of target"
  obtain x where p: "p = in_dir d (''.monty-'' @ x)" using assms(2) by (auto simp: temporary_def d_def)
  have t: "target = in_dir d (exe_of a)" using assms(1) by (simp add: install_target_def d_def)
  have "target @ ''.lock'' = in_dir d (exe_of a @ ''.lock'')" unfolding t by (simp add: in_dir_def)
  then show ?thesis unfolding p t by (simp add: exe_of_def in_dir_def)
qed

section \<open>System calls\<close>

lemma os_get_result:
  "os_get env p w = (r, w') \<Longrightarrow> w_files w' = w_files w \<and> (\<forall>f. r = Inr f \<longrightarrow> w_files w p = Some f)"
  by (auto simp: os_get_def sys_def Let_def split: option.splits)

lemma os_nothing_result: "os_nothing env w = (r, w') \<Longrightarrow> w_files w' = w_files w"
  by (auto simp: os_nothing_def sys_def Let_def split: option.splits)

lemma os_remove_result:
  "os_remove env p w = (r, w') \<Longrightarrow>
     (r = Inr () \<and> w_files w' = (w_files w)(p := None)) \<or> (\<exists>e. r = Inl e) \<and> w_files w' = w_files w"
  by (auto simp: os_remove_def sys_def Let_def split: option.splits if_splits)

lemma os_rename_result:
  "os_rename env p q w = (r, w') \<Longrightarrow>
     (\<exists>f. r = Inr () \<and> w_files w p = Some f \<and> w_files w' = (w_files w)(p := None, q := Some f))
     \<or> (\<exists>e. r = Inl e) \<and> w_files w' = w_files w"
  by (auto simp: os_rename_def sys_def Let_def split: option.splits)

lemma os_chmod755_result:
  "os_chmod755 env p w = (r, w') \<Longrightarrow>
     (\<exists>f. r = Inr () \<and> w_files w p = Some f \<and> w_files w' = (w_files w)(p \<mapsto> f\<lparr>fi_executable := True\<rparr>))
     \<or> (\<exists>e. r = Inl e) \<and> w_files w' = w_files w"
  by (auto simp: os_chmod755_def sys_def Let_def split: option.splits)

lemma os_write_result:
  "os_write env p b w = (r, w') \<Longrightarrow>
     (\<exists>f. r = Inr () \<and> w_files w p = Some f \<and> w_files w' = (w_files w)(p \<mapsto> f\<lparr>fi_content := fi_content f @ b\<rparr>))
     \<or> (\<exists>e. r = Inl e) \<and> w_files w' = w_files w"
  by (auto simp: os_write_def sys_def Let_def split: option.splits)

lemma os_create_temp_result:
  "os_create_temp env dir pre suf w = (r, w') \<Longrightarrow>
     (\<exists>x. r = Inr (in_dir dir (pre @ x)) \<and> w_files w (in_dir dir (pre @ x)) = None
        \<and> w_files w' = (w_files w)(in_dir dir (pre @ x) \<mapsto> \<lparr>fi_content = [], fi_regular = True, fi_executable = False\<rparr>))
     \<or> (\<exists>e. r = Inl e) \<and> w_files w' = w_files w"
  by (auto simp: os_create_temp_def sys_def Let_def split: option.splits if_splits)

lemmas os_defs = bind_os_def catch_os_def error_os_def return_os_def fail_os_def pure_os_def

lemma bind_os_result:
  "bind_os m f w = (r, w') \<Longrightarrow>
     (\<exists>e. m w = (Inl e, w') \<and> r = Inl e) \<or> (\<exists>x w1. m w = (Inr x, w1) \<and> f x w1 = (r, w'))"
  by (auto simp: bind_os_def split: prod.splits sum.splits)

lemma catch_os_result:
  "catch_os m h f w = (r, w') \<Longrightarrow>
     (\<exists>e w1. m w = (Inl e, w1) \<and> h e w1 = (r, w')) \<or> (\<exists>x w1. m w = (Inr x, w1) \<and> f x w1 = (r, w'))"
  by (auto simp: catch_os_def split: prod.splits sum.splits)

lemma error_os_result:
  "error_os g m w = (r, w') \<Longrightarrow>
     (\<exists>e. m w = (Inl e, w') \<and> r = Inl (g e)) \<or> (\<exists>x. m w = (Inr x, w') \<and> r = Inr x)"
  by (auto simp: error_os_def os_defs split: prod.splits sum.splits)

lemma finally_os_result:
  "finally_os m d w = (r, w') \<Longrightarrow> \<exists>w1. m w = (r, w1) \<and> w' = snd (d w1)"
  by (auto simp: finally_os_def split: prod.splits)

section \<open>Validation\<close>

definition valid_runtime :: "os_env \<Rightarrow> artifact \<Rightarrow> os_file \<Rightarrow> bool" where
  "valid_runtime env a f \<longleftrightarrow> fi_regular f \<and> (os_goos env = ''windows'' \<or> fi_executable f)
     \<and> equal_fold (os_sha256 env (fi_content f)) (ra_binarySHA256 a)"

definition valid_at :: "os_env \<Rightarrow> artifact \<Rightarrow> system \<Rightarrow> string \<Rightarrow> bool" where
  "valid_at env a w p \<longleftrightarrow> (\<exists>f. w_files w p = Some f \<and> valid_runtime env a f)"

lemma valid_at_code [code]:
  "valid_at env a w p = (case w_files w p of None \<Rightarrow> False | Some f \<Rightarrow> valid_runtime env a f)"
  by (simp add: valid_at_def split: option.split)

lemma valid_at_same: "w_files w' p = w_files w p \<Longrightarrow> valid_at env a w' p = valid_at env a w p"
  by (simp add: valid_at_def)

lemma validate_result:
  "validateRuntimeBinary env p a w = (r, w') \<Longrightarrow> w_files w' = w_files w \<and> (r = Inr () \<longrightarrow> valid_at env a w p)"
  unfolding validateRuntimeBinary_def
  by (drule bind_os_result, elim disjE exE conjE; drule error_os_result, elim disjE exE conjE;
      drule os_get_result; simp?)
    (auto simp: os_defs valid_at_def valid_runtime_def split: prod.splits sum.splits if_splits dest!: os_nothing_result)

lemma cached_result:
  assumes "cachedRuntimeBinary env cacheDir a w = (r, w')"
  shows "w_files w' = w_files w \<and> (\<forall>path. r = Inr path \<longrightarrow>
    (\<exists>root. resolveRuntimeCacheDir env cacheDir = Inr root \<and> path = runtimeBinaryPath root a \<and> valid_at env a w path))"
proof (cases "resolveRuntimeCacheDir env cacheDir")
  case (Inl e)
  with assms show ?thesis by (auto simp: cachedRuntimeBinary_def os_defs)
next
  case (Inr root)
  obtain r1 w1 where v: "validateRuntimeBinary env (runtimeBinaryPath root a) a w = (r1, w1)" by fastforce
  have "Abs_path env (runtimeBinaryPath root a) = Inr (runtimeBinaryPath root a)"
    by (simp add: runtimeBinaryPath_def join_def)
  with assms Inr v validate_result [OF v] show ?thesis
    by (auto simp: cachedRuntimeBinary_def os_defs Let_def split: sum.splits)
qed

section \<open>One installation\<close>

text \<open>
  What an installation may do to the files: temporary files beside the target come and go, and
  the target stays as it was, is gone, or is a verified executable.
\<close>

definition installs :: "os_env \<Rightarrow> artifact \<Rightarrow> string \<Rightarrow> system \<Rightarrow> system \<Rightarrow> bool" where
  "installs env a target w w' \<longleftrightarrow>
     (\<forall>p. p \<noteq> target \<and> \<not> temporary target p \<longrightarrow> w_files w' p = w_files w p)
     \<and> (w_files w' target = w_files w target \<or> w_files w' target = None \<or> valid_at env a w' target)"

lemma installs_same: "w_files w' = w_files w \<Longrightarrow> installs env a target w w'"
  by (simp add: installs_def)

lemma installs_trans: "installs env a target w w1 \<Longrightarrow> installs env a target w1 w2 \<Longrightarrow> installs env a target w w2"
  by (auto simp: installs_def valid_at_def)

lemma installs_temporary:
  "install_target target a \<Longrightarrow> temporary target p \<Longrightarrow> (\<And>q. q \<noteq> p \<Longrightarrow> w_files w' q = w_files w q) \<Longrightarrow>
   installs env a target w w'"
  unfolding installs_def by (metis temporary_not_target)

lemma remove_installs:
  assumes "install_target target a" and "temporary target p"
  shows "installs env a target w (snd (os_remove env p w))"
proof (rule installs_temporary [OF assms])
  obtain r w' where "os_remove env p w = (r, w')" by fastforce
  then show "w_files (snd (os_remove env p w)) q = w_files w q" if "q \<noteq> p" for q
    using os_remove_result that by fastforce
qed

lemma write_file_result:
  assumes "write_file env p b broken w = (r, w')"
  shows "(\<exists>f. w_files w p = Some f \<and> w_files w' = (w_files w)(p \<mapsto> f\<lparr>fi_content := fi_content f @ b\<rparr>))
    \<or> (\<exists>e. r = Inl e) \<and> w_files w' = w_files w"
proof -
  obtain r1 w1 where 1: "os_write env p b w = (r1, w1)" by fastforce
  obtain r2 w2 where 2: "os_nothing env w1 = (r2, w2)" by fastforce
  obtain r3 w3 where 3: "os_nothing env w2 = (r3, w3)" by fastforce
  have "w' = w3" "\<exists>e. r1 = Inl e \<Longrightarrow> \<exists>e. r = Inl e"
    using assms 1 2 3 by (auto simp: write_file_def os_defs split: sum.splits prod.splits)
  moreover have "w_files w3 = w_files w1" using os_nothing_result [OF 2] os_nothing_result [OF 3] by simp
  ultimately show ?thesis using os_write_result [OF 1] by auto
qed

lemma install_file_result:
  assumes "install_file env tmp target a w = (r, w')" and "w_files w tmp = Some f" and "valid_runtime env a f"
    and "install_target target a" and "temporary target tmp"
  shows "installs env a target w w'"
proof -
  have ne: "tmp \<noteq> target" using temporary_not_target [OF assms(4,5)] by simp
  from catch_os_result [OF assms(1) [unfolded install_file_def]] consider
      (valid) u where "validateRuntimeBinary env target a w = (Inr u, w')"
    | (replace) e w1 where "validateRuntimeBinary env target a w = (Inl e, w1)"
      "bind_os (catch_os (os_remove env target)
             (\<lambda>e. if e = NotExist then return_os ()
                  else fail_os (Errorf ''replace cached Monty runtime: %w'' [AErr (path_error ''remove'' target e)]))
             return_os)
          (\<lambda>_. error_os (\<lambda>e. Errorf ''install Monty runtime: %w'' [AErr (path_error ''rename'' tmp e)])
             (os_rename env tmp target)) w1 = (r, w')"
    by (auto simp: return_os_def)
  then show ?thesis
  proof cases
    case valid
    then show ?thesis by (auto dest!: validate_result intro: installs_same)
  next
    case replace
    then have w1: "w_files w1 = w_files w" by (auto dest: validate_result)
    obtain r2 w2 where rem: "os_remove env target w1 = (r2, w2)" by fastforce
    have w2: "w_files w2 = w_files w \<or> w_files w2 = (w_files w)(target := None)"
      using os_remove_result [OF rem] w1 by auto
    obtain r3 w3 where ren: "os_rename env tmp target w2 = (r3, w3)" by fastforce
    have "w' = w2 \<or> w' = w3"
      using replace(2) rem ren by (auto simp: os_defs split: sum.splits prod.splits if_splits)
    moreover have "installs env a target w w2" using w2 by (auto simp: installs_def)
    moreover have "installs env a target w2 w3"
      using os_rename_result [OF ren] w2 assms(2,3,5) ne
      by (auto simp: installs_def valid_at_def)
    ultimately show ?thesis using installs_trans by blast
  qed
qed

lemma error_bind_Inr: "m w = (Inr x, w1) \<Longrightarrow> bind_os (error_os g m) f w = f x w1"
  and error_bind_Inl: "m w = (Inl e, w1) \<Longrightarrow> bind_os (error_os g m) f w = (Inl (g e), w1)"
  by (simp_all add: os_defs)

lemma write_temporary_result:
  assumes "write_temporary env tmp data broken n target a w = (r, w')"
    and "install_target target a" and "temporary target tmp"
    and "w_files w tmp = Some \<lparr>fi_content = [], fi_regular = True, fi_executable = False\<rparr>"
  shows "installs env a target w w'"
proof -
  note temp = installs_temporary [OF assms(2,3)]
  obtain r1 w1 where wr: "write_file env tmp data broken w = (r1, w1)" by fastforce
  have i1: "installs env a target w w1" using write_file_result [OF wr] by (intro temp) auto
  show ?thesis
  proof (cases "(\<exists>e. r1 = Inl e) \<or> int (length data) \<noteq> n \<or> \<not> equal_fold (os_sha256 env data) (ra_binarySHA256 a)")
    case True
    then have "w' = w1"
      using assms(1) wr by (cases r1) (auto simp: write_temporary_def error_bind_Inl error_bind_Inr fail_os_def split: if_splits)
    with i1 show ?thesis by simp
  next
    case False
    then obtain u where r1: "r1 = Inr u" by (cases r1) auto
    obtain r2 w2 where ch: "os_chmod755 env tmp w1 = (r2, w2)" by fastforce
    have i2: "installs env a target w1 w2" using os_chmod755_result [OF ch] by (intro temp) auto
    have step: "bind_os (error_os (\<lambda>e. Errorf ''make Monty runtime executable: %w'' [AErr (path_error ''chmod'' tmp e)])
                       (os_chmod755 env tmp)) (\<lambda>_. install_file env tmp target a) w1 = (r, w')"
      using assms(1) False wr r1 by (simp add: write_temporary_def error_bind_Inr)
    show ?thesis
    proof (cases r2)
      case (Inl e)
      then have "w' = w2" using step ch by (simp add: error_bind_Inl)
      with installs_trans [OF i1 i2] show ?thesis by simp
    next
      case (Inr u2)
      then have inst: "install_file env tmp target a w2 = (r, w')" using step ch by (simp add: error_bind_Inr)
      have "w_files w2 tmp = Some \<lparr>fi_content = data, fi_regular = True, fi_executable = True\<rparr>"
        using Inr r1 os_chmod755_result [OF ch] write_file_result [OF wr] assms(4) by auto
      from install_file_result [OF inst this _ assms(2,3)] have "installs env a target w2 w'"
        using False by (simp add: valid_runtime_def)
      with installs_trans [OF installs_trans [OF i1 i2]] show ?thesis by simp
    qed
  qed
qed

text \<open>What is done with a temporary file, and its removal at the end.\<close>

lemma with_temporary:
  assumes "install_target target a"
    and "bind_os (error_os g (os_create_temp env (dir_of target) pre suf))
           (\<lambda>tmp. finally_os (body tmp) (os_remove env tmp)) w = (r, w')"
    and "\<exists>s. pre = ''.monty-'' @ s"
    and "\<And>tmp w r w'. temporary target tmp \<Longrightarrow>
      w_files w tmp = Some \<lparr>fi_content = [], fi_regular = True, fi_executable = False\<rparr> \<Longrightarrow>
      body tmp w = (r, w') \<Longrightarrow> installs env a target w w'"
  shows "installs env a target w w'"
proof -
  obtain r0 w0 where create: "os_create_temp env (dir_of target) pre suf w = (r0, w0)" by fastforce
  show ?thesis
  proof (cases r0)
    case (Inl e)
    with create os_create_temp_result [OF create] assms(2) show ?thesis
      by (auto simp: error_bind_Inl intro: installs_same)
  next
    case (Inr tmp)
    with os_create_temp_result [OF create] have
      w0: "w_files w0 = (w_files w)(tmp \<mapsto> \<lparr>fi_content = [], fi_regular = True, fi_executable = False\<rparr>)"
      and tmp: "temporary target tmp"
      using assms(3) by (auto simp: temporary_def)
    have "finally_os (body tmp) (os_remove env tmp) w0 = (r, w')"
      using assms(2) create Inr by (simp add: error_bind_Inr)
    then obtain w4 where w4: "body tmp w0 = (r, w4)" and w': "w' = snd (os_remove env tmp w4)"
      using finally_os_result by blast
    have "installs env a target w w0" using w0 by (intro installs_temporary [OF assms(1) tmp]) simp
    moreover have "installs env a target w0 w4" by (rule assms(4) [OF tmp _ w4]) (simp add: w0)
    moreover have "installs env a target w4 w'" unfolding w' by (rule remove_installs [OF assms(1) tmp])
    ultimately show ?thesis by (blast intro: installs_trans)
  qed
qed

lemma writeRuntimeBinary_result:
  assumes "writeRuntimeBinary env source broken n target a w = (r, w')" and "install_target target a"
  shows "installs env a target w w'"
  by (rule with_temporary [OF assms(2) assms(1) [unfolded writeRuntimeBinary_def]])
    (simp, rule write_temporary_result [OF _ assms(2)])

lemma extract_member_result:
  "extract_member env items target a w = (r, w') \<Longrightarrow> install_target target a \<Longrightarrow> installs env a target w w'"
  by (induction env items target a rule: extract_member.induct)
    (auto simp: fail_os_def split: if_splits intro: installs_same writeRuntimeBinary_result)

lemma extractRuntimeArchive_result:
  assumes "extractRuntimeArchive env archivePath target a w = (r, w')" and "install_target target a"
  shows "installs env a target w w'"
proof -
  obtain r0 w0 where get: "os_get env archivePath w = (r0, w0)" by fastforce
  with os_get_result [OF get] have "installs env a target w w0" by (simp add: installs_same)
  moreover have "installs env a target w0 w'"
    using assms get
    by (cases r0) (auto simp: extractRuntimeArchive_def extractRuntimeArchiveReader_def error_bind_Inl error_bind_Inr
        fail_os_def split: sum.splits intro: installs_same extract_member_result)
  ultimately show ?thesis by (rule installs_trans)
qed

lemma save_archive_result:
  assumes "save_archive env path rsp a w = (r, w')"
  shows "\<forall>q. q \<noteq> path \<longrightarrow> w_files w' q = w_files w q"
  using assms
  by (auto simp: save_archive_def os_defs Let_def split: sum.splits option.splits if_splits prod.splits
      dest!: os_write_result os_nothing_result)

lemma downloadAndExtract_result:
  assumes "downloadAndExtractRuntime env a target w = (r, w')" and "install_target target a"
  shows "installs env a target w w'"
proof (cases "os_request env (ra_url a)")
  case (Some e)
  with assms show ?thesis by (auto simp: downloadAndExtractRuntime_def fail_os_def intro: installs_same)
next
  case None
  note request = None
  show ?thesis
  proof (cases "os_response env (ra_url a)")
    case (Inl e)
    with request assms show ?thesis by (auto simp: downloadAndExtractRuntime_def fail_os_def intro: installs_same)
  next
    case (Inr rsp)
    show ?thesis
    proof (cases "rp_status rsp = 200")
      case False
      with request Inr assms show ?thesis
        by (auto simp: downloadAndExtractRuntime_def fail_os_def intro: installs_same)
    next
      case True
      have body: "installs env a target w w'"
        if tmp: "temporary target tmp"
          and run: "bind_os (save_archive env tmp rsp a) (\<lambda>_. extractRuntimeArchive env tmp target a) w = (r, w')"
        for tmp w r w'
      proof -
        obtain r1 w1 where save: "save_archive env tmp rsp a w = (r1, w1)" by fastforce
        have "installs env a target w w1"
          using save_archive_result [OF save] by (intro installs_temporary [OF assms(2) tmp]) blast
        moreover have "installs env a target w1 w'"
          using run save by (cases r1) (auto simp: bind_os_def intro: installs_same extractRuntimeArchive_result [OF _ assms(2)])
        ultimately show ?thesis by (rule installs_trans)
      qed
      show ?thesis
      proof (rule with_temporary [OF assms(2)])
        show "bind_os (error_os (\<lambda>e. Errorf ''create Monty runtime download: %w'' [AErr (path_error ''open'' (dir_of target) e)])
                (os_create_temp env (dir_of target) ''.monty-'' ''.tgz''))
              (\<lambda>tmp. finally_os (bind_os (save_archive env tmp rsp a) (\<lambda>_. extractRuntimeArchive env tmp target a))
                 (os_remove env tmp)) w = (r, w')"
          using assms(1) request Inr True by (simp add: downloadAndExtractRuntime_def)
      qed (simp, rule body)
    qed
  qed
qed

section \<open>The whole installation\<close>

lemma resolve_resolved: "resolveRuntimeCacheDir env e = Inr c \<Longrightarrow> resolveRuntimeCacheDir env c = Inr c"
proof -
  assume "resolveRuntimeCacheDir env e = Inr c"
  then obtain p where "(case Abs_path env p of
      Inl e \<Rightarrow> Inl (Errorf ''resolve Monty runtime cache %q: %w'' [AStr p, AErr e]) | Inr q \<Rightarrow> Inr q) = Inr c"
    unfolding resolveRuntimeCacheDir_def Let_def bind_res_eq_Inr by blast
  then have "Abs_path env p = Inr c" by (cases "Abs_path env p") simp_all
  then obtain q where c: "c = clean q" by (auto simp: Abs_path_def bind_res_eq_Inr split: if_splits)
  then show ?thesis using clean_absolute [of q] by (simp add: resolveRuntimeCacheDir_def Let_def)
qed

lemma cached_resolved:
  assumes "resolveRuntimeCacheDir env c = Inr c" and "cachedRuntimeBinary env c a w = (r, w')"
  shows "w_files w' = w_files w \<and> (\<forall>path. r = Inr path \<longrightarrow> path = runtimeBinaryPath c a \<and> valid_at env a w' path)"
  using cached_result [OF assms(2)] assms(1) by (auto simp: valid_at_def)

lemma locked_install_result:
  assumes "locked_install env option1 a c target w = (r, w')" and "resolveRuntimeCacheDir env c = Inr c"
    and "target = runtimeBinaryPath c a"
  shows "installs env a target w w' \<and> (\<forall>path. r = Inr path \<longrightarrow> path = target \<and> valid_at env a w' path)"
proof -
  have it: "install_target target a" unfolding install_target_def assms(3) by (rule target_in_dir)
  define install where "install = bind_os (downloadAndExtractRuntime env a target) (\<lambda>_.
            error_os (\<lambda>e. Errorf ''verify installed Monty runtime: %w'' [AErr e]) (cachedRuntimeBinary env c a))"
  have install: "installs env a target w w' \<and> (\<forall>path. r = Inr path \<longrightarrow> path = target \<and> valid_at env a w' path)"
    if run: "install w = (r, w')" for w r w'
  proof -
    obtain r1 w1 where d: "downloadAndExtractRuntime env a target w = (r1, w1)" by fastforce
    note i1 = downloadAndExtract_result [OF d it]
    obtain r2 w2 where v: "cachedRuntimeBinary env c a w1 = (r2, w2)" by fastforce
    note c = cached_resolved [OF assms(2) v]
    have "(\<exists>e. r = Inl e) \<and> w' = w1 \<or> w' = w2 \<and> (\<forall>path. r = Inr path \<longrightarrow> r2 = Inr path)"
      using run d v by (auto simp: install_def os_defs split: sum.splits)
    moreover have "installs env a target w w2" using c by (intro installs_trans [OF i1] installs_same) simp
    ultimately show ?thesis using i1 c assms(3) by auto
  qed
  show ?thesis
  proof (cases "io_Force option1")
    case True
    then show ?thesis using assms(1) install by (simp add: locked_install_def install_def Let_def)
  next
    case False
    obtain r2 w2 where v: "cachedRuntimeBinary env c a w = (r2, w2)" by fastforce
    note c = cached_resolved [OF assms(2) v]
    show ?thesis
    proof (cases r2)
      case (Inl e)
      with False v assms(1) have "install w2 = (r, w')"
        by (simp add: locked_install_def install_def catch_os_def Let_def)
      from install [OF this] c show ?thesis by (blast intro: installs_trans installs_same)
    next
      case (Inr path)
      with False v assms(1) have "w' = w2" "r = r2" by (simp_all add: locked_install_def catch_os_def return_os_def Let_def)
      with c assms(3) show ?thesis by (auto intro: installs_same)
    qed
  qed
qed

text \<open>The lock file of the target, besides what the installation itself changes.\<close>

definition install_effect :: "os_env \<Rightarrow> artifact \<Rightarrow> string \<Rightarrow> system \<Rightarrow> system \<Rightarrow> bool" where
  "install_effect env a target w w' \<longleftrightarrow>
     (\<forall>p. p \<noteq> target \<and> p \<noteq> target @ ''.lock'' \<and> \<not> temporary target p \<longrightarrow> w_files w' p = w_files w p)
     \<and> (w_files w' target = w_files w target \<or> w_files w' target = None \<or> valid_at env a w' target)"

lemma same_effect: "w_files w' = w_files w \<Longrightarrow> install_effect env a target w w'"
  by (simp add: install_effect_def)

lemma with_lock_result:
  assumes "with_lock env option1 a c target w = (r, w')" and "resolveRuntimeCacheDir env c = Inr c"
    and "target = runtimeBinaryPath c a"
  shows "install_effect env a target w w' \<and> (\<forall>path. r = Installed (Inr path) \<longrightarrow> path = target \<and> valid_at env a w' path)"
proof -
  obtain r0 w0 where mk: "os_nothing env w = (r0, w0)" by fastforce
  note w0 = os_nothing_result [OF mk]
  obtain lr as where lock: "acquireInstallLock (os_goos env = ''windows'') (target @ ''.lock'') None (w_attempts w0) = (lr, as)"
    by fastforce
  show ?thesis
  proof (cases "r0 = Inr () \<and> lr = Locked")
    case False
    then have "w_files w' = w_files w \<and> (\<forall>path. r \<noteq> Installed (Inr path))"
      using assms(1) mk lock w0
      by (cases r0; cases lr) (auto simp: with_lock_def error_os_def os_defs)
    then show ?thesis by (simp add: same_effect)
  next
    case True
    define w1 where "w1 = take_lock env (target @ ''.lock'') (w0\<lparr>w_attempts := as\<rparr>)"
    obtain r2 w2 where run: "locked_install env option1 a c target w1 = (r2, w2)" by fastforce
    obtain r3 w3 where rel: "os_remove env (target @ ''.lock'') w2 = (r3, w3)" by fastforce
    have res: "r = Installed r2" "w' = w3"
      using assms(1) mk lock True run rel
      by (auto simp: with_lock_def error_os_def os_defs finally_os_def w1_def)
    have "w_files w1 p = w_files w p" if "p \<noteq> target @ ''.lock''" for p
      using that w0 by (simp add: w1_def take_lock_def)
    moreover have "w_files w3 p = w_files w2 p" if "p \<noteq> target @ ''.lock''" for p
      using that os_remove_result [OF rel] by auto
    ultimately show ?thesis
      using locked_install_result [OF run assms(2,3)] res by (auto simp: install_effect_def installs_def valid_at_def)
  qed
qed

lemma installRuntime_result:
  assumes "installRuntime env option1 a w = (r, w')" and "resolveRuntimeCacheDir env (io_CacheDir option1) = Inr c"
    and "target = runtimeBinaryPath c a"
  shows "install_effect env a target w w' \<and> (\<forall>path. r = Installed (Inr path) \<longrightarrow> path = target \<and> valid_at env a w' path)"
proof -
  note c = resolve_resolved [OF assms(2)]
  show ?thesis
  proof (cases "io_Force option1")
    case True
    with assms(1-3) have "with_lock env option1 a c target w = (r, w')" by (simp add: installRuntime_def Let_def)
    from with_lock_result [OF this c assms(3)] show ?thesis .
  next
    case False
    obtain r1 w1 where v: "cachedRuntimeBinary env c a w = (r1, w1)" by fastforce
    note cached = cached_resolved [OF c v]
    show ?thesis
    proof (cases r1)
      case (Inl e)
      with False assms v have "with_lock env option1 a c target w1 = (r, w')" by (simp add: installRuntime_def Let_def)
      from with_lock_result [OF this c assms(3)] cached show ?thesis by (auto simp: install_effect_def)
    next
      case (Inr path)
      with False assms v have "r = Installed (Inr path)" "w' = w1" by (auto simp: installRuntime_def Let_def)
      with cached Inr assms(3) show ?thesis by (auto intro: same_effect)
    qed
  qed
qed

section \<open>Finding the executable\<close>

definition executable_at :: "os_env \<Rightarrow> system \<Rightarrow> string \<Rightarrow> bool" where
  "executable_at env w p \<longleftrightarrow>
     (\<exists>f. w_files w p = Some f \<and> fi_regular f \<and> (os_goos env = ''windows'' \<or> fi_executable f))"

lemma executable_at_code [code]:
  "executable_at env w p = (case w_files w p of None \<Rightarrow> False
     | Some f \<Rightarrow> fi_regular f \<and> (os_goos env = ''windows'' \<or> fi_executable f))"
  by (simp add: executable_at_def split: option.split)

lemma executableFile_result:
  "executableFile env p src w = (r, w') \<Longrightarrow> w_files w' = w_files w
     \<and> (\<forall>q. r = Inr q \<longrightarrow> executable_at env w p \<and> Abs_path env p = Inr q)"
  by (auto simp: executableFile_def executable_at_def os_defs split: sum.splits prod.splits if_splits dest!: os_get_result)

text \<open>Where a result of the search can come from.\<close>

definition found :: "os_env \<Rightarrow> system \<Rightarrow> string \<Rightarrow> bool" where
  "found env w q \<longleftrightarrow> os_lookPath env = Inr q \<or> (\<exists>p. Abs_path env p = Inr q \<and> executable_at env w p)"

lemma found_same: "w_files w' = w_files w \<Longrightarrow> found env w' q = found env w q"
  by (simp add: found_def executable_at_def)

definition searches :: "os_env \<Rightarrow> (go_error, string) os \<Rightarrow> bool" where
  "searches env m \<longleftrightarrow> (\<forall>w r w'. m w = (r, w') \<longrightarrow> w_files w' = w_files w \<and> (\<forall>q. r = Inr q \<longrightarrow> found env w q))"

lemma searches_executable: "searches env (executableFile env p src)"
  unfolding searches_def found_def using executableFile_result by blast

lemma searches_fail [simp]: "searches env (fail_os e)"
  by (simp add: searches_def fail_os_def)

lemma searches_catch:
  assumes "searches env m" and "\<And>e. searches env (h e)"
  shows "searches env (catch_os m h return_os)"
  unfolding searches_def
proof (intro allI impI)
  fix w r w'
  assume "catch_os m h return_os w = (r, w')"
  from catch_os_result [OF this] show "w_files w' = w_files w \<and> (\<forall>q. r = Inr q \<longrightarrow> found env w q)"
    using assms found_same unfolding searches_def return_os_def by (metis prod.inject)
qed

lemma searches_first: "searches env (first_executable env cs e)"
  by (induction cs) (auto intro!: searches_catch searches_executable)

lemma searches_cached: "searches env (cachedRuntimeBinary env c a)"
  unfolding searches_def
proof (intro allI impI)
  fix w r w'
  assume "cachedRuntimeBinary env c a w = (r, w')"
  from cached_result [OF this] show "w_files w' = w_files w \<and> (\<forall>q. r = Inr q \<longrightarrow> found env w q)"
    by (fastforce simp: found_def executable_at_def valid_at_def valid_runtime_def runtimeBinaryPath_def join_def
        intro: Abs_path_clean)
qed

lemma findBinary_searches: "searches env (findBinary env explicit cacheDir)"
proof -
  have up: "searches env (search_up env x)" for x
    by (simp add: search_up_def searches_first split: sum.split)
  have "searches env (search_path env x)" for x
    using up by (auto simp: search_path_def searches_def return_os_def found_def split: sum.split)
  then have "searches env (search_cache env cacheDir)"
    by (auto simp: search_cache_def intro!: searches_catch searches_cached split: sum.split)
  then show ?thesis
    by (auto simp: findBinary_def Let_def intro!: searches_catch searches_executable)
qed

end
