(* ===== verification/Find_Facts.thy ===== *)
theory Find_Facts
  imports Installer_Facts
begin

text \<open>
  The search for the executable against the list of places where it can be, in order, when no
  system call fails; and the way of \<open>New\<close> to its executable.
\<close>

section \<open>System calls that do not fail\<close>

definition no_faults :: "os_env \<Rightarrow> bool" where
  "no_faults env \<longleftrightarrow> (\<forall>n. os_fault env n = None)"

abbreviation tick :: "system \<Rightarrow> system" where
  "tick w \<equiv> w\<lparr>w_calls := Suc (w_calls w)\<rparr>"

lemma sys_ok:
  "no_faults env \<Longrightarrow> sys env f w = (case f (w_calls w) (w_files w) of
     Inl e \<Rightarrow> (Inl e, tick w) | Inr (x, fs) \<Rightarrow> (Inr x, (tick w)\<lparr>w_files := fs\<rparr>))"
  by (simp add: sys_def no_faults_def Let_def)

lemma os_get_ok:
  "no_faults env \<Longrightarrow> os_get env p w = (case w_files w p of None \<Rightarrow> Inl NotExist | Some f \<Rightarrow> Inr f, tick w)"
  by (simp add: os_get_def sys_ok split: option.split)

lemma os_nothing_ok: "no_faults env \<Longrightarrow> os_nothing env w = (Inr (), tick w)"
  by (simp add: os_nothing_def sys_ok)

lemma validate_complete:
  assumes "no_faults env" and "validateRuntimeBinary env p a w = (r, w')"
  shows "r = Inr () \<longleftrightarrow> valid_at env a w p"
proof (cases "w_files w p")
  case None
  with assms show ?thesis
    by (auto simp: validateRuntimeBinary_def os_defs os_get_ok valid_at_def)
next
  case (Some f)
  with assms show ?thesis
    by (auto simp: validateRuntimeBinary_def os_defs os_get_ok os_nothing_ok valid_at_def valid_runtime_def split: if_splits)
qed

section \<open>Places\<close>

definition executable_paths :: "os_env \<Rightarrow> system \<Rightarrow> string \<Rightarrow> string list" where
  "executable_paths env w p =
     (case Abs_path env p of Inl _ \<Rightarrow> [] | Inr q \<Rightarrow> if executable_at env w p then [q] else [])"

definition cached_paths :: "os_env \<Rightarrow> string \<Rightarrow> system \<Rightarrow> string list" where
  "cached_paths env cacheDir w =
     (case currentRuntimeArtifact env of Inl _ \<Rightarrow> []
      | Inr a \<Rightarrow> (case resolveRuntimeCacheDir env cacheDir of Inl _ \<Rightarrow> []
          | Inr dir \<Rightarrow> if valid_at env a w (runtimeBinaryPath dir a) then [runtimeBinaryPath dir a] else []))"

definition nearby_paths :: "os_env \<Rightarrow> system \<Rightarrow> string list" where
  "nearby_paths env w =
     (case os_cwd env of Inl _ \<Rightarrow> []
      | Inr cwd \<Rightarrow> concat (map (executable_paths env w \<circ> fst)
          (concat (map (candidates env) (ancestors (rev (path_elems cwd)))))))"

definition search_places :: "os_env \<Rightarrow> string \<Rightarrow> system \<Rightarrow> string list" where
  "search_places env cacheDir w =
     (if os_getenv env ''MONTY_BIN'' = [] then [] else executable_paths env w (os_getenv env ''MONTY_BIN''))
     @ cached_paths env cacheDir w
     @ (case os_lookPath env of Inl _ \<Rightarrow> [] | Inr p \<Rightarrow> [p])
     @ nearby_paths env w"

section \<open>A search that answers with the first place\<close>

definition first_of :: "string list \<Rightarrow> go_error + string \<Rightarrow> bool" where
  "first_of qs r \<longleftrightarrow> (case qs of [] \<Rightarrow> \<exists>e. r = Inl e | q # _ \<Rightarrow> r = Inr q)"

definition gives :: "system \<Rightarrow> (go_error, string) os \<Rightarrow> string list \<Rightarrow> bool" where
  "gives w m qs \<longleftrightarrow> (\<forall>w1 r w'. w_files w1 = w_files w \<and> m w1 = (r, w') \<longrightarrow> w_files w' = w_files w \<and> first_of qs r)"

lemma givesD:
  "gives w m qs \<Longrightarrow> w_files w1 = w_files w \<Longrightarrow> m w1 = (r, w') \<Longrightarrow> w_files w' = w_files w \<and> first_of qs r"
  unfolding gives_def by blast

lemma gives_fail [intro]: "gives w (fail_os e) []"
  by (simp add: gives_def fail_os_def first_of_def)

lemma gives_return: "gives w (return_os q) (q # qs)"
  by (simp add: gives_def return_os_def first_of_def)

lemma gives_catch:
  assumes "gives w m qs" and "\<And>e. gives w (h e) qs'"
  shows "gives w (catch_os m h return_os) (qs @ qs')"
  unfolding gives_def
proof (intro allI impI, elim conjE)
  fix w1 r w'
  assume w1: "w_files w1 = w_files w" and run: "catch_os m h return_os w1 = (r, w')"
  obtain r2 w2 where m: "m w1 = (r2, w2)" by fastforce
  with givesD [OF assms(1) w1] have w2: "w_files w2 = w_files w" "first_of qs r2" by blast+
  show "w_files w' = w_files w \<and> first_of (qs @ qs') r"
  proof (cases r2)
    case (Inl e)
    with w2 have "qs = []" by (cases qs) (simp_all add: first_of_def)
    moreover have "h e w2 = (r, w')" using run m Inl by (simp add: catch_os_def)
    ultimately show ?thesis using givesD [OF assms(2) w2(1)] by simp
  next
    case (Inr q)
    with run m have "r = Inr q" "w' = w2" by (simp_all add: catch_os_def return_os_def)
    with w2 Inr show ?thesis by (cases qs) (simp_all add: first_of_def)
  qed
qed

lemma gives_executable:
  assumes "no_faults env"
  shows "gives w (executableFile env p src) (executable_paths env w p)"
  unfolding gives_def
proof (intro allI impI, elim conjE)
  fix w1 r w'
  assume "w_files w1 = w_files w" and "executableFile env p src w1 = (r, w')"
  then show "w_files w' = w_files w \<and> first_of (executable_paths env w p) r"
    using assms by (auto simp: executableFile_def os_defs os_get_ok first_of_def executable_paths_def executable_at_def
        split: option.splits if_splits sum.splits)
qed

lemma gives_cached:
  assumes "no_faults env" and "currentRuntimeArtifact env = Inr a"
  shows "gives w (cachedRuntimeBinary env cacheDir a) (cached_paths env cacheDir w)"
  unfolding gives_def
proof (intro allI impI, elim conjE)
  fix w1 r w'
  assume w1: "w_files w1 = w_files w" and run: "cachedRuntimeBinary env cacheDir a w1 = (r, w')"
  note same = cached_result [OF run]
  have "first_of (cached_paths env cacheDir w) r"
  proof (cases "resolveRuntimeCacheDir env cacheDir")
    case (Inl e)
    with assms(2) have "cached_paths env cacheDir w = []" by (simp add: cached_paths_def)
    moreover have "r = Inl e" using run Inl by (simp add: cachedRuntimeBinary_def os_defs)
    ultimately show ?thesis by (simp add: first_of_def)
  next
    case (Inr dir)
    let ?p = "runtimeBinaryPath dir a"
    obtain r1 w2 where v: "validateRuntimeBinary env ?p a w1 = (r1, w2)" by fastforce
    have "Abs_path env ?p = Inr ?p" by (simp add: runtimeBinaryPath_def join_def)
    moreover have "r1 = Inr () \<longleftrightarrow> valid_at env a w ?p"
      using validate_complete [OF assms(1) v] w1 by (simp add: valid_at_def)
    ultimately show ?thesis
      using run v Inr assms(2)
      by (cases r1) (auto simp: cachedRuntimeBinary_def os_defs Let_def first_of_def cached_paths_def)
  qed
  with same w1 show "w_files w' = w_files w \<and> first_of (cached_paths env cacheDir w) r" by simp
qed

lemma gives_first:
  assumes "no_faults env"
  shows "gives w (first_executable env cs e) (concat (map (executable_paths env w \<circ> fst) cs))"
proof (induction cs)
  case (Cons c cs)
  obtain p src where "c = (p, src)" by fastforce
  with gives_catch [OF gives_executable [OF assms] Cons.IH] show ?case by simp
qed (simp add: gives_fail)

lemma gives_search_up: "no_faults env \<Longrightarrow> gives w (search_up env x) (nearby_paths env w)"
  using gives_first [of env w] by (simp add: search_up_def nearby_paths_def gives_fail split: sum.split)

lemma gives_search_path:
  "no_faults env \<Longrightarrow> gives w (search_path env x) ((case os_lookPath env of Inl _ \<Rightarrow> [] | Inr p \<Rightarrow> [p]) @ nearby_paths env w)"
  by (simp add: search_path_def gives_search_up gives_return split: sum.split)

lemma gives_search_cache:
  assumes "no_faults env"
  shows "gives w (search_cache env cacheDir)
    (cached_paths env cacheDir w @ (case os_lookPath env of Inl _ \<Rightarrow> [] | Inr p \<Rightarrow> [p]) @ nearby_paths env w)"
proof (cases "currentRuntimeArtifact env")
  case (Inl e)
  with gives_search_path [OF assms] show ?thesis by (simp add: search_cache_def cached_paths_def)
next
  case (Inr a)
  from gives_catch [OF gives_cached [OF assms Inr] gives_search_path [OF assms]]
  show ?thesis unfolding search_cache_def Inr by simp
qed

lemma findBinary_gives:
  assumes "no_faults env"
  shows "gives w (findBinary env [] cacheDir) (search_places env cacheDir w)"
proof (cases "os_getenv env ''MONTY_BIN'' = []")
  case True
  with gives_search_cache [OF assms] show ?thesis unfolding findBinary_def search_places_def Let_def by simp
next
  case False
  from gives_catch [OF gives_executable [OF assms] gives_search_cache [OF assms]] False
  show ?thesis unfolding findBinary_def search_places_def Let_def by (simp only: if_True if_False simp_thms)
qed

lemma findBinary_first:
  assumes "no_faults env" and "findBinary env [] cacheDir w = (r, w')"
  shows "first_of (search_places env cacheDir w) r"
  using givesD [OF findBinary_gives [OF assms(1)] refl assms(2)] by simp

section \<open>The tries at the lock are left alone\<close>

definition no_tries :: "('e, 'a) os \<Rightarrow> bool" where
  "no_tries m \<longleftrightarrow> (\<forall>w. w_attempts (snd (m w)) = w_attempts w)"

lemma no_tries_intros [intro!]:
  "no_tries (return_os x)" "no_tries (fail_os e)" "no_tries (pure_os r)" "no_tries (sys env f)"
  "no_tries m \<Longrightarrow> (\<And>x. no_tries (k x)) \<Longrightarrow> no_tries (bind_os m k)"
  "no_tries m \<Longrightarrow> (\<And>e. no_tries (h e)) \<Longrightarrow> (\<And>x. no_tries (k' x)) \<Longrightarrow> no_tries (catch_os m h k')"
  by (auto simp: no_tries_def os_defs sys_def Let_def split: sum.split option.split prod.split) (metis snd_conv)+

lemma no_tries_error [intro!]: "no_tries m \<Longrightarrow> no_tries (error_os g m)"
  unfolding error_os_def by blast

lemma no_tries_validate [intro!]: "no_tries (validateRuntimeBinary env p a)"
  by (auto simp: validateRuntimeBinary_def os_get_def os_nothing_def)

lemma no_tries_cached [intro!]: "no_tries (cachedRuntimeBinary env c a)"
  by (auto simp: cachedRuntimeBinary_def Let_def)

lemma no_tries_executable [intro!]: "no_tries (executableFile env p src)"
  by (auto simp: executableFile_def os_get_def)

lemma no_tries_first [intro!]: "no_tries (first_executable env cs e)"
  by (induction cs) auto

lemma no_tries_find: "no_tries (findBinary env explicit c)"
proof -
  have "no_tries (search_path env x)" for x
    by (auto simp: search_path_def search_up_def split: sum.split)
  then have "no_tries (search_cache env c)" by (auto simp: search_cache_def split: sum.split)
  then show ?thesis by (auto simp: findBinary_def Let_def)
qed

section \<open>The executable of a pool\<close>

lemma Install_runtime:
  assumes "Install env cancelled [opt] w = (Installed (Inr path), w')"
  shows "\<exists>a. currentRuntimeArtifact env = Inr a \<and> installRuntime env opt a w = (Installed (Inr path), w')"
  using assms by (auto simp: Install_def split: option.splits sum.splits)

lemma installRuntime_resolves:
  assumes "installRuntime env opt a w = (Installed (Inr path), w')"
  shows "\<exists>c. resolveRuntimeCacheDir env (io_CacheDir opt) = Inr c"
  using assms by (auto simp: installRuntime_def split: sum.splits)

lemma New_executable_cases:
  assumes "New_executable env cancelled o1 cacheDir w = (Installed (Inr path), w')"
  shows "found env w path \<or> (\<exists>a. currentRuntimeArtifact env = Inr a \<and> valid_at env a w' path)"
proof -
  obtain r1 w1 where f: "findBinary env (pl_BinaryPath o1) cacheDir w = (r1, w1)" by fastforce
  show ?thesis
  proof (cases r1)
    case (Inr b)
    with assms f have "r1 = Inr path" by (simp add: New_executable_def)
    with findBinary_searches f show ?thesis unfolding searches_def by blast
  next
    case (Inl e)
    with assms f have "Install env cancelled [\<lparr>io_CacheDir = cacheDir, io_Force = False\<rparr>] w1 = (Installed (Inr path), w')"
      by (simp add: New_executable_def split: if_splits)
    from Install_runtime [OF this] obtain a where a: "currentRuntimeArtifact env = Inr a"
      "installRuntime env \<lparr>io_CacheDir = cacheDir, io_Force = False\<rparr> a w1 = (Installed (Inr path), w')" by blast
    with installRuntime_resolves [OF a(2)] installRuntime_result [OF a(2) _ refl] show ?thesis by fastforce
  qed
qed

text \<open>It is the choice \<open>New_binary\<close> of \<open>Pool\<close>, on the results of the search and of the installation.\<close>

lemma New_executable_binary:
  assumes "New_executable env cancelled o1 cacheDir w = (Installed r, w')"
  shows "\<exists>installed. r = New_binary o1 (fst (findBinary env (pl_BinaryPath o1) cacheDir w)) installed"
proof -
  obtain r1 w1 where f: "findBinary env (pl_BinaryPath o1) cacheDir w = (r1, w1)" by fastforce
  with assms show ?thesis by (cases r1) (auto simp: New_executable_def New_binary_def split: if_splits)
qed

end
