(* ===== verification/Install_Success.thy ===== *)
theory Install_Success
  imports Find_Facts
begin

text \<open>
  An installation succeeds, and leaves nothing behind, when no system call fails, the server sends
  the expected archive, and the lock is obtained.
\<close>

section \<open>System calls that do not fail\<close>

lemma os_remove_ok:
  "no_faults env \<Longrightarrow> os_remove env p w =
     (if w_files w p = None then (Inl NotExist, tick w) else (Inr (), (tick w)\<lparr>w_files := (w_files w)(p := None)\<rparr>))"
  by (simp add: os_remove_def sys_ok)

lemma os_remove_files: "no_faults env \<Longrightarrow> w_files (snd (os_remove env p w)) = (w_files w)(p := None)"
  by (auto simp: os_remove_ok)

lemma os_rename_ok:
  "no_faults env \<Longrightarrow> w_files w p = Some f \<Longrightarrow>
     os_rename env p q w = (Inr (), (tick w)\<lparr>w_files := (w_files w)(p := None, q := Some f)\<rparr>)"
  by (simp add: os_rename_def sys_ok)

lemma os_chmod755_ok:
  "no_faults env \<Longrightarrow> w_files w p = Some f \<Longrightarrow>
     os_chmod755 env p w = (Inr (), (tick w)\<lparr>w_files := (w_files w)(p \<mapsto> f\<lparr>fi_executable := True\<rparr>)\<rparr>)"
  by (simp add: os_chmod755_def sys_ok)

lemma os_write_ok:
  "no_faults env \<Longrightarrow> w_files w p = Some f \<Longrightarrow>
     os_write env p b w = (Inr (), (tick w)\<lparr>w_files := (w_files w)(p \<mapsto> f\<lparr>fi_content := fi_content f @ b\<rparr>)\<rparr>)"
  by (simp add: os_write_def sys_ok)

definition empty_file :: os_file where
  "empty_file = \<lparr>fi_content = [], fi_regular = True, fi_executable = False\<rparr>"

lemma os_create_temp_ok:
  assumes "no_faults env" and "p = in_dir dir (pre @ os_random env (w_calls w) @ suf)" and "w_files w p = None"
  shows "os_create_temp env dir pre suf w = (Inr p, (tick w)\<lparr>w_files := (w_files w)(p \<mapsto> empty_file)\<rparr>)"
  using assms by (simp add: os_create_temp_def sys_ok Let_def empty_file_def)

section \<open>The executable is put in place\<close>

text \<open>Everything but the target is as before.\<close>

definition puts :: "os_env \<Rightarrow> artifact \<Rightarrow> string \<Rightarrow> files \<Rightarrow> system \<Rightarrow> bool" where
  "puts env a target fs w' \<longleftrightarrow> valid_at env a w' target \<and> (\<forall>p. p \<noteq> target \<longrightarrow> w_files w' p = fs p)"

lemma install_file_ok:
  assumes "no_faults env" and "w_files w tmp = Some f" and "valid_runtime env a f" and "tmp \<noteq> target"
  shows "\<exists>w'. install_file env tmp target a w = (Inr (), w') \<and> valid_at env a w' target
    \<and> (\<forall>p. p \<noteq> target \<and> p \<noteq> tmp \<longrightarrow> w_files w' p = w_files w p)"
proof -
  obtain r1 w1 where v: "validateRuntimeBinary env target a w = (r1, w1)" by fastforce
  note files = validate_result [OF v] and complete = validate_complete [OF assms(1) v]
  show ?thesis
  proof (cases r1)
    case (Inr u)
    with v files show ?thesis
      by (intro exI [of _ w1]) (simp add: install_file_def catch_os_def return_os_def valid_at_def)
  next
    case (Inl e)
    obtain r2 w2 where rem: "os_remove env target w1 = (r2, w2)" by fastforce
    have r2: "r2 = Inl NotExist \<or> r2 = Inr ()" and w2: "w_files w2 = (w_files w)(target := None)"
      using rem files os_remove_files [OF assms(1), of target w1] by (auto simp: os_remove_ok [OF assms(1)] split: if_splits)
    have ren: "os_rename env tmp target w2 = (Inr (), (tick w2)\<lparr>w_files := (w_files w2)(tmp := None, target := Some f)\<rparr>)"
      using assms w2 by (simp add: os_rename_ok)
    have "install_file env tmp target a w = (Inr (), (tick w2)\<lparr>w_files := (w_files w2)(tmp := None, target := Some f)\<rparr>)"
      using v Inl rem r2 ren by (auto simp: install_file_def os_defs)
    with assms w2 show ?thesis by (simp add: valid_at_def)
  qed
qed

lemma write_file_ok:
  assumes "no_faults env" and "w_files w p = Some f"
  shows "\<exists>w'. write_file env p b None w = (Inr (), w')
    \<and> w_files w' = (w_files w)(p \<mapsto> f\<lparr>fi_content := fi_content f @ b\<rparr>)"
  using assms by (simp add: write_file_def error_os_def os_defs os_write_ok os_nothing_ok)

lemma write_temporary_ok:
  assumes "no_faults env" and "w_files w tmp = Some empty_file" and "tmp \<noteq> target"
    and "int (length data) = n" and "equal_fold (os_sha256 env data) (ra_binarySHA256 a)"
  shows "\<exists>w'. write_temporary env tmp data None n target a w = (Inr (), w') \<and> valid_at env a w' target
    \<and> (\<forall>p. p \<noteq> target \<and> p \<noteq> tmp \<longrightarrow> w_files w' p = w_files w p)"
proof -
  obtain w1 where w1: "write_file env tmp data None w = (Inr (), w1)"
    "w_files w1 = (w_files w)(tmp \<mapsto> empty_file\<lparr>fi_content := data\<rparr>)"
    using write_file_ok [OF assms(1,2), of data] by (auto simp: empty_file_def)
  let ?f = "empty_file\<lparr>fi_content := data, fi_executable := True\<rparr>"
  let ?w2 = "(tick w1)\<lparr>w_files := (w_files w1)(tmp \<mapsto> ?f)\<rparr>"
  have ch: "os_chmod755 env tmp w1 = (Inr (), ?w2)"
    using w1 assms(1) by (simp add: os_chmod755_ok)
  have "valid_runtime env a ?f" using assms(5) by (simp add: valid_runtime_def empty_file_def)
  with install_file_ok [OF assms(1) _ _ assms(3), of ?w2 ?f a] obtain w' where
    "install_file env tmp target a ?w2 = (Inr (), w')" "valid_at env a w' target"
    "\<forall>p. p \<noteq> target \<and> p \<noteq> tmp \<longrightarrow> w_files w' p = w_files w1 p" by auto
  with w1 ch assms(4,5) show ?thesis
    by (intro exI [of _ w']) (simp add: write_temporary_def error_bind_Inr)
qed

text \<open>The names that \<open>CreateTemp\<close> makes up are new; they differ in decimal digits.\<close>

definition fresh_names :: "os_env \<Rightarrow> string \<Rightarrow> files \<Rightarrow> bool" where
  "fresh_names env target fs \<longleftrightarrow> (\<forall>n.
     set (os_random env n) \<subseteq> set ''0123456789''
     \<and> fs (in_dir (dir_of target) (''.monty-runtime-'' @ os_random env n)) = None
     \<and> fs (in_dir (dir_of target) (''.monty-'' @ os_random env n @ ''.tgz'')) = None)"

lemma temporaries:
  "temporary target (in_dir (dir_of target) (''.monty-runtime-'' @ x))"
  "temporary target (in_dir (dir_of target) (''.monty-'' @ x))"
  unfolding temporary_def by (rule exI [of _ "''runtime-'' @ x"], simp) (rule exI [of _ x], simp)

lemma names_differ:
  assumes "set r \<subseteq> set ''0123456789''"
  shows "in_dir d (''.monty-runtime-'' @ x) \<noteq> in_dir d (''.monty-'' @ r @ ''.tgz'')"
  using assms by (cases r) (auto simp: in_dir_def)

lemma writeRuntimeBinary_ok:
  assumes "no_faults env" and "install_target target a" and "length data \<le> maxRuntimeBinarySize"
    and "\<And>n. w_files w (in_dir (dir_of target) (''.monty-runtime-'' @ os_random env n)) = None"
    and "equal_fold (os_sha256 env data) (ra_binarySHA256 a)"
  shows "\<exists>w'. writeRuntimeBinary env data None (int (length data)) target a w = (Inr (), w') \<and> puts env a target (w_files w) w'"
proof -
  define tmp where "tmp = in_dir (dir_of target) (''.monty-runtime-'' @ os_random env (w_calls w))"
  have ne: "tmp \<noteq> target" unfolding tmp_def using temporary_not_target [OF assms(2) temporaries(1)] by blast
  let ?w1 = "(tick w)\<lparr>w_files := (w_files w)(tmp \<mapsto> empty_file)\<rparr>"
  have create: "os_create_temp env (dir_of target) ''.monty-runtime-'' [] w = (Inr tmp, ?w1)"
    by (rule os_create_temp_ok [OF assms(1)]) (simp_all only: tmp_def append_Nil2 assms(4))
  obtain w2 where w2: "write_temporary env tmp data None (int (length data)) target a ?w1 = (Inr (), w2)"
    "valid_at env a w2 target" "\<forall>p. p \<noteq> target \<and> p \<noteq> tmp \<longrightarrow> w_files w2 p = w_files ?w1 p"
    using write_temporary_ok [OF assms(1) _ ne refl assms(5), of ?w1] by auto
  obtain w3 where w3: "snd (os_remove env tmp w2) = w3" by simp
  then have "w_files w3 = (w_files w2)(tmp := None)" using os_remove_files [OF assms(1)] by metis
  moreover have "w_files w tmp = None" using assms(4) by (simp add: tmp_def)
  ultimately have "puts env a target (w_files w) w3" using w2(2,3) ne by (auto simp: puts_def valid_at_def)
  moreover have "writeRuntimeBinary env data None (int (length data)) target a w = (Inr (), w3)"
    using create w2(1) w3 assms(3) by (simp add: writeRuntimeBinary_def error_bind_Inr finally_os_def)
  ultimately show ?thesis by blast
qed

section \<open>The archive is downloaded and unpacked\<close>

definition expected_archive :: "os_env \<Rightarrow> artifact \<Rightarrow> bytes \<Rightarrow> bool" where
  "expected_archive env a body \<longleftrightarrow> length body \<le> maxRuntimeArchiveSize
     \<and> equal_fold (os_sha256 env body) (ra_archiveSHA256 a)
     \<and> (\<exists>pre ty data post. os_untar env (maxRuntimeUnpackedSize + 1) body
            = Inr (map (\<lambda>(name, ty, n, d, b). TarEntry name ty n d b) pre
                @ TarEntry (ra_member a) ty (int (length data)) data None # post)
         \<and> (\<forall>e \<in> set pre. fst e \<noteq> ra_member a) \<and> (ty = CHR ''0'' \<or> ty = CHR 0x00)
         \<and> length data \<le> maxRuntimeBinarySize \<and> equal_fold (os_sha256 env data) (ra_binarySHA256 a))"

definition serves :: "os_env \<Rightarrow> artifact \<Rightarrow> bool" where
  "serves env a \<longleftrightarrow> os_request env (ra_url a) = None
     \<and> (\<exists>rsp. os_response env (ra_url a) = Inr rsp \<and> rp_status rsp = 200 \<and> rp_broken rsp = None
          \<and> expected_archive env a (rp_body rsp))"

lemma extract_skips:
  "\<forall>e \<in> set pre. fst e \<noteq> ra_member a \<Longrightarrow>
     extract_member env (map (\<lambda>(name, ty, n, d, b). TarEntry name ty n d b) pre @ items) target a
       = extract_member env items target a"
  by (induction pre) auto

lemma extractRuntimeArchive_ok:
  assumes "no_faults env" and "install_target target a" and "expected_archive env a body"
    and "w_files w path = Some f" and "fi_content f = body"
    and "\<And>n. w_files w (in_dir (dir_of target) (''.monty-runtime-'' @ os_random env n)) = None"
  shows "\<exists>w'. extractRuntimeArchive env path target a w = (Inr (), w') \<and> puts env a target (w_files w) w'"
proof -
  obtain pre ty data post where
    items: "os_untar env (maxRuntimeUnpackedSize + 1) body = Inr (map (\<lambda>(name, ty, n, d, b). TarEntry name ty n d b) pre
                @ TarEntry (ra_member a) ty (int (length data)) data None # post)"
    and pre: "\<forall>e \<in> set pre. fst e \<noteq> ra_member a" and ty: "ty = CHR ''0'' \<or> ty = CHR 0x00"
    and data: "length data \<le> maxRuntimeBinarySize" "equal_fold (os_sha256 env data) (ra_binarySHA256 a)"
    using assms(3) unfolding expected_archive_def by blast
  have get: "os_get env path w = (Inr f, tick w)" using assms(1,4) by (simp add: os_get_ok)
  obtain w' where "writeRuntimeBinary env data None (int (length data)) target a (tick w) = (Inr (), w')"
    "puts env a target (w_files w) w'"
    using writeRuntimeBinary_ok [OF assms(1,2) data(1) _ data(2), of "tick w"] assms(6) by auto
  then show ?thesis
    using get items pre ty data(1) assms(5)
    by (intro exI [of _ w']) (auto simp: extractRuntimeArchive_def error_bind_Inr extractRuntimeArchiveReader_def extract_skips)
qed

lemma save_archive_ok:
  assumes "no_faults env" and "w_files w path = Some empty_file" and "rp_broken rsp = None"
    and "expected_archive env a (rp_body rsp)"
  shows "\<exists>w'. save_archive env path rsp a w = (Inr (), w')
    \<and> w_files w' = (w_files w)(path \<mapsto> empty_file\<lparr>fi_content := rp_body rsp\<rparr>)"
proof -
  have "os_write env path (rp_body rsp) w = (Inr (), (tick w)\<lparr>w_files := (w_files w)(path \<mapsto> empty_file\<lparr>fi_content := rp_body rsp\<rparr>)\<rparr>)"
    using os_write_ok [OF assms(1,2), of "rp_body rsp"] by (simp add: empty_file_def)
  with assms show ?thesis by (simp add: save_archive_def expected_archive_def error_os_def os_defs os_nothing_ok Let_def)
qed

lemma downloadAndExtract_ok:
  assumes "no_faults env" and "install_target target a" and "serves env a" and "fresh_names env target (w_files w)"
  shows "\<exists>w'. downloadAndExtractRuntime env a target w = (Inr (), w') \<and> puts env a target (w_files w) w'"
proof -
  obtain rsp where rsp: "os_request env (ra_url a) = None" "os_response env (ra_url a) = Inr rsp" "rp_status rsp = 200"
    "rp_broken rsp = None" "expected_archive env a (rp_body rsp)" using assms(3) unfolding serves_def by blast
  define tmp where "tmp = in_dir (dir_of target) (''.monty-'' @ os_random env (w_calls w) @ ''.tgz'')"
  have fresh: "w_files w tmp = None" "\<And>n. w_files w (in_dir (dir_of target) (''.monty-runtime-'' @ os_random env n)) = None"
    "\<And>x. in_dir (dir_of target) (''.monty-runtime-'' @ x) \<noteq> tmp"
    using assms(4) names_differ by (simp_all add: fresh_names_def tmp_def)
  have ne: "tmp \<noteq> target" unfolding tmp_def using temporary_not_target [OF assms(2) temporaries(2)] by blast
  let ?w1 = "(tick w)\<lparr>w_files := (w_files w)(tmp \<mapsto> empty_file)\<rparr>"
  have create: "os_create_temp env (dir_of target) ''.monty-'' ''.tgz'' w = (Inr tmp, ?w1)"
    by (rule os_create_temp_ok [OF assms(1)]) (simp_all only: tmp_def [symmetric] fresh(1))
  obtain w2 where w2: "save_archive env tmp rsp a ?w1 = (Inr (), w2)"
    "w_files w2 = (w_files w)(tmp \<mapsto> empty_file\<lparr>fi_content := rp_body rsp\<rparr>)"
    using save_archive_ok [OF assms(1) _ rsp(4,5), of ?w1 tmp] by auto
  obtain w3 where w3: "extractRuntimeArchive env tmp target a w2 = (Inr (), w3)" "puts env a target (w_files w2) w3"
    using extractRuntimeArchive_ok [OF assms(1,2) rsp(5), of w2 tmp] w2(2) fresh(2,3) by auto
  obtain w4 where w4: "snd (os_remove env tmp w3) = w4" by simp
  then have "w_files w4 = (w_files w3)(tmp := None)" using os_remove_files [OF assms(1)] by metis
  then have "puts env a target (w_files w) w4" using w3(2) w2(2) fresh(1) ne by (auto simp: puts_def valid_at_def)
  moreover have "bind_os (save_archive env tmp rsp a) (\<lambda>_. extractRuntimeArchive env tmp target a) ?w1 = (Inr (), w3)"
    using w2(1) w3(1) by (simp add: bind_os_def)
  then have "downloadAndExtractRuntime env a target w = (Inr (), w4)"
    using rsp(1-3) create w4 by (simp add: downloadAndExtractRuntime_def error_bind_Inr finally_os_def)
  ultimately show ?thesis by blast
qed

section \<open>The whole installation\<close>

lemma cached_complete:
  assumes "no_faults env" and "resolveRuntimeCacheDir env c = Inr c" and "valid_at env a w (runtimeBinaryPath c a)"
  shows "\<exists>w'. cachedRuntimeBinary env c a w = (Inr (runtimeBinaryPath c a), w')"
proof -
  let ?p = "runtimeBinaryPath c a"
  obtain r1 w1 where v: "validateRuntimeBinary env ?p a w = (r1, w1)" by fastforce
  with validate_complete [OF assms(1) v] assms(3) have "r1 = Inr ()" by simp
  moreover have "Abs_path env ?p = Inr ?p" by (simp add: runtimeBinaryPath_def join_def)
  ultimately show ?thesis using v assms(2) by (simp add: cachedRuntimeBinary_def os_defs Let_def)
qed

lemma locked_install_ok:
  assumes "no_faults env" and "resolveRuntimeCacheDir env c = Inr c" and "target = runtimeBinaryPath c a"
    and "serves env a" and "fresh_names env target (w_files w)"
  shows "\<exists>w'. locked_install env option1 a c target w = (Inr target, w') \<and> puts env a target (w_files w) w'"
proof -
  have it: "install_target target a" unfolding install_target_def assms(3) by (rule target_in_dir)
  define install where "install = bind_os (downloadAndExtractRuntime env a target) (\<lambda>_.
            error_os (\<lambda>e. Errorf ''verify installed Monty runtime: %w'' [AErr e]) (cachedRuntimeBinary env c a))"
  have install: "\<exists>w'. install w1 = (Inr target, w') \<and> puts env a target (w_files w1) w'"
    if fresh: "fresh_names env target (w_files w1)" for w1
  proof -
    obtain w2 where d: "downloadAndExtractRuntime env a target w1 = (Inr (), w2)" "puts env a target (w_files w1) w2"
      using downloadAndExtract_ok [OF assms(1) it assms(4) fresh] by blast
    obtain w3 where c: "cachedRuntimeBinary env c a w2 = (Inr target, w3)"
      using cached_complete [OF assms(1,2)] d(2) assms(3) unfolding puts_def by blast
    have "puts env a target (w_files w1) w3" using cached_result [OF c] d(2) by (simp add: puts_def valid_at_def)
    moreover have "install w1 = (Inr target, w3)" using d(1) c by (simp add: install_def os_defs)
    ultimately show ?thesis by blast
  qed
  show ?thesis
  proof (cases "io_Force option1")
    case True
    with install [OF assms(5)] show ?thesis by (simp add: locked_install_def install_def Let_def)
  next
    case False
    obtain r2 w2 where v: "cachedRuntimeBinary env c a w = (r2, w2)" by fastforce
    note c = cached_resolved [OF assms(2) v]
    show ?thesis
    proof (cases r2)
      case (Inl e)
      with False v have "locked_install env option1 a c target w = install w2"
        by (simp add: locked_install_def install_def catch_os_def Let_def)
      with install [of w2] c assms(5) show ?thesis by simp
    next
      case (Inr path)
      with False v have "locked_install env option1 a c target w = (Inr path, w2)"
        by (simp add: locked_install_def catch_os_def return_os_def Let_def)
      with Inr c assms(3) show ?thesis by (auto simp: puts_def)
    qed
  qed
qed

lemma fresh_names_lock:
  assumes "install_target target a"
  shows "fresh_names env target (fs(target @ ''.lock'' \<mapsto> f)) = fresh_names env target fs"
proof -
  have "in_dir (dir_of target) (''.monty-runtime-'' @ x) \<noteq> target @ ''.lock''"
    "in_dir (dir_of target) (''.monty-'' @ x) \<noteq> target @ ''.lock''" for x
    using temporary_not_target [OF assms temporaries(1)] temporary_not_target [OF assms temporaries(2)] by blast+
  then show ?thesis unfolding fresh_names_def fun_upd_apply by (simp only: if_False)
qed

text \<open>The lock file is gone afterwards, whether it was there before or not.\<close>

lemma with_lock_ok:
  assumes "no_faults env" and "resolveRuntimeCacheDir env c = Inr c" and "target = runtimeBinaryPath c a"
    and "serves env a" and "fresh_names env target (w_files w)"
    and "fst (acquireInstallLock (os_goos env = ''windows'') (target @ ''.lock'') None (w_attempts w)) = Locked"
  shows "\<exists>w'. with_lock env option1 a c target w = (Installed (Inr target), w')
    \<and> puts env a target ((w_files w)(target @ ''.lock'' := None)) w'"
proof -
  have it: "install_target target a" unfolding install_target_def assms(3) by (rule target_in_dir)
  let ?lock = "target @ ''.lock''"
  obtain as where as: "acquireInstallLock (os_goos env = ''windows'') ?lock None (w_attempts w) = (Locked, as)"
    using assms(6) by (metis prod.collapse)
  define w1 where "w1 = take_lock env ?lock ((tick w)\<lparr>w_attempts := as\<rparr>)"
  have "fresh_names env target (w_files w1)"
    using assms(5) by (simp add: w1_def take_lock_def fresh_names_lock [OF it])
  from locked_install_ok [OF assms(1-4) this] obtain w2 where
    w2: "locked_install env option1 a c target w1 = (Inr target, w2)" "puts env a target (w_files w1) w2" by blast
  obtain w3 where w3: "snd (os_remove env ?lock w2) = w3" by simp
  then have "w_files w3 = (w_files w2)(?lock := None)" using os_remove_files [OF assms(1)] by metis
  then have "puts env a target ((w_files w)(?lock := None)) w3"
    using w2(2) by (auto simp: puts_def valid_at_def w1_def take_lock_def)
  moreover have "with_lock env option1 a c target w = (Installed (Inr target), w3)"
    using as w2(1) w3 os_nothing_ok [OF assms(1)] by (simp add: with_lock_def error_os_def os_defs finally_os_def w1_def)
  ultimately show ?thesis by blast
qed

lemma cached_attempts: "cachedRuntimeBinary env c a w = (r, w') \<Longrightarrow> w_attempts w' = w_attempts w"
  using no_tries_cached unfolding no_tries_def by (metis snd_conv)

lemma installRuntime_ok:
  assumes "no_faults env" and "resolveRuntimeCacheDir env (io_CacheDir option1) = Inr c" and "target = runtimeBinaryPath c a"
    and "serves env a" and "fresh_names env target (w_files w)"
    and "fst (acquireInstallLock (os_goos env = ''windows'') (target @ ''.lock'') None (w_attempts w)) = Locked"
  shows "\<exists>w'. installRuntime env option1 a w = (Installed (Inr target), w') \<and> valid_at env a w' target
    \<and> (\<forall>p. p \<noteq> target \<and> p \<noteq> target @ ''.lock'' \<longrightarrow> w_files w' p = w_files w p)
    \<and> (if \<not> io_Force option1 \<and> valid_at env a w target then w_files w' = w_files w
       else w_files w' (target @ ''.lock'') = None)"
proof -
  note c = resolve_resolved [OF assms(2)]
  show ?thesis
  proof (cases "io_Force option1")
    case True
    then have "installRuntime env option1 a w = with_lock env option1 a c target w"
      using assms(2,3) by (simp add: installRuntime_def Let_def)
    moreover obtain w' where "with_lock env option1 a c target w = (Installed (Inr target), w')"
      "puts env a target ((w_files w)(target @ ''.lock'' := None)) w'"
      using with_lock_ok [OF assms(1) c assms(3-6)] by blast
    ultimately show ?thesis using True by (intro exI [of _ w']) (auto simp: puts_def)
  next
    case False
    obtain r2 w2 where v: "cachedRuntimeBinary env c a w = (r2, w2)" by fastforce
    note files = cached_resolved [OF c v]
    show ?thesis
    proof (cases r2)
      case (Inl e)
      with False v have eq: "installRuntime env option1 a w = with_lock env option1 a c target w2"
        using assms(2,3) by (simp add: installRuntime_def Let_def)
      from assms(5,6) files cached_attempts [OF v] have "fresh_names env target (w_files w2)"
        "fst (acquireInstallLock (os_goos env = ''windows'') (target @ ''.lock'') None (w_attempts w2)) = Locked" by simp_all
      moreover have "\<not> valid_at env a w target"
        using cached_complete [OF assms(1) c] v Inl assms(3) by fastforce
      moreover obtain w' where "with_lock env option1 a c target w2 = (Installed (Inr target), w')"
        "puts env a target ((w_files w2)(target @ ''.lock'' := None)) w'"
        using with_lock_ok [OF assms(1) c assms(3,4) calculation(1,2)] by blast
      ultimately show ?thesis using eq files by (intro exI [of _ w']) (auto simp: puts_def)
    next
      case (Inr path)
      with False v assms(2) have "installRuntime env option1 a w = (Installed (Inr path), w2)"
        by (simp add: installRuntime_def Let_def)
      moreover have "valid_at env a w target" using Inr files assms(3) by (auto simp: valid_at_def)
      ultimately show ?thesis using False Inr files assms(3) by auto
    qed
  qed
qed

end
