(* ===== verification/Install_Race.thy ===== *)
theory Install_Race
  imports Install_Success
begin

text \<open>
  Installations that run at the same time: \<open>writeRuntimeBinary\<close> (\<open>installer.go\<close> lines 371-411) one system call at a
  time, by any number of processes that may have passed the lock together.  Every call may fail and
  every process may crash.  The names that \<open>CreateTemp\<close> makes up are not used twice.
\<close>

section \<open>Stages of one process\<close>

datatype stage =
    Fresh
  | Created string            \<comment> \<open>the temporary file is empty\<close>
  | Written string bytes
  | Hashed string             \<comment> \<open>its size and SHA-256 were right\<close>
  | Ready string              \<comment> \<open>and it is executable\<close>
  | Replacing string          \<comment> \<open>the target was found invalid\<close>
  | Cleared string            \<comment> \<open>the target was removed\<close>
  | Cleaning string           \<comment> \<open>the deferred removal is left\<close>
  | Ended

fun stage_tmp :: "stage \<Rightarrow> string option" where
  "stage_tmp Fresh = None"
| "stage_tmp (Created tmp) = Some tmp"
| "stage_tmp (Written tmp data) = Some tmp"
| "stage_tmp (Hashed tmp) = Some tmp"
| "stage_tmp (Ready tmp) = Some tmp"
| "stage_tmp (Replacing tmp) = Some tmp"
| "stage_tmp (Cleared tmp) = Some tmp"
| "stage_tmp (Cleaning tmp) = Some tmp"
| "stage_tmp Ended = None"

record installers =
  rc_files :: files
  rc_used :: "string set"
  rc_stage :: "nat \<Rightarrow> stage"

definition go_to :: "nat \<Rightarrow> stage \<Rightarrow> files \<Rightarrow> installers \<Rightarrow> installers" where
  "go_to i st fs s = s\<lparr>rc_files := fs, rc_stage := (rc_stage s)(i := st)\<rparr>"

inductive install_step :: "os_env \<Rightarrow> artifact \<Rightarrow> string \<Rightarrow> nat \<Rightarrow> installers \<Rightarrow> installers \<Rightarrow> bool"
  for env a target i where
  create: "rc_stage s i = Fresh \<Longrightarrow> temporary target tmp \<Longrightarrow> tmp \<notin> rc_used s \<Longrightarrow> rc_files s tmp = None \<Longrightarrow>
    install_step env a target i s
      (go_to i (Created tmp) ((rc_files s)(tmp \<mapsto> empty_file)) (s\<lparr>rc_used := insert tmp (rc_used s)\<rparr>))"
| wrote: "rc_stage s i = Created tmp \<Longrightarrow> rc_files s tmp = Some f \<Longrightarrow>
    install_step env a target i s
      (go_to i (Written tmp data) ((rc_files s)(tmp \<mapsto> f\<lparr>fi_content := fi_content f @ data\<rparr>)) s)"
| wrote_part: "rc_stage s i = Created tmp \<Longrightarrow> rc_files s tmp = Some f \<Longrightarrow>
    install_step env a target i s
      (go_to i (Cleaning tmp) ((rc_files s)(tmp \<mapsto> f\<lparr>fi_content := fi_content f @ data\<rparr>)) s)"
| hash: "rc_stage s i = Written tmp data \<Longrightarrow> equal_fold (os_sha256 env data) (ra_binarySHA256 a) \<Longrightarrow>
    install_step env a target i s (go_to i (Hashed tmp) (rc_files s) s)"
| chmod: "rc_stage s i = Hashed tmp \<Longrightarrow> rc_files s tmp = Some f \<Longrightarrow>
    install_step env a target i s (go_to i (Ready tmp) ((rc_files s)(tmp \<mapsto> f\<lparr>fi_executable := True\<rparr>)) s)"
| valid: "rc_stage s i = Ready tmp \<Longrightarrow> rc_files s target = Some f \<Longrightarrow> valid_runtime env a f \<Longrightarrow>
    install_step env a target i s (go_to i (Cleaning tmp) (rc_files s) s)"
| invalid: "rc_stage s i = Ready tmp \<Longrightarrow> install_step env a target i s (go_to i (Replacing tmp) (rc_files s) s)"
| remove: "rc_stage s i = Replacing tmp \<Longrightarrow>
    install_step env a target i s (go_to i (Cleared tmp) ((rc_files s)(target := None)) s)"
| absent: "rc_stage s i = Replacing tmp \<Longrightarrow> install_step env a target i s (go_to i (Cleared tmp) (rc_files s) s)"
| rename: "rc_stage s i = Cleared tmp \<Longrightarrow> rc_files s tmp = Some f \<Longrightarrow>
    install_step env a target i s (go_to i (Cleaning tmp) ((rc_files s)(tmp := None, target \<mapsto> f)) s)"
| fails: "stage_tmp (rc_stage s i) = Some tmp \<Longrightarrow> install_step env a target i s (go_to i (Cleaning tmp) (rc_files s) s)"
| clean: "rc_stage s i = Cleaning tmp \<Longrightarrow>
    install_step env a target i s (go_to i Ended ((rc_files s)(tmp := None)) s)"
| crash: "install_step env a target i s (go_to i Ended (rc_files s) s)"

inductive install_reachable :: "os_env \<Rightarrow> artifact \<Rightarrow> string \<Rightarrow> files \<Rightarrow> installers \<Rightarrow> bool" for env a target fs0 where
  start: "install_reachable env a target fs0 \<lparr>rc_files = fs0, rc_used = {}, rc_stage = (\<lambda>i. Fresh)\<rparr>"
| step: "install_reachable env a target fs0 s \<Longrightarrow> install_step env a target i s s' \<Longrightarrow> install_reachable env a target fs0 s'"

section \<open>The invariant\<close>

text \<open>What the temporary file of a process holds at each stage.\<close>

fun staged :: "os_env \<Rightarrow> artifact \<Rightarrow> stage \<Rightarrow> os_file option \<Rightarrow> bool" where
  "staged env a (Created tmp) f \<longleftrightarrow> f = Some empty_file"
| "staged env a (Written tmp data) f \<longleftrightarrow> f = Some (empty_file\<lparr>fi_content := data\<rparr>)"
| "staged env a (Hashed tmp) f \<longleftrightarrow>
     (\<exists>g. f = Some g \<and> fi_regular g \<and> equal_fold (os_sha256 env (fi_content g)) (ra_binarySHA256 a))"
| "staged env a (Ready tmp) f \<longleftrightarrow> (\<exists>g. f = Some g \<and> valid_runtime env a g)"
| "staged env a (Replacing tmp) f \<longleftrightarrow> (\<exists>g. f = Some g \<and> valid_runtime env a g)"
| "staged env a (Cleared tmp) f \<longleftrightarrow> (\<exists>g. f = Some g \<and> valid_runtime env a g)"
| "staged env a st f \<longleftrightarrow> True"

definition target_ok :: "os_env \<Rightarrow> artifact \<Rightarrow> os_file option \<Rightarrow> os_file option \<Rightarrow> bool" where
  "target_ok env a before now \<longleftrightarrow> now = before \<or> now = None \<or> (\<exists>f. now = Some f \<and> valid_runtime env a f)"

definition install_inv :: "os_env \<Rightarrow> artifact \<Rightarrow> string \<Rightarrow> files \<Rightarrow> installers \<Rightarrow> bool" where
  "install_inv env a target fs0 s \<longleftrightarrow>
     (\<forall>i tmp. stage_tmp (rc_stage s i) = Some tmp \<longrightarrow>
        tmp \<in> rc_used s \<and> temporary target tmp \<and> staged env a (rc_stage s i) (rc_files s tmp))
     \<and> (\<forall>i j tmp. stage_tmp (rc_stage s i) = Some tmp \<and> stage_tmp (rc_stage s j) = Some tmp \<longrightarrow> i = j)
     \<and> target_ok env a (fs0 target) (rc_files s target)"

text \<open>
  A step keeps the invariant when it touches no file but the target and the process's own
  temporary file, and leaves these two in order.
\<close>

lemma install_inv_go_to:
  assumes inv: "install_inv env a target fs0 s" and it: "install_target target a"
    and old: "stage_tmp (rc_stage s i) = Some tmp" and new: "stage_tmp st \<in> {None, Some tmp}"
    and others: "\<And>p. p \<noteq> tmp \<Longrightarrow> p \<noteq> target \<Longrightarrow> fs p = rc_files s p"
    and ok: "staged env a st (fs tmp)" "target_ok env a (fs0 target) (fs target)"
  shows "install_inv env a target fs0 (go_to i st fs s)"
proof -
  have "staged env a (rc_stage s j) (fs p)" if "j \<noteq> i" "stage_tmp (rc_stage s j) = Some p" for j p
  proof -
    from inv that old have "p \<noteq> tmp" "temporary target p" "staged env a (rc_stage s j) (rc_files s p)"
      unfolding install_inv_def by blast+
    with temporary_not_target [OF it] others show ?thesis by simp
  qed
  with inv old new ok show ?thesis unfolding install_inv_def go_to_def by auto
qed

lemma install_inv_start: "install_inv env a target fs0 \<lparr>rc_files = fs0, rc_used = {}, rc_stage = (\<lambda>i. Fresh)\<rparr>"
  by (simp add: install_inv_def target_ok_def)

lemma install_inv_create:
  assumes "install_inv env a target fs0 s" and "install_target target a" and "temporary target tmp" and "tmp \<notin> rc_used s"
  shows "install_inv env a target fs0
    (go_to i (Created tmp) ((rc_files s)(tmp \<mapsto> empty_file)) (s\<lparr>rc_used := insert tmp (rc_used s)\<rparr>))"
proof -
  have ne: "tmp \<noteq> target" using temporary_not_target assms(2,3) by blast
  have other: "p \<in> rc_used s" "p \<noteq> tmp" if "stage_tmp (rc_stage s j) = Some p" for j p
    using assms(1,4) that unfolding install_inv_def by blast+
  show ?thesis using assms(1,3) ne other unfolding install_inv_def go_to_def by auto
qed

lemma install_invD:
  assumes "install_inv env a target fs0 s" and "stage_tmp (rc_stage s i) = Some tmp"
  shows "temporary target tmp" and "staged env a (rc_stage s i) (rc_files s tmp)"
    and "target_ok env a (fs0 target) (rc_files s target)"
  using assms unfolding install_inv_def by blast+

text \<open>A step of a process that has a temporary file, and of one that has none.\<close>

lemma install_step_own:
  assumes "install_step env a target i s s'" and "stage_tmp (rc_stage s i) = Some tmp" and "tmp \<noteq> target"
    and "staged env a (rc_stage s i) (rc_files s tmp)" and "target_ok env a before (rc_files s target)"
  shows "\<exists>st fs. s' = go_to i st fs s \<and> stage_tmp st \<in> {None, Some tmp}
    \<and> (\<forall>p. p \<noteq> tmp \<longrightarrow> p \<noteq> target \<longrightarrow> fs p = rc_files s p)
    \<and> staged env a st (fs tmp) \<and> target_ok env a before (fs target)"
  using assms(1)
proof cases
  case create
  with assms(2) show ?thesis by simp
qed (rule exI, rule exI, rule conjI, assumption,
    use assms(2-) in \<open>(force simp: empty_file_def valid_runtime_def target_ok_def) [1]\<close>)+

lemma install_step_none:
  assumes "install_step env a target i s s'" and "stage_tmp (rc_stage s i) = None"
  shows "s' = go_to i Ended (rc_files s) s \<or> (\<exists>tmp. temporary target tmp \<and> tmp \<notin> rc_used s
    \<and> s' = go_to i (Created tmp) ((rc_files s)(tmp \<mapsto> empty_file)) (s\<lparr>rc_used := insert tmp (rc_used s)\<rparr>))"
  using assms by cases auto

lemma install_step_inv:
  assumes step: "install_step env a target i s s'" and inv: "install_inv env a target fs0 s" and it: "install_target target a"
  shows "install_inv env a target fs0 s'"
proof (cases "stage_tmp (rc_stage s i)")
  case None
  have "install_inv env a target fs0 (go_to i Ended (rc_files s) s)"
    using inv unfolding install_inv_def go_to_def by auto
  then show ?thesis using install_step_none [OF step None] install_inv_create [OF inv it] by blast
next
  case (Some tmp)
  note own = install_invD [OF inv Some]
  have "tmp \<noteq> target" using temporary_not_target [OF it own(1)] by blast
  from install_step_own [OF step Some this own(2,3)] show ?thesis using install_inv_go_to [OF inv it Some] by metis
qed

lemma install_reachable_inv:
  assumes "install_reachable env a target fs0 s" and "install_target target a"
  shows "install_inv env a target fs0 s"
  using assms(1)
proof (induction rule: install_reachable.induct)
  case start
  show ?case by (rule install_inv_start)
next
  case (step s i s')
  from step.hyps(2) step.IH assms(2) show ?case by (rule install_step_inv)
qed

lemma concurrent_target:
  assumes "install_reachable env a (runtimeBinaryPath cacheDir a) fs0 s"
  shows "target_ok env a (fs0 (runtimeBinaryPath cacheDir a)) (rc_files s (runtimeBinaryPath cacheDir a))"
  using install_reachable_inv [OF assms] target_in_dir unfolding install_target_def install_inv_def by blast

section \<open>The code makes these steps\<close>

text \<open>One process alone, to a stage and files.\<close>

definition runs :: "os_env \<Rightarrow> artifact \<Rightarrow> string \<Rightarrow> nat \<Rightarrow> installers \<Rightarrow> stage \<Rightarrow> files \<Rightarrow> bool" where
  "runs env a target i s st fs \<longleftrightarrow>
     (\<exists>s'. (install_step env a target i)\<^sup>*\<^sup>* s s' \<and> rc_stage s' i = st \<and> rc_files s' = fs)"

lemma runs_refl: "runs env a target i s (rc_stage s i) (rc_files s)"
  unfolding runs_def by blast

lemma runs_step:
  assumes "install_step env a target i s (go_to i st1 fs1 s1)"
    and "\<And>s2. rc_stage s2 i = st1 \<Longrightarrow> rc_files s2 = fs1 \<Longrightarrow> runs env a target i s2 st fs"
  shows "runs env a target i s st fs"
proof -
  obtain s' where s': "(install_step env a target i)\<^sup>*\<^sup>* (go_to i st1 fs1 s1) s'" "rc_stage s' i = st" "rc_files s' = fs"
    using assms(2) [of "go_to i st1 fs1 s1"] unfolding runs_def by (auto simp: go_to_def)
  from assms(1) s'(1) have "(install_step env a target i)\<^sup>*\<^sup>* s s'" by (rule converse_rtranclp_into_rtranclp)
  with s'(2,3) show ?thesis unfolding runs_def by blast
qed

lemma runs_fails:
  assumes "stage_tmp (rc_stage s i) = Some tmp"
  shows "runs env a target i s (Cleaning tmp) (rc_files s)"
  by (rule runs_step [OF install_step.fails [OF assms]]) (metis runs_refl)

lemma runs_ends: "runs env a target i s Ended (rc_files s)"
  by (rule runs_step [OF install_step.crash]) (metis runs_refl)

lemma install_file_runs:
  assumes "install_file env tmp target a w = (r, w')" and "rc_stage s i = Ready tmp" and "rc_files s = w_files w"
  shows "runs env a target i s (Cleaning tmp) (w_files w')"
proof -
  obtain r1 w1 where v: "validateRuntimeBinary env target a w = (r1, w1)" by fastforce
  note w1 = validate_result [OF v]
  show ?thesis
  proof (cases r1)
    case (Inr u)
    then have "w' = w1" using assms(1) v by (simp add: install_file_def catch_os_def return_os_def)
    with runs_fails [of s i tmp env a target] assms(2,3) w1 show ?thesis by simp
  next
    case (Inl e)
    obtain r2 w2 where rem: "os_remove env target w1 = (r2, w2)" by fastforce
    obtain r3 w3 where ren: "os_rename env tmp target w2 = (r3, w3)" by fastforce
    have w': "w' = (if r2 = Inr () \<or> r2 = Inl NotExist then w3 else w2)"
      using assms(1) v Inl rem ren by (auto simp: install_file_def os_defs split: sum.splits)
    have renamed: "runs env a target i s2 (Cleaning tmp) (w_files w3)"
      if "rc_stage s2 i = Cleared tmp" "rc_files s2 = w_files w2" for s2 :: installers
    proof (cases "\<exists>e. r3 = Inl e")
      case True
      with os_rename_result [OF ren] runs_fails [of s2 i tmp env a target] that show ?thesis by auto
    next
      case False
      with os_rename_result [OF ren] that obtain f where
        f: "rc_files s2 tmp = Some f" "w_files w3 = (rc_files s2)(tmp := None, target := Some f)" by auto
      show ?thesis unfolding f(2)
        by (rule runs_step [OF install_step.rename [OF that(1) f(1)]]) (metis runs_refl)
    qed
    show ?thesis
    proof (rule runs_step [OF install_step.invalid [OF assms(2)]])
      fix s1 :: installers
      assume s1: "rc_stage s1 i = Replacing tmp" "rc_files s1 = rc_files s"
      consider "r2 = Inr ()" "w_files w2 = (w_files w)(target := None)" | e where "r2 = Inl e" "w_files w2 = w_files w"
        using os_remove_result [OF rem] w1 by auto
      then show "runs env a target i s1 (Cleaning tmp) (w_files w')"
      proof cases
        case 1
        show ?thesis
          by (rule runs_step [OF install_step.remove [OF s1(1)]]) (use 1 w' s1 assms(3) renamed in simp)
      next
        case 2
        show ?thesis
        proof (cases "e = NotExist")
          case True
          show ?thesis
            by (rule runs_step [OF install_step.absent [OF s1(1)]]) (use 2 True w' s1 assms(3) renamed in simp)
        next
          case False
          with 2 w' s1 assms(3) runs_fails [of s1 i tmp env a target] show ?thesis by simp
        qed
      qed
    qed
  qed
qed

lemma write_temporary_runs:
  assumes "write_temporary env tmp data broken n target a w = (r, w')" and "rc_stage s i = Created tmp"
    and "rc_files s = w_files w" and "w_files w tmp = Some f"
  shows "runs env a target i s (Cleaning tmp) (w_files w')"
proof -
  obtain r1 w1 where wr: "write_file env tmp data broken w = (r1, w1)" by fastforce
  obtain r2 w2 where ch: "os_chmod755 env tmp w1 = (r2, w2)" by fastforce
  note w1 = write_file_result [OF wr]
  have old: "stage_tmp (rc_stage s i) = Some tmp" using assms(2) by simp
  have f: "rc_files s tmp = Some f" using assms(3,4) by simp
  show ?thesis
  proof (cases r1)
    case (Inl e)
    then have "w' = w1" using assms(1) wr by (simp add: write_temporary_def error_bind_Inl)
    moreover have "runs env a target i s (Cleaning tmp) ((rc_files s)(tmp \<mapsto> f\<lparr>fi_content := fi_content f @ data\<rparr>))"
      by (rule runs_step [OF install_step.wrote_part [where data = data, OF assms(2) f]]) (metis runs_refl)
    ultimately show ?thesis using w1 assms(3,4) runs_fails [OF old, of env a target] by auto
  next
    case (Inr u)
    then have files: "w_files w1 = (rc_files s)(tmp \<mapsto> f\<lparr>fi_content := fi_content f @ data\<rparr>)"
      using w1 assms(3,4) by auto
    show ?thesis
    proof (rule runs_step [OF install_step.wrote [where data = data, OF assms(2) f]])
      fix s1 :: installers
      assume s1: "rc_stage s1 i = Written tmp data"
        "rc_files s1 = (rc_files s)(tmp \<mapsto> f\<lparr>fi_content := fi_content f @ data\<rparr>)"
      show "runs env a target i s1 (Cleaning tmp) (w_files w')"
      proof (cases "int (length data) = n \<and> equal_fold (os_sha256 env data) (ra_binarySHA256 a)")
        case False
        then have "w' = w1"
          using assms(1) wr Inr by (auto simp: write_temporary_def error_bind_Inr fail_os_def split: if_splits)
        with files s1 runs_fails [of s1 i tmp env a target] show ?thesis by simp
      next
        case True
        then have rest: "bind_os (error_os (\<lambda>e. Errorf ''make Monty runtime executable: %w'' [AErr (path_error ''chmod'' tmp e)])
                       (os_chmod755 env tmp)) (\<lambda>_. install_file env tmp target a) w1 = (r, w')"
          using assms(1) wr Inr by (simp add: write_temporary_def error_bind_Inr)
        have sha: "equal_fold (os_sha256 env data) (ra_binarySHA256 a)" using True by simp
        show ?thesis
        proof (rule runs_step [OF install_step.hash [OF s1(1) sha]])
          fix s2 :: installers
          assume s2: "rc_stage s2 i = Hashed tmp" "rc_files s2 = rc_files s1"
          show "runs env a target i s2 (Cleaning tmp) (w_files w')"
          proof (cases r2)
            case (Inl e)
            then have "w' = w2" using rest ch by (simp add: error_bind_Inl)
            moreover have "w_files w2 = w_files w1" using os_chmod755_result [OF ch] Inl by auto
            ultimately show ?thesis using files s1 s2 runs_fails [of s2 i tmp env a target] by simp
          next
            case (Inr u2)
            then have inst: "install_file env tmp target a w2 = (r, w')" using rest ch by (simp add: error_bind_Inr)
            obtain g where g: "rc_files s2 tmp = Some g" "w_files w2 = (rc_files s2)(tmp \<mapsto> g\<lparr>fi_executable := True\<rparr>)"
              using os_chmod755_result [OF ch] Inr files s1 s2 by auto
            show ?thesis
              by (rule runs_step [OF install_step.chmod [OF s2(1) g(1)]]) (use install_file_runs [OF inst] g(2) in simp)
          qed
        qed
      qed
    qed
  qed
qed

lemma writeRuntimeBinary_runs:
  assumes "writeRuntimeBinary env data broken n target a w = (r, w')"
    and "rc_stage s i = Fresh" and "rc_files s = w_files w"
    and "\<forall>x. in_dir (dir_of target) (''.monty-runtime-'' @ x) \<notin> rc_used s"
  shows "runs env a target i s Ended (w_files w')"
proof -
  obtain r1 w1 where create: "os_create_temp env (dir_of target) ''.monty-runtime-'' [] w = (r1, w1)" by fastforce
  note w1 = os_create_temp_result [OF create]
  show ?thesis
  proof (cases r1)
    case (Inl e)
    then have "w' = w1" using assms(1) create by (simp add: writeRuntimeBinary_def error_bind_Inl)
    with w1 Inl assms(3) runs_ends [of env a target i s] show ?thesis by auto
  next
    case (Inr tmp)
    with w1 obtain x where tmp: "tmp = in_dir (dir_of target) (''.monty-runtime-'' @ x)" "w_files w tmp = None"
      "w_files w1 = (w_files w)(tmp \<mapsto> empty_file)" by (auto simp: empty_file_def)
    have temp: "temporary target tmp" unfolding tmp(1) by (rule temporaries(1))
    define d where "d = take (maxRuntimeBinarySize + 1) data"
    define b where "b = (if maxRuntimeBinarySize < length data then None else broken)"
    obtain r2 w2 where wt: "write_temporary env tmp d b n target a w1 = (r2, w2)" by fastforce
    obtain r3 w3 where rem: "os_remove env tmp w2 = (r3, w3)" by fastforce
    have w': "w' = w3"
      using assms(1) create Inr wt rem by (simp add: writeRuntimeBinary_def error_bind_Inr finally_os_def d_def b_def)
    have new: "tmp \<notin> rc_used s" "rc_files s tmp = None" using assms(3,4) tmp(1,2) by simp_all
    show ?thesis
    proof (rule runs_step [OF install_step.create [OF assms(2) temp new]])
      fix s1 :: installers
      assume s1: "rc_stage s1 i = Created tmp" "rc_files s1 = (rc_files s)(tmp \<mapsto> empty_file)"
      have "rc_files s1 = w_files w1" "w_files w1 tmp = Some empty_file" using s1(2) tmp(3) assms(3) by simp_all
      from write_temporary_runs [OF wt s1(1) this] obtain s2 where s2: "(install_step env a target i)\<^sup>*\<^sup>* s1 s2"
        "rc_stage s2 i = Cleaning tmp" "rc_files s2 = w_files w2" unfolding runs_def by blast
      have "runs env a target i s2 Ended ((rc_files s2)(tmp := None))"
        by (rule runs_step [OF install_step.clean [OF s2(2)]]) (metis runs_refl)
      then have "runs env a target i s2 Ended (w_files w3)"
        using os_remove_result [OF rem] s2(3) runs_ends [of env a target i s2] by auto
      with s2(1) w' show "runs env a target i s1 Ended (w_files w')"
        unfolding runs_def by (meson rtranclp_trans)
    qed
  qed
qed

end
