(* ===== verification/Spec2Isabelle.thy ===== *)
theory Spec2Isabelle
  imports Protowire_Ref Value_Graph Durations File_Mode Print Session_Restore Session_Run Request_Facts Checkout Host_Call_Facts Host_Roundtrip Install_Lock Install_Race "HOL-Library.Multiset"
begin

text \<open>
  A verification library for \<^verbatim>\<open>monty-go\<close>, the Go client of the Monty Python sandbox.  The client keeps a pool of
  worker subprocesses, talks to each through length-prefixed protobuf frames, and offers sessions in which
  snippets are fed, suspended at host calls, resumed, dumped and loaded.

  \<^bold>\<open>Parts and theories.\<close>

  \<^item> \<open>Prelude\<close>, \<open>Errors\<close>: generic lemmas; the error values of \<open>errors.go\<close> with \<open>fmt.Errorf\<close> kept as format and
    arguments; \<open>go_error + 'a\<close> is a Go result with an error.  \<open>Raise\<close>: \<open>errors.As\<close> over the \<open>Unwrap\<close> chain,
    \<open>raisedFromError\<close>, \<open>classifyRuntime\<close>, \<open>Traceback\<close>.
  \<^item> \<open>Wire\<close> (\<open>wire.go\<close>): the field encoders, the field loop \<open>parseFields\<close> and the frames.  The package
    \<open>protowire\<close> is not part of the repository: it is the parameter \<open>pw\<close>, its documented behaviour the locale
    \<open>wire_format\<close>, and \<open>Protowire_Ref\<close> implements it once (varints, fixed and length-prefixed fields), so that the
    hypothesis \<open>wire_format pw\<close> of the properties is satisfied by a concrete function.
  \<^item> \<open>Values\<close>, \<open>Encode\<close>, \<open>Decode\<close> (\<open>value.go\<close>, \<open>class_value.go\<close>, \<open>wire.go\<close>): Python values and the Go values that may
    stand for them, \<open>encodeValue\<close> over a heap with shared and cyclic references, \<open>decodeValue\<close>.
    \<open>Decode_Facts\<close>, \<open>Value_Roundtrip\<close>, \<open>Value_Graph\<close>: the relation \<open>denotes\<close> is the conversion table; encoding is sound
    for it and decoding inverts it; depth and acyclicity.  \<open>Durations\<close>, \<open>Floats\<close>, \<open>File_Mode\<close>: the arithmetic of
    \<open>time.Duration\<close> and \<open>float64\<close> that the code uses, and file modes.
  \<^item> \<open>Arena\<close>, \<open>Arena_Roundtrip\<close> (\<open>arena.go\<close>): the flat encoding in which nodes refer to earlier nodes.
  \<^item> \<open>Exc_Data\<close> (\<open>exception_data.go\<close>), \<open>Protocol\<close>, \<open>Events\<close>, \<open>Request_Facts\<close> (\<open>protocol.go\<close>): requests and events.
  \<^item> \<open>Snapshot\<close> (\<open>snapshot.go\<close>), \<open>OS_Policy\<close> (\<open>os_policy.go\<close>), \<open>Print\<close> (\<open>print.go\<close>), \<open>Host_Modules\<close> (\<open>module.go\<close>).
  \<^item> \<open>Session\<close>, \<open>Session_Ops\<close> (\<open>session.go\<close>): the session, its runs and snapshots in one record; every
    operation, split where the code unlocks the mutex, so that \<open>Session_Inv\<close> can interleave the locked
    sections of any number of callers (\<open>session_step\<close>).  \<open>Session_Protocol\<close> is the contract: who may hold the
    turn, which suspension is current, what has been resumed.  \<open>Session_Inv\<close> proves the refinement,
    \<open>Session_Budget\<close> the limits on sleeps and suspensions, \<open>Session_Accounts\<close> what is charged and counted for the events of one
    answer, \<open>Session_Facts\<close> the refusals and the stranded feed, \<open>Session_Run\<close> the loop of \<open>FeedRun\<close> and that it returns,
    \<open>Session_Restore\<close> the way of a suspension through a dump.
  \<^item> \<open>Worker\<close> (\<open>worker\<close> in \<open>pool.go\<close>): one exchange with the subprocess, prints included, over the frames of \<open>Wire\<close>.
    \<open>Pool\<close>, \<open>Pool_Steps\<close> (\<open>Monty\<close> in \<open>pool.go\<close>): creation, checkout, release and closing, cut at the two channels and
    the mutex; \<open>pool_step\<close> interleaves any number of goroutines, the invariant accounts for every worker.
    \<open>Checkout\<close> composes the whole handler with the start of the process, the wait for a slot and the configuration, and the
    closing of a session with the release of its worker, and shows that both are runs of these steps.

  \<^item> \<open>Go_Types\<close>, \<open>Host_Values\<close>, \<open>Host_Calls\<close> (\<open>host.go\<close>, \<open>DictMap\<close>): Go types as \<open>reflect\<close> shows them, \<open>convertHostArg\<close> by
    recursion on the target type, \<open>Decode\<close> with its type assertion, and \<open>callHost\<close>.  A conversion ends with a value, an error
    or the panic of \<open>reflect.Copy\<close> on a defined byte type (\<open>conv_error\<close>), which passes the calls around it: \<open>Decode\<close> panics,
    \<open>callHost\<close> recovers.  \<open>Host_Facts\<close> types the results, \<open>Host_Panics\<close> says when the conversion and \<open>Decode\<close> panic,
    \<open>Host_Roundtrip\<close> inverts the encoder on typed Go data, \<open>Host_Call_Facts\<close> says which calls are made.
  \<^item> \<open>OS_Files\<close>, \<open>Installer\<close> (\<open>installer.go\<close>), \<open>Find_Binary\<close> (\<open>FindBinary\<close> in \<open>pool.go\<close>): files by path, system calls any of
    which may fail, the installation with its deferred clean-up, and the search for the executable.  \<open>Installer_Facts\<close>
    shows what an installation can do to the files on every path through it, \<open>Find_Facts\<close> the order of the search,
    \<open>Install_Success\<close> that the installation works when nothing fails.  \<open>Install_Lock\<close> interleaves any number of
    processes at the lock file, one system call at a time, and \<open>Install_Race\<close> those that write the executable, whether or
    not the lock keeps them apart.

  \<^bold>\<open>Correspondence.\<close>  Go strings and byte slices are lists of 8-bit characters, \<open>int\<close>, \<open>int64\<close>, \<open>uint64\<close> and
  \<open>time.Duration\<close> are 64-bit words (compared signed or unsigned as the code does), a UUID is a 128-bit word; a Go map
  is an association list with distinct keys whose order is the order of the range.  Pointers to a
  \<open>runState\<close> or a snapshot are indexes into the session's lists.  The answers of \<open>worker.exchange\<close> are a list
  that an operation uses up; host callbacks, the choice of \<open>reflect.Select\<close> and the contexts are parameters.

  \<^bold>\<open>Fuel.\<close>  \<open>decodeValue\<close> and \<open>addLegacy\<close> recur on the payload of a field, which is shorter than the message: the fuel
  is the length of the message plus one, and both are proved to satisfy the code's recursion equation.  \<open>feed_loop\<close>
  has no fuel: every resume uses up an answer of the worker, so it is a total function, and \<^const>\<open>None\<close> means that a resume
  still waits; \<open>feed_run_returns\<close> says when none does.  The loop of \<open>acquireInstallLock\<close> may wait for ever: it runs
  over a list of tries and ends as \<open>StillWaiting\<close> when they are used up; \<open>lock_wait\<close> shows that 6003 of them are enough
  for a lock that was left behind (five minutes at 50 milliseconds, the removal and the creation).  The other loops are structural or have a termination proof.

  \<^bold>\<open>Not modelled.\<close>  The method sets and comparability of types that only a host has, and the texts that \<open>fmt\<close> prints
  for them (the record \<open>reflect\<close> is a parameter); host arrays of a defined byte type, on which the encoder panics
  (\<open>HByteArray\<close> is an array of \<open>uint8\<close>); the scheduling of timers.  For the installer: SHA-256, \<open>gzip\<close>, \<open>tar\<close>, HTTP,
  \<open>exec.LookPath\<close> and the directories of the user are parameters of the record \<open>os_env\<close>; directories and their creation are not
  represented (\<open>MkdirAll\<close> is a call that may fail), nor symbolic links, Windows path syntax, or, in the sequential model, other processes
  that change the files during an installation (they are in \<open>Install_Lock\<close> and \<open>Install_Race\<close>); \<open>strings.EqualFold\<close> is the folding of the ASCII letters, as the digests
  are hexadecimal.  The command only reads its flags and calls \<open>Install\<close>.  The subprocess is an environment: the
  bytes it will write, the error of a write, the cause that ends a context first.  The step counter of a run is a
  natural number.
\<close>

section \<open>Values across the boundary\<close>

text \<open>
  C1: What \<open>encodeValue\<close> writes for a host value, \<open>decodeValue\<close> reads back as the one value the
  conversion table of the package assigns to it.
\<close>

theorem value_roundtrip:
  assumes "wire_format pw" and "encodeValue pw h v = Inr b"
  shows "\<exists>w. denotes h v w \<and> (\<forall>w'. denotes h v w' \<longrightarrow> w' = w) \<and> decodeValue pw b = Inr w"
proof -
  from wire_format.encode_sound [OF assms(1)] assms(2) obtain w
    where "denotes h v w" "message pw b w" unfolding encodeValue_def by blast
  then show ?thesis using wire_format.message_decode [OF assms(1)] by (blast intro: denotes_unique)
qed

lemma encode_example:
  "encodeValue pw h (VList [VBool True, VNil])
     = Inr (fieldMessage pw 11 (fieldMessage pw 1 (fieldBool pw 4 True) @ fieldMessage pw 1 (fieldMessage pw 2 [])))"
  by (simp add: encodeValue_def encode.simps encodeObjectList_def maxValueDepth_def)

theorem value_roundtrip_witness:
  "\<exists>w. denotes [] (VList [VBool True, VNil]) w \<and> (\<forall>w'. denotes [] (VList [VBool True, VNil]) w' \<longrightarrow> w' = w)
     \<and> decodeValue pw_ref (fieldMessage pw_ref 11
         (fieldMessage pw_ref 1 (fieldBool pw_ref 4 True) @ fieldMessage pw_ref 1 (fieldMessage pw_ref 2 []))) = Inr w"
  by (rule value_roundtrip [OF ref.wire_format_axioms encode_example])

text \<open>
  C25: A host value that \<open>encodeValue\<close> accepts has no cycle: no value that it reaches, through
  containers, pointers and struct fields, reaches itself.
\<close>

theorem encoded_acyclic:
  assumes "wire_format pw" and "encodeValue pw h v = Inr b" and "(component h)\<^sup>*\<^sup>* v x"
  shows "\<not> (component h)\<^sup>+\<^sup>+ x x"
proof -
  from wire_format.encode_sound [OF assms(1)] assms(2) obtain w where "denotes h v w"
    unfolding encodeValue_def by blast
  then show ?thesis using assms(3) by (rule denotes_acyclic)
qed

theorem encoded_acyclic_witness:
  "\<not> (component [])\<^sup>+\<^sup>+ (VList [VBool True, VNil]) (VList [VBool True, VNil])"
  by (rule encoded_acyclic [OF ref.wire_format_axioms encode_example rtranclp.rtrancl_refl])

text \<open>
  C26: In a value that \<open>encodeValue\<close> accepts nothing lies inside more than 100 containers, pointers not counted.  The
  container in the middle may itself be the 101st, if it is empty: a list nested in \<open>k\<close> lists is accepted exactly
  when \<open>k\<close> is at most 100.
\<close>

theorem encoded_depth:
  assumes "encodeValue pw h v = Inr b" and "nested h v n x"
  shows "n \<le> 100 \<and> ((\<exists>b. encodeValue pw h (nested_lists k) = Inr b) \<longleftrightarrow> k \<le> 100)"
  using encode_depth [OF assms(2) assms(1) [unfolded encodeValue_def]] encode_nested_lists [of pw h "[]" 0 k]
  by (simp add: maxValueDepth_def encodeValue_def)

lemma nested_example: "nested [] (VList [VBool True, VNil]) 1 VNil"
  unfolding One_nat_def by (rule nested.child [OF _ nested.here]) simp

theorem encoded_depth_witness:
  "nested [] (VList [VBool True, VNil]) 1 VNil \<and> (1 :: nat) \<le> 100
   \<and> (\<exists>b. encodeValue pw_ref [] (nested_lists 100) = Inr b) \<and> \<not> (\<exists>b. encodeValue pw_ref [] (nested_lists 101) = Inr b)"
  using nested_example encoded_depth [OF encode_example [of pw_ref] nested_example, of 100]
    encoded_depth [OF encode_example [of pw_ref] nested_example, of 101] by simp

text \<open>
  C27: \<open>decodeValue\<close> returns on every input: a value, or an error that the code makes.  The
  recursion bound of the model is never reached, the field loop always advances, and the code's
  recursion equation holds.
\<close>

theorem decodeValue_total:
  assumes "wire_format pw"
  shows "returns (decodeValue pw data) \<and> decodeValue pw data = decode_message pw (decodeValue pw) data"
  using wire_format.decodeValue_returns [OF assms, of data] wire_format.decodeValue_unfold [OF assms, of data]
  by blast

theorem decodeValue_total_witness:
  "returns (decodeValue pw_ref ''abc'')
    \<and> decodeValue pw_ref ''abc'' = decode_message pw_ref (decodeValue pw_ref) ''abc''"
  by (rule decodeValue_total [OF ref.wire_format_axioms])

text \<open>
  The field loop \<open>parseFields\<close> hands its callback exactly the fields that the encoders wrote, in
  order, and stops at the callback's first error with the state reached so far.
\<close>

lemma parseFields_items:
  assumes "wire_format pw" and "\<forall>i \<in> set items. valid_tag (item_tag i)"
  shows "parseFields pw (concat (map (put_item pw) items)) fn s = fold_res fn (map item_field items) s"
  using assms by (rule wire_format.parse_items)

lemma parseFields_items_example:
  "parseFields pw_ref (concat (map (put_item pw_ref) [VarintItem 1 7, BytesItem 2 ''ab'']))
     (\<lambda>f n. if tag f = 2 then fail n (ProtocolError (bytes f)) else ok (n + 1)) (0 :: nat)
   = fail 1 (ProtocolError ''ab'')"
  by (subst parseFields_items [OF ref.wire_format_axioms])
    (simp_all add: valid_tag_def varint_field_def bytes_field_def)

text \<open>
  C40: \<open>readFrame\<close> accepts exactly the frames that \<open>writeFrame\<close> writes, and leaves the rest of the
  stream in place.
\<close>

theorem readFrame_exact:
  "readFrame r = Inr (body, rest) = (\<exists>out. writeFrame body = Inr out \<and> r = out @ rest)"
  by (rule readFrame_sound)

text \<open>
  Date and time values survive the wire exactly when the fields that travel as 32-bit integers fit:
  a year and an offset of a \<open>DateTime\<close>, all parts of a \<open>TimeDelta\<close>; the rest is kept.
\<close>

lemma datetime_roundtrip:
  assumes "wire_format pw"
  shows "decodeDateTime pw (encodeDateTime pw x) = norm_datetime x
    \<and> (norm_datetime x = x) = (fits_int32 (dt_Year x) \<and> pred_option fits_int32 (dt_OffsetSeconds x))
    \<and> decodeTimeDelta pw (encodeTimeDelta pw d) = norm_timedelta d
    \<and> (norm_timedelta d = d) = (fits_int32 (td_Days d) \<and> fits_int32 (td_Seconds d) \<and> fits_int32 (td_Microseconds d))"
proof -
  have "norm_datetime x = x \<longleftrightarrow> fits_int32 (dt_Year x) \<and> pred_option fits_int32 (dt_OffsetSeconds x)"
    by (cases x; cases "dt_OffsetSeconds x") (auto simp: norm_datetime_def int_of_int32_eq)
  moreover have "norm_timedelta d = d
      \<longleftrightarrow> fits_int32 (td_Days d) \<and> fits_int32 (td_Seconds d) \<and> fits_int32 (td_Microseconds d)"
    by (cases d) (simp add: norm_timedelta_def int_of_int32_eq)
  ultimately show ?thesis
    using wire_format.decodeDateTime_encodeDateTime [OF assms] wire_format.decodeTimeDelta_encodeTimeDelta [OF assms]
    by simp
qed

lemma datetime_roundtrip_example:
  "decodeTimeDelta pw_ref (encodeTimeDelta pw_ref \<lparr>td_Days = 2 ^ 31, td_Seconds = 0, td_Microseconds = 0\<rparr>)
     \<noteq> \<lparr>td_Days = 2 ^ 31, td_Seconds = 0, td_Microseconds = 0\<rparr>"
  using datetime_roundtrip [OF ref.wire_format_axioms, of undefined "\<lparr>td_Days = 2 ^ 31, td_Seconds = 0, td_Microseconds = 0\<rparr>"]
  by (simp add: fits_int32_def)

text \<open>
  \<open>encodeDuration\<close> sends a duration of \<open>n\<close> nanoseconds as the days, seconds and microseconds of
  \<open>n / 1000\<close> (truncated), with seconds and microseconds in their non-negative ranges; no step
  overflows and all parts fit the 32-bit fields, so Python gets exactly this time delta.
\<close>

lemma duration_exact:
  "(\<exists>d. encodeDuration pw x = encodeTimeDelta pw d \<and> norm_timedelta d = d
     \<and> sint (td_Days d) * 86400000000 + sint (td_Seconds d) * 1000000 + sint (td_Microseconds d) = sint x sdiv 1000
     \<and> 0 \<le> sint (td_Seconds d) \<and> sint (td_Seconds d) < 86400
     \<and> 0 \<le> sint (td_Microseconds d) \<and> sint (td_Microseconds d) < 1000000)"
proof -
  let ?m = "sint x sdiv 1000"
  have "0 \<le> ?m mod 86400000000" "?m mod 86400000000 < 86400000000" by simp_all
  then have "0 \<le> ?m mod 86400000000 div 1000000" "?m mod 86400000000 div 1000000 < 86400"
    using div_bounds [of 1000000 "?m mod 86400000000"] by (simp, linarith)
  moreover have "?m div 86400000000 * 86400000000 + ?m mod 86400000000 div 1000000 * 1000000
      + ?m mod 86400000000 mod 1000000 = ?m"
    by (simp only: add.assoc div_mult_mod_eq)
  ultimately show ?thesis
    by (intro exI [of _ "duration_delta x"])
      (simp add: encodeDuration_def duration_delta_parts duration_delta_fits)
qed

text \<open>
  \<open>CanonicalFileMode\<close> accepts exactly the modes with one of \<open>r\<close>, \<open>w\<close>, \<open>a\<close> and at most one of
  \<open>b\<close> and \<open>t\<close>, in any order; the result is the action followed by \<open>b\<close> for a binary mode, and is
  accepted unchanged.
\<close>

lemma CanonicalFileMode_exact:
  "(CanonicalFileMode m = Inr r) = (mode_ok m \<and> r = canonical m)
    \<and> (CanonicalFileMode m = Inr r \<longrightarrow> CanonicalFileMode r = Inr r)"
  using canonical_mode [of m] by (auto simp: CanonicalFileMode_Inr)

lemma CanonicalFileMode_exact_example:
  "CanonicalFileMode ''btr'' \<noteq> Inr ''rb'' \<and> CanonicalFileMode ''rb'' = Inr ''rb''"
  using CanonicalFileMode_exact [of "''br''" "''rb''"] CanonicalFileMode_exact [of "''btr''" "''rb''"]
  by (simp add: mode_ok_def canonical_def action_char_def)

text \<open>
  A Go map with string keys is encoded the same whatever order the map gives its entries in.
\<close>

lemma encodeMap_order:
  assumes "distinct (map string_key d)" and "mset d = mset e"
  shows "encodeMap pw child True d = encodeMap pw child True e"
proof -
  have "inj_on string_key (set d)" using assms(1) by (simp add: distinct_map)
  then have "sort_key string_key d = sort_key string_key e"
    using assms(2) by (intro sort_key_inj_key_eq) simp_all
  then show ?thesis by (simp add: encodeMap_def map_entries_def)
qed

lemma encodeMap_order_example:
  "encodeMap pw_ref (encodeValue pw_ref []) True [(VString ''b'', VNil), (VString ''a'', VNil)]
   = encodeMap pw_ref (encodeValue pw_ref []) True [(VString ''a'', VNil), (VString ''b'', VNil)]"
  by (rule encodeMap_order) (simp_all add: string_key_def)

section \<open>Sessions\<close>

text \<open>
  C2: Every locked section of every caller of a session, in any interleaving and with any
  answers of the worker, is a step of the session protocol or leaves its state alone.
\<close>

theorem session_refines_protocol:
  assumes "session_step pw pt h w w'" and "protocol_inv (protocol_of w)"
  shows "protocol_of w' = protocol_of w \<or> protocol_step (protocol_of w) (protocol_of w')"
  using assms by (rule session_step_protocol)

text \<open>A session without limits, and a feed of no code in flight on it.\<close>

definition no_limits :: resource_limits where
  "no_limits = \<lparr>rl_MaxDuration = 0, rl_MaxFeedDuration = 0, rl_MaxTurnDuration = 0, rl_MaxTotalSleep = 0, rl_MaxMemory = 0,
     rl_GCInterval = 0, rl_MaxRecursionDepth = 0, rl_MaxSuspensions = 0\<rparr>"

definition plain_session :: session where
  "plain_session = new_session ''main.py'' None no_limits 10000000000 1000000000 True"

definition empty_feed :: request where
  "empty_feed = request reqFeed (fieldString pw_ref 1 [] @ fieldMessage pw_ref 3 (arena_encode pw_ref []) @ fieldBool pw_ref 4 False)"

definition busy_session :: session where
  "busy_session = plain_session\<lparr>se_used := True, se_inTurn := True, se_runs := [newRunState no_options]\<rparr>"

lemma plain_reachable: "reachable pw_ref pt [] (world plain_session [] [])"
  unfolding plain_session_def by (rule reachable.start) (simp_all add: no_limits_def word_sle_eq)

lemma plain_begin: "FeedStart_begin pw_ref [] [] [] plain_session = Inr (0, empty_feed, busy_session)"
proof -
  have "feed_guard plain_session = None" "se_runs plain_session = []"
    by (simp_all add: feed_guard_def plain_session_def new_session_def)
  then show ?thesis
    by (simp add: FeedStart_begin_def no_options_def valid_cwd_def feedRequest_def busy_session_def empty_feed_def)
qed

lemma plain_feed: "session_step pw_ref pt [] (world plain_session [] []) (world busy_session [FeedTurn 0 empty_feed] [])"
  by (rule session_step.feed_begin [OF plain_begin])

lemma busy_reachable: "reachable pw_ref pt [] (world busy_session [FeedTurn 0 empty_feed] [])"
  by (rule reachable.step [OF plain_reachable plain_feed])

theorem session_refines_protocol_witness:
  "protocol_of (world busy_session [FeedTurn 0 empty_feed] []) = protocol_of (world plain_session [] [])
   \<or> protocol_step (protocol_of (world plain_session [] [])) (protocol_of (world busy_session [FeedTurn 0 empty_feed] []))"
  by (rule session_refines_protocol [OF plain_feed [of "\<lambda>n. []"] reachable_inv [OF plain_reachable]])

text \<open>
  C3: At most one protocol turn of a session is in flight, and while it is, every other operation on the
  session or on one of its snapshots fails at once: it sends nothing to the worker and changes nothing.
\<close>

theorem one_turn:
  assumes "reachable pw pt h w" and "wo_turns w \<noteq> []"
  shows "length (wo_turns w) = 1
    \<and> refused (Session_Dump pw pt (wo_session w) as) (wo_session w) as
    \<and> refused (InstallDependencies pw pt names (wo_session w) as) (wo_session w) as
    \<and> refused (Session_Ops.load pw pt state o1 (wo_session w) as) (wo_session w) as
    \<and> (\<exists>e. FeedStart_begin pw h code options (wo_session w) = Inl e)
    \<and> (\<nexists>s'. Close_begin (wo_session w) = Inr (Some s'))
    \<and> (\<forall>i < length (se_snaps (wo_session w)). refused (Snapshot_Dump pw pt i (wo_session w) as) (wo_session w) as
        \<and> (\<exists>e. exchange_begin (sn_state (snap (wo_session w) i)) (sn_step (snap (wo_session w) i)) (wo_session w) = Inl e))"
proof -
  have "length (wo_turns w) \<le> 1"
    using turn_ok_length [of "protocol_of w"] reachable_inv [OF assms(1)]
    by (fastforce simp: protocol_inv_def protocol_of_def)
  with assms(2) have "length (wo_turns w) = 1" by (cases "wo_turns w") simp_all
  with refused_during_turn [OF assms refl] show ?thesis by simp
qed

theorem one_turn_witness: "refused (Session_Dump pw_ref (\<lambda>n. []) busy_session []) busy_session []"
  using one_turn [OF busy_reachable, of "\<lambda>n. []" "[]"] by simp

text \<open>
  C4: No suspension of a run is resumed twice, however many callers race for its snapshot, and no two
  snapshots stand for the same suspension.
\<close>

theorem resumed_once:
  assumes "reachable pw pt h w"
  shows "distinct (wo_resumed w) \<and> distinct (map snap_key (se_snaps (wo_session w)))
    \<and> (\<forall>(r, st) \<in> set (wo_resumed w). st < rs_step (se_runs (wo_session w) ! r))"
  using reachable_inv [OF assms] by (auto simp: protocol_inv_def protocol_of_def)

theorem resumed_once_witness: "distinct (map snap_key (se_snaps busy_session))"
  using resumed_once [OF busy_reachable] by simp

text \<open>A name lookup and a system sleep as the worker sends them, and the sessions after them.\<close>

definition name_event :: child_event where
  "name_event = no_event\<lparr>ce_kind := Some eventNameLookup\<rparr>"

definition suspended_run :: run_state where
  "suspended_run = (newRunState no_options)\<lparr>rs_suspensions := 1\<rparr>"

definition name_snapshot :: snapshot where
  "name_snapshot = \<lparr>sn_state = 0, sn_step = 0,
     sn_kind = NameLookupSnapshot \<lparr>sr_Filename = [], sr_Start = 0, sr_End = 0\<rparr> [] None\<rparr>"

lemma suspension_counted:
  assumes "se_runs s = [newRunState no_options]"
  shows "count_suspension 0 s = s\<lparr>se_runs := [suspended_run]\<rparr>"
  by (simp add: count_suspension_def update_run_def assms suspended_run_def newRunState_def)

lemma first_suspension:
  assumes "se_runs s = [newRunState no_options]" and "se_maxSuspensions s = 0" and "ce_kind e = Some k"
    and "suspension_event k"
  shows "progress_action pw pt 0 e s = dispatch_event pw pt 0 False k (ce_body e) (s\<lparr>se_runs := [suspended_run]\<rparr>)"
proof -
  have "\<not> (k = eventComplete \<or> eventError \<le> k)" using assms(4) by (cases k) (simp_all add: suspension_event_def event_order)
  moreover have "\<not> suspension_limit (s\<lparr>se_runs := [suspended_run]\<rparr>) < rs_suspensions suspended_run"
    using assms(2) by (simp add: suspension_limit_def suspended_run_def)
  moreover have "rs_restoring (newRunState no_options) = False" by (simp add: newRunState_def)
  ultimately show ?thesis
    using assms(1,3,4) by (simp add: progress_action_def suspension_counted [OF assms(1)])
qed

lemma name_decoded:
  "lookup_snapshot pw_ref [] = Inr (NameLookupSnapshot \<lparr>sr_Filename = [], sr_Start = 0, sr_End = 0\<rparr> [] None)"
  by (simp add: lookup_snapshot_def decodeSourceRange_def decodeStringField_def decodeBytesField_def parse_ignore_def
    parse_result_def)

lemma name_progress:
  assumes "se_runs s = [newRunState no_options]" and "se_maxSuspensions s = 0" and "se_snaps s = []"
  shows "progress pw_ref pt 0 name_event s as
    = Some (Inr (Suspended 0), s\<lparr>se_runs := [suspended_run], se_snaps := [(name_snapshot, False)]\<rparr>, as)"
proof -
  have "progress_action pw_ref pt 0 name_event s
      = dispatch_event pw_ref pt 0 False eventNameLookup [] (s\<lparr>se_runs := [suspended_run]\<rparr>)"
    by (subst first_suspension [OF assms(1,2), of _ eventNameLookup])
      (simp_all add: name_event_def no_event_def suspension_event_def event_order)
  then show ?thesis
    by (subst progress.simps)
      (simp add: dispatch_event_def name_decoded add_snapshot_def assms(3) name_snapshot_def suspended_run_def newRunState_def)
qed

definition sleep_seconds :: uint64 where "sleep_seconds = 4607182418800017408"

definition sleep_event :: child_event where
  "sleep_event = no_event\<lparr>ce_kind := Some eventOSCall, ce_body := fieldMessage pw_ref 29 (fieldFixed64 pw_ref 1 sleep_seconds)\<rparr>"

text \<open>A session that may sleep for two seconds, and whose policy cuts a sleep off after half a second.\<close>

definition sleepy_session :: session where
  "sleepy_session = busy_session\<lparr>se_hasSleepLimit := True, se_maxTotalSleep := 2000000000, se_systemSleepMax := 500000000\<rparr>"

lemma sleep_seconds_valid: "valid_sleep sleep_seconds"
  by (simp add: valid_sleep_def sleep_seconds_def f64_is_nan_def f64_is_inf_def f64_exp_def f64_negative_def sleep_bound_def)

lemma one_second: "duration_of_seconds sleep_seconds = 1000000000"
proof -
  have parts: "f64_parts sleep_seconds = (4503599627370496, 1022)"
    by (simp add: f64_parts_def f64_exp_def f64_mant_def sleep_seconds_def)
  have "floorlog 2 (4503599627370496000000000 :: nat) = 82"
    by (rule antisym) (auto intro!: floorlog_leI floorlog_geI)
  then show ?thesis
    by (simp add: duration_of_seconds_nanos sleep_nanos_def parts round_ratio_def)
qed

lemma sleepy_delay: "sleep_delay sleepy_session sleep_seconds = 500000000"
  by (simp add: sleep_delay_def one_second sleepy_session_def UnlimitedSleep_def word_sless_alt)

lemma sleep_decoded:
  "\<exists>c. decodeOSCall pw_ref (fieldMessage pw_ref 29 (fieldFixed64 pw_ref 1 sleep_seconds)) = Inr c
     \<and> ca_Name c = ''system.sleep'' \<and> ca_Args c = [VFloat64 sleep_seconds] \<and> ca_OS c"
proof -
  have "decode_sleep pw_ref (fieldFixed64 pw_ref 1 sleep_seconds) = Inr sleep_seconds"
    using sleep_seconds_valid by (simp add: decode_sleep_def parse_result_def ref.message_parse)
  then show ?thesis
    by (simp add: decodeOSCall_def parse_result_def ref.message_parse os_field_def os_call_def os_system_call_def path_calls_def sleep_calls_def)
qed

lemma sleep_progress:
  "\<exists>s' as'. progress pw_ref pt 0 sleep_event sleepy_session [] = Some (Inr (Suspended 0), s', as') \<and> system_sleep_at s' 0"
proof -
  from sleep_decoded obtain c where c: "decodeOSCall pw_ref (ce_body sleep_event) = Inr c" "ca_Name c = ''system.sleep''"
    "ca_Args c = [VFloat64 sleep_seconds]" "ca_OS c" by (auto simp: sleep_event_def)
  have runs: "se_runs sleepy_session = [newRunState no_options]" by (simp add: sleepy_session_def busy_session_def)
  let ?s = "sleepy_session\<lparr>se_runs := [suspended_run]\<rparr>"
  have "se_systemSleepMax ?s = se_systemSleepMax sleepy_session" by simp
  then have delay: "sleep_delay ?s sleep_seconds = 500000000" using sleepy_delay by (simp only: sleep_delay_def)
  define t where "t = ?s"
  have "se_hasSleepLimit t" "se_maxTotalSleep t = 2000000000" "se_sleepUsed t = 0" "se_snaps t = []" "sleep_delay t sleep_seconds = 500000000"
    by (simp_all add: t_def delay) (simp_all add: sleepy_session_def busy_session_def plain_session_def new_session_def)
  then have "charge_sleep 0 False c t = Return (Inr (Suspended 0)) (t\<lparr>se_sleepUsed := 500000000,
      se_snaps := [(\<lparr>sn_state = 0, sn_step = rs_step (se_runs t ! 0),
        sn_kind = FunctionSnapshot (c\<lparr>ca_Args := [VFloat64 (duration_seconds 500000000)]\<rparr>)\<rparr>, False)]\<rparr>)"
    by (simp add: charge_sleep_def c(3) add_snapshot_def maxDurationValue_def word_sless_alt)
  then have "\<exists>s'. charge_sleep 0 False c ?s = Return (Inr (Suspended 0)) s' \<and> system_sleep_at s' 0"
    using c(2,4) by (simp add: t_def system_sleep_at_def call_of_def snap_def is_system_sleep_def)
  moreover have "progress_action pw_ref pt 0 sleep_event sleepy_session = dispatch_event pw_ref pt 0 False eventOSCall (ce_body sleep_event) ?s"
    by (rule first_suspension [OF runs])
      (simp_all add: sleep_event_def no_event_def suspension_event_def event_order sleepy_session_def busy_session_def
        plain_session_def new_session_def no_limits_def)
  moreover have "is_system_sleep c" using c(2) by (simp add: is_system_sleep_def)
  ultimately show ?thesis
    using c(1) by (auto simp: progress.simps [of pw_ref pt 0 sleep_event] dispatch_event_def Let_def)
qed

text \<open>
  C11: Handling the worker's events keeps the accounts of system sleeps non-negative.  A system sleep is
  handed out only within the session's budget, and it is charged once: the account grows by exactly the delay that
  the sleep is granted (as far as it fits 63 bits), or not at all when the charge came with the snapshot the feed
  was restored from.  When no sleep is handed out the account stays as it is, however many sleeps were refused.
\<close>

theorem sleep_budget:
  assumes "progress pw pt r e s as = Some (p, s', as')" and "sleep_ok s" and "r < length (se_runs s)"
  shows "sleep_ok s'
    \<and> (\<forall>i. sleep_granted p s' i \<longrightarrow> within_budget s'
         \<and> sleep_charged pw (rs_restoring (se_runs s ! r) \<and> rs_restoreSleepCharged (se_runs s ! r)
              \<and> length (events_handled e as as') = 1) (last (events_handled e as as')) s s' i)
    \<and> ((\<nexists>i. sleep_granted p s' i) \<longrightarrow> se_sleepUsed s' = se_sleepUsed s)"
  using progress_kept [OF assms(1,2)] progress_charged [OF assms]
  by (auto simp: sleep_kept_def charged_or_same_def sleep_granted_def)

theorem sleep_budget_witness:
  "\<exists>s' as'. progress pw_ref (\<lambda>n. []) 0 sleep_event sleepy_session [] = Some (Inr (Suspended 0), s', as')
     \<and> system_sleep_at s' 0 \<and> within_budget s' \<and> sint (se_sleepUsed s') = 500000000"
proof -
  obtain s' as' where s': "progress pw_ref (\<lambda>n. []) 0 sleep_event sleepy_session [] = Some (Inr (Suspended 0), s', as')"
    "system_sleep_at s' 0" using sleep_progress by blast
  have start: "sleep_ok sleepy_session" "0 < length (se_runs sleepy_session)" "se_sleepUsed sleepy_session = 0"
    "\<not> rs_restoring (se_runs sleepy_session ! 0)"
    by (simp_all add: sleep_ok_def sleepy_session_def busy_session_def plain_session_def new_session_def newRunState_def)
  have "sleep_granted (Inr (Suspended 0)) s' 0" using s'(2) by (simp add: sleep_granted_def)
  with sleep_budget [OF s'(1) start(1,2)] have b: "within_budget s'"
    "sleep_charged pw_ref False (last (events_handled sleep_event [] as')) sleepy_session s' 0"
    using start(4) by auto
  have "last (events_handled sleep_event [] as') = sleep_event" by (simp add: events_handled_def)
  with b(2) obtain c w where c: "decodeOSCall pw_ref (ce_body sleep_event) = Inr c" "ca_Args c = [VFloat64 w]"
    "sint (se_sleepUsed s') = min (2 ^ 63 - 1) (sint (se_sleepUsed sleepy_session) + sint (sleep_delay sleepy_session w))"
    unfolding sleep_charged_def by auto
  with sleep_decoded have "w = sleep_seconds" by (auto simp: sleep_event_def)
  then have "sint (se_sleepUsed s') = 500000000" using c(3) start(3) sleepy_delay by simp
  with s' b(1) show ?thesis by blast
qed

text \<open>
  C12: Every suspension that the worker sends is counted once, those that are answered with an abort too, and
  only the first one of a restored feed is not counted again.  A feed that is handed out suspended has at most the allowed
  number of suspensions: the limit of the session, or 1000.
\<close>

theorem suspension_limit_kept:
  assumes "progress pw pt r e s as = Some (p, s', as')" and "r < length (se_runs s)"
  shows "rs_suspensions (se_runs s' ! r) = rs_suspensions (se_runs s ! r)
      + of_nat (suspensions_counted (rs_restoring (se_runs s ! r)) (events_handled e as as'))
    \<and> (\<forall>i. p = Inr (Suspended i) \<longrightarrow> rs_suspensions (se_runs s' ! r) \<le> suspension_limit s')"
  using progress_counts [OF assms] assms(1) progress_limit by metis

theorem suspension_limit_kept_witness:
  "rs_suspensions (se_runs (busy_session\<lparr>se_runs := [suspended_run], se_snaps := [(name_snapshot, False)]\<rparr>) ! 0)
     = rs_suspensions (se_runs busy_session ! 0)
       + of_nat (suspensions_counted (rs_restoring (se_runs busy_session ! 0)) (events_handled name_event [] []))
   \<and> rs_suspensions (se_runs (busy_session\<lparr>se_runs := [suspended_run], se_snaps := [(name_snapshot, False)]\<rparr>) ! 0)
     \<le> suspension_limit (busy_session\<lparr>se_runs := [suspended_run], se_snaps := [(name_snapshot, False)]\<rparr>)"
proof -
  have p: "progress pw_ref (\<lambda>n. []) 0 name_event busy_session []
      = Some (Inr (Suspended 0), busy_session\<lparr>se_runs := [suspended_run], se_snaps := [(name_snapshot, False)]\<rparr>, [])"
    by (rule name_progress) (simp_all add: busy_session_def plain_session_def new_session_def no_limits_def)
  have "0 < length (se_runs busy_session)" by (simp add: busy_session_def)
  from suspension_limit_kept [OF p this] show ?thesis by blast
qed

text \<open>
  C13: Handling an event returns as soon as the worker gives any answer that is not a further
  suspension, however often the feed has to be aborted before.
\<close>

theorem progress_terminates:
  assumes "final_answer (Inr e) \<or> (\<exists>a \<in> set as. final_answer a)"
  shows "\<exists>p s' as'. progress pw pt r e s as = Some (p, s', as')"
  using progress_returns [OF assms, of pw pt r s] by (cases "progress pw pt r e s as") auto

theorem progress_terminates_witness:
  "\<exists>p s' as'. progress pw_ref (\<lambda>n. []) 0 name_event busy_session [Inl EOF] = Some (p, s', as')"
  by (rule progress_terminates) simp

text \<open>
  C36: When the answer to a name lookup cannot be encoded, the resume fails after its snapshot has been
  claimed, and the feed is stranded: it stays suspended with every current snapshot spent, so that
  no operation but \<open>Close\<close> is left.
\<close>

theorem failed_resume:
  assumes "reachable pw pt h (world s ts rs)" and "\<not> se_closed s" and "i < length (se_snaps s)" and "\<not> snd (se_snaps s ! i)"
    and "se_pending s = Some (sn_state (snap s i))" and "rs_step (se_runs s ! sn_state (snap s i)) = sn_step (snap s i)"
    and "resumeNameValueRequest pw h v = Inl e"
  shows "\<exists>s'. NameLookupSnapshot_Resume pw pt h i v s as = Some (Inl e, s', as) \<and> stranded s'"
  using failed_resume_strands [OF reachable_inv [OF assms(1)] assms(2-6), of pw pt e as] assms(7)
  by (simp add: NameLookupSnapshot_Resume_def name_resume_def claimed_def split: sum.splits)

definition waiting_session :: session where
  "waiting_session = busy_session\<lparr>se_inTurn := False, se_runs := [suspended_run], se_snaps := [(name_snapshot, False)],
     se_sent := [empty_feed], se_pending := Some 0\<rparr>"

lemma waiting_reachable: "reachable pw_ref pt [] (world waiting_session [] [])"
proof (rule reachable.step [OF busy_reachable])
  let ?s = "busy_session\<lparr>se_sent := [empty_feed]\<rparr>"
  have "executionExchange empty_feed busy_session [Inr name_event] = Some (Inr name_event, ?s, [])"
    by (simp add: executionExchange_def budget_exhausted_def worker_exchange_def busy_session_def plain_session_def
      new_session_def no_limits_def observeEvent_def name_event_def no_event_def)
  moreover have "FeedStart_end pw_ref pt 0 (Inr name_event) ?s [] = Some (Inr (Suspended 0), waiting_session, [])"
    by (simp add: FeedStart_end_def busy_session_def plain_session_def new_session_def no_limits_def name_progress
      waiting_session_def)
  ultimately show "session_step pw_ref pt [] (world busy_session [FeedTurn 0 empty_feed] []) (world waiting_session [] [])"
    using session_step.feed_end [where ts = "[]" and us = "[]" and rs = "[]"] by fastforce
qed

theorem failed_resume_witness:
  "\<exists>e s'. NameLookupSnapshot_Resume pw_ref (\<lambda>n. []) [] 0 (VInstanceType ''A'') waiting_session [] = Some (Inl e, s', []) \<and> stranded s'"
proof -
  have "resumeNameValueRequest pw_ref [] (VInstanceType ''A'')
      = Inl (Errorf ''InstanceType cannot be used as an execution input'' [])"
    by (simp add: resumeNameValueRequest_def arena_add_def encodeValue_def encode.simps maxValueDepth_def)
  from failed_resume [OF waiting_reachable _ _ _ _ _ this, of 0 "\<lambda>n. []" "[]"] show ?thesis
    by (auto simp: waiting_session_def busy_session_def plain_session_def new_session_def snap_def name_snapshot_def
      suspended_run_def newRunState_def)
qed




text \<open>
  C38: Once \<open>Close\<close> has returned, outside a turn and whatever the worker answered to the reset, every
  operation on the session and on its snapshots is refused without reaching the worker, and closing again does nothing.
\<close>

theorem closed_session:
  assumes "Close pw pt s as = Some (res, s', as')" and "\<not> se_inTurn s"
  shows "refused (Session_Dump pw pt s' bs) s' bs \<and> refused (snapshotDump pw pt r st s' bs) s' bs
    \<and> refused (InstallDependencies pw pt names s' bs) s' bs \<and> refused (Session_Ops.load pw pt state o1 s' bs) s' bs
    \<and> refused (FeedStart pw pt h code options s' bs) s' bs \<and> refused (exchange pw pt r req st s' bs) s' bs
    \<and> Close pw pt s' bs = Some (Inr (), s', bs)"
  by (intro conjI; rule refused_after_close [OF Close_closes [OF assms]])

theorem closed_session_witness:
  "\<exists>s'. Close pw_ref (\<lambda>n. []) plain_session [Inl EOF] = Some (Inl EOF, s', [])
     \<and> refused (FeedStart pw_ref (\<lambda>n. []) [] [] [] s' []) s' []"
proof -
  obtain s' where s': "Close pw_ref (\<lambda>n. []) plain_session [Inl EOF] = Some (Inl EOF, s', [])"
    by (simp add: Close_def Close_begin_def Close_end_def worker_exchange_def plain_session_def new_session_def Let_def)
  have "\<not> se_inTurn plain_session" by (simp add: plain_session_def new_session_def)
  from closed_session [OF s' this] s' show ?thesis by blast
qed

section \<open>Arenas and requests\<close>

text \<open>
  C9: Values added to one arena come back, each behind the index it was given: the reader rebuilds
  from the nodes exactly the Python values that the conversion table assigns to the host values.
\<close>

theorem arena_roundtrip:
  assumes "wire_format pw" and "arena_add_all pw h xs [] = Inr (is, ns)" and "length ns \<le> 2 ^ 32"
  shows "\<exists>vals ws. decodeArena pw (arena_encode pw ns) = Inr vals \<and> list_all2 (denotes h) xs ws
    \<and> map_res (arenaRef vals) (map ucast is) = Inr ws"
  by (rule wire_format.arena_roundtrip_lists [OF assms])

lemma arena_example:
  "arena_add pw_ref h (VBool True) [] = Inr (0, [fieldBool pw_ref 4 True])"
proof -
  have "encodeValue pw_ref h (VBool True) = Inr (fieldBool pw_ref 4 True)"
    by (simp add: encodeValue_def encode.simps)
  then show ?thesis
    by (simp add: arena_add_def wire_format.addLegacy_unfold [OF ref.wire_format_axioms] add_message_def add_field_def add_body_def fieldBool_def
      ref.message_parse valid_tag_def varint_field_def legacyNodeTags_def parse_result_def)
qed

theorem arena_roundtrip_witness:
  "\<exists>vals w. decodeArena pw_ref (arena_encode pw_ref [fieldBool pw_ref 4 True]) = Inr vals
     \<and> denotes [] (VBool True) w \<and> arenaRef vals 0 = Inr w"
  using arena_roundtrip [OF ref.wire_format_axioms, of "[]" "[VBool True]" "[0]" "[fieldBool pw_ref 4 True]"]
  by (auto simp: arena_example list_all2_Cons1 bind_res_eq_Inr)

text \<open>
  C39: The arena writer accepts every value that \<open>encodeValue\<close> accepts, and only those.
\<close>

theorem arena_accepts:
  assumes "wire_format pw" and "decode_nodes pw [] ns = Inr vals"
  shows "(\<exists>r. arena_add pw h v ns = Inr r) = (\<exists>b. encodeValue pw h v = Inr b)"
  using wire_format.arena_add_accepts [OF assms(1) _ assms(2), of h v]
  by (cases "encodeValue pw h v") (auto simp: arena_add_def)

theorem arena_accepts_witness: "\<exists>r. arena_add pw_ref [] (VList [VBool True, VNil]) [] = Inr r"
  using arena_accepts [OF ref.wire_format_axioms, of "[]" "[]" "[]" "VList [VBool True, VNil]"] encode_example [of pw_ref "[]"]
  by simp

text \<open>
  C21: The request that resumes a call with a value carries that value: its arena and index, read back,
  give the one Python value that the conversion table assigns to it.
\<close>

theorem resume_delivers:
  assumes "wire_format pw" and "resumeCallRequest pw h callID (resume_value v) = Inr req"
  shows "\<exists>(i :: uint32) ns. arena_add pw h v [] = Inr (i, ns)
    \<and> decodeBytesField pw (rq_body req) 2 = fieldVarint pw 1 (ucast i)
    \<and> (length ns \<le> 2 ^ 32 \<longrightarrow>
        (\<exists>vals w. messageArena pw (rq_body req) 3 = Inr vals \<and> denotes h v w \<and> arenaRef vals (ucast i) = Inr w))"
  by (rule wire_format.resumeCallRequest_delivers [OF assms])

theorem resume_delivers_witness:
  "\<exists>req. resumeCallRequest pw_ref [] 7 (resume_value (VBool True)) = Inr req
     \<and> (\<exists>vals w. messageArena pw_ref (rq_body req) 3 = Inr vals \<and> denotes [] (VBool True) w \<and> arenaRef vals 0 = Inr w)"
proof -
  obtain req where req: "resumeCallRequest pw_ref [] 7 (resume_value (VBool True)) = Inr req"
    by (simp add: resumeCallRequest_def encodeResumeResultArena_def resume_value_def arena_example)
  from resume_delivers [OF ref.wire_format_axioms req] show ?thesis
    unfolding req by (auto simp: arena_example)
qed

section \<open>Events and exceptions\<close>

text \<open>
  An accepted event has exactly one of the fields 1 to 12, whose number and payload are the kind and the
  body of the event.
\<close>

lemma event_single:
  assumes "decodeEvent pw (concat (map (put_item pw) items)) = Inr e" and "wire_format pw"
    and "\<forall>i \<in> set items. valid_tag (item_tag i)"
  shows "\<exists>f. event_fields (map item_field items) = [f] \<and> ce_kind e = Some (event_kinds ! (tag f - 1)) \<and> ce_body e = bytes f"
proof -
  from assms(1) have "fold_res event_field (map item_field items) no_event = ok e" "ce_kind e \<noteq> None"
    by (auto simp: decodeEvent_def parse_result_def wire_format.parse_items [OF assms(2,3)] result_of_eq_Inr
      bind_res_eq_Inr split: if_splits option.splits)
  with event_fold [OF this(1)] show ?thesis
    by (auto simp: no_event_def split: list.splits)
qed

text \<open>
  C28: An exception raised in Python reaches Go, and one raised in Go reaches Python, unchanged: type,
  message, every frame and the structured payload, as long as the payload keeps the size limits.
\<close>

theorem error_event_roundtrip:
  assumes "wire_format pw" and "pred_option (payload_ok (max 65536 (length (ex_Message x)))) (ex_Data x)"
  shows "decodeErrorEvent pw (fieldMessage pw 1 (encodeRaised pw x)) = Inr x"
  by (rule wire_format.decodeErrorEvent_encodeRaised [OF assms])

theorem error_event_roundtrip_witness:
  "decodeErrorEvent pw_ref (fieldMessage pw_ref 1 (encodeRaised pw_ref too_much_sleep)) = Inr too_much_sleep"
  by (rule error_event_roundtrip [OF ref.wire_format_axioms]) (simp add: too_much_sleep_def simple_raised_def)

text \<open>
  Structured exception data that the decoder accepts keeps the limits: no text of more than 64 KiB,
  a JSON message within the caller's limit, and at most one form of the offending object.
\<close>

lemma exception_data_limits:
  assumes "decodeExceptionDataWithLimit pw data limit = Inr (Some x)"
  shows "payload_ok limit x"
  using assms by (rule decodeExceptionDataWithLimit_ok)

lemma exception_data_limits_example:
  "payload_ok 3 (JSONErrorData \<lparr>jd_Message = ''bad'', jd_Document = None, jd_Position = 0, jd_Line = 1, jd_Column = 2\<rparr>)"
proof (rule exception_data_limits)
  show "decodeExceptionDataWithLimit pw_ref (encodeExceptionData pw_ref
      (Some (JSONErrorData \<lparr>jd_Message = ''bad'', jd_Document = None, jd_Position = 0, jd_Line = 1, jd_Column = 2\<rparr>))) 3
    = Inr (Some (JSONErrorData \<lparr>jd_Message = ''bad'', jd_Document = None, jd_Position = 0, jd_Line = 1, jd_Column = 2\<rparr>))"
    by (rule ref.decodeExceptionDataWithLimit_encode) simp
qed


lemma event_single_example:
  "\<exists>f. event_fields (map item_field [VarintItem 20 5, BytesItem 4 ''ab'']) = [f] \<and> bytes f = ''ab''"
proof -
  let ?items = "[VarintItem 20 5, BytesItem 4 ''ab'']"
  let ?e = "no_event\<lparr>ce_kind := Some eventNameLookup, ce_body := ''ab'', ce_totalExecutionMicros := 5\<rparr>"
  have tags: "\<forall>i \<in> set ?items. valid_tag (item_tag i)" by (simp add: valid_tag_def)
  have "decodeEvent pw_ref (concat (map (put_item pw_ref) ?items)) = Inr ?e"
    unfolding decodeEvent_def parse_result_def wire_format.parse_items [OF ref.wire_format_axioms tags]
    by (simp add: event_field_def no_event_def varint_field_def bytes_field_def event_kinds_def)
  from event_single [OF this ref.wire_format_axioms tags] show ?thesis
    by (intro exI [of _ "bytes_field 4 ''ab''"]) (simp add: event_fields_def varint_field_def bytes_field_def)
qed

text \<open>
  A Python error that a host callback returns is raised again as it was, frames and data included, except
  a syntax error: that becomes a \<open>RuntimeError\<close> with the old exception as its message.
\<close>

lemma error_reraised:
  "raisedFromError pt (Some (classifyRuntime x))
   = (if ex_Type x \<in> {''SyntaxError'', ''IndentationError'', ''TabError''}
      then simple_raised ''RuntimeError'' (RaisedException_Error x) else x)"
  by (simp add: raisedFromError_def classifyRuntime_def errors_as_unfold)

section \<open>Snapshots\<close>

text \<open>
  A dump is read back exactly when its two durations are not negative and the worker's state is not
  empty; the budgets come back with it, the sleep marked as charged.
\<close>

lemma snapshot_exact:
  assumes "wire_format pw"
  shows "(decodeSnapshot pw (encodeSnapshot pw state m) = Inr r)
    = (0 \<le>s sm_duration m \<and> 0 \<le>s sm_sleepUsed m \<and> state \<noteq> [] \<and> r = (state, m\<lparr>sm_hasSleepUsage := True\<rparr>))"
  by (auto simp: wire_format.decodeSnapshot_encodeSnapshot [OF assms] word_sle_eq not_less
    nonneg_unsigned_iff [simplified])

lemma snapshot_exact_example:
  "\<nexists>r. decodeSnapshot pw_ref (encodeSnapshot pw_ref ''x''
     \<lparr>sm_duration = -1, sm_suspensions = 0, sm_sleepUsed = 0, sm_hasSleepUsage = False\<rparr>) = Inr r"
  using snapshot_exact [OF ref.wire_format_axioms, of "''x''"] by (simp add: word_sle_eq)

text \<open>
  C15: A suspended feed that is dumped and loaded into another session keeps its budgets: the new session hands
  the worker the state it gave, counts the same suspensions and the same sleep (the suspension
  itself not again), and its duration limit is the stricter of the two.
\<close>

theorem dump_restores:
  assumes "wire_format pw" and "0 \<le> sint (se_maxDuration s)" and "0 \<le> sint (se_sleepUsed s)"
    and "Snapshot_Dump pw pt j s (Inr d # as) = Some (Inr data, s1, as)"
    and "decodeBytesField pw (ce_body d) 1 \<noteq> []" and "se_pending s = Some r"
    and "Session_Ops.load pw pt data o1 t [Inr e] = Some (Inr (Some i), t', bs)"
  shows "se_sleepUsed t' = se_sleepUsed s \<and> se_maxDuration t' = restored_duration (se_maxDuration t) (se_maxDuration s)
    \<and> se_pending t' = Some (length (se_runs t))
    \<and> rs_suspensions (se_runs t' ! length (se_runs t)) = rs_suspensions (se_runs s ! r)
    \<and> hd (drop (length (se_sent t)) (se_sent t'))
        = request reqLoad (fieldBytes pw 1 (decodeBytesField pw (ce_body d) 1))"
  by (rule dump_then_load [OF assms(1-4) refl assms(5-7)])

definition dump_event :: child_event where
  "dump_event = no_event\<lparr>ce_kind := Some eventDump, ce_body := fieldBytes pw_ref 1 ''state''\<rparr>"

lemma dumped_state: "decodeBytesField pw_ref (fieldBytes pw_ref 1 b) 1 = b"
  by (simp add: decodeBytesField_def ref.message_parse)

definition waiting_metadata :: snapshot_metadata where
  "waiting_metadata = \<lparr>sm_duration = 0, sm_suspensions = 1, sm_sleepUsed = 0, sm_hasSleepUsage = False\<rparr>"

lemma waiting_dump:
  "Snapshot_Dump pw_ref pt 0 waiting_session (Inr dump_event # as)
   = Some (Inr (encodeSnapshot pw_ref ''state'' waiting_metadata), waiting_session\<lparr>se_sent := [empty_feed, request reqDump []]\<rparr>, as)"
  by (simp add: Snapshot_Dump_def snapshotDump_def dump_result_def worker_exchange_def dump_event_def no_event_def
    waiting_session_def busy_session_def plain_session_def new_session_def snap_def name_snapshot_def suspended_run_def
    newRunState_def no_limits_def dumped_state waiting_metadata_def del: One_nat_def)

lemma plain_load:
  "\<exists>t' i. Session_Ops.load pw_ref pt (encodeSnapshot pw_ref ''state'' waiting_metadata) no_options plain_session [Inr name_event]
    = Some (Inr (Some i), t', [])"
proof -
  have d: "decodeSnapshot pw_ref (encodeSnapshot pw_ref ''state'' waiting_metadata)
      = Inr (''state'', waiting_metadata\<lparr>sm_hasSleepUsage := True\<rparr>)"
    by (simp add: wire_format.decodeSnapshot_encodeSnapshot [OF ref.wire_format_axioms] waiting_metadata_def)
  let ?s = "observeEvent name_event ((load_begin no_options (waiting_metadata\<lparr>sm_hasSleepUsage := True\<rparr>) plain_session)
     \<lparr>se_sent := [request reqLoad (fieldBytes pw_ref 1 ''state'')]\<rparr>)"
  have runs: "se_runs ?s = [(newRunState no_options)\<lparr>rs_suspensions := 1, rs_restoring := True, rs_restoreSleepCharged := True\<rparr>]"
    and max: "se_maxSuspensions ?s = 0"
    by (simp_all add: load_begin_def plain_session_def new_session_def waiting_metadata_def observeEvent_def name_event_def
      no_event_def no_limits_def)
  have "\<exists>i t'. progress_action pw_ref pt 0 name_event ?s = Return (Inr (Suspended i)) t'"
    using runs max
    by (simp add: progress_action_def name_event_def no_event_def Let_def suspension_event_def event_order
      count_suspension_def update_run_def suspension_limit_def dispatch_event_def name_decoded add_snapshot_def)
  then obtain i t' where "progress pw_ref pt 0 name_event ?s [] = Some (Inr (Suspended i), t', [])"
    by (auto simp: progress.simps [of pw_ref pt 0 name_event])
  then have "load_end pw_ref pt 0 name_event ((load_begin no_options (waiting_metadata\<lparr>sm_hasSleepUsage := True\<rparr>) plain_session)
     \<lparr>se_sent := [request reqLoad (fieldBytes pw_ref 1 ''state'')]\<rparr>) [] = Some (Inr (Some i), t'\<lparr>se_pending := Some 0\<rparr>, [])"
    by (simp add: load_end_def) (simp add: name_event_def no_event_def)
  moreover have "se_runs plain_session = []" "se_sent (load_begin o1 m plain_session) = []" "load_guard plain_session = None" for o1 m
    by (simp_all add: plain_session_def new_session_def load_begin_def load_guard_def)
  ultimately show ?thesis by (simp add: Session_Ops.load_def d worker_exchange_def)
qed

theorem dump_restores_witness:
  "\<exists>t' i. Session_Ops.load pw_ref (\<lambda>n. []) (encodeSnapshot pw_ref ''state'' waiting_metadata) no_options plain_session
      [Inr name_event] = Some (Inr (Some i), t', []) \<and> rs_suspensions (se_runs t' ! 0) = 1"
proof -
  obtain t' i where t': "Session_Ops.load pw_ref (\<lambda>n. []) (encodeSnapshot pw_ref ''state'' waiting_metadata) no_options
      plain_session [Inr name_event] = Some (Inr (Some i), t', [])" using plain_load by blast
  from dump_restores [OF ref.wire_format_axioms _ _ waiting_dump [of "\<lambda>n. []" "[]"] _ _ t', of 0] t' show ?thesis
    by (simp add: dump_event_def no_event_def dumped_state waiting_session_def busy_session_def plain_session_def
      new_session_def no_limits_def suspended_run_def del: One_nat_def)
qed

section \<open>Host modules\<close>

text \<open>
  C29: Every function of a host module can be called: the module value that an import gives Python contains, at
  the function's place, a marker whose dotted name the session resolves to that same function.
\<close>

theorem module_functions:
  assumes "unicode_tables uc" and "map_of modules name = Some m" and "pythonIdentifier uc name" and "module_ok uc m"
    and "function_at m p f" and "module_content m name 0 = Inr c"
  shows "\<exists>n. marker_at c p n \<and> modules_function modules n = Some f"
  using assms by (rule module_function_resolves)

definition ascii_tables :: unicode where
  "ascii_tables = \<lparr>uc_letter = (\<lambda>r. 65 \<le> r \<and> r \<le> 90 \<or> 97 \<le> r \<and> r \<le> 122), uc_digit = (\<lambda>r. 48 \<le> r \<and> r \<le> 57), uc_mark = (\<lambda>r. False)\<rparr>"

definition small_module :: "Value external_module" where
  "small_module = ExternalModule 1 [(''f'', HFunc 0 None)] []"

lemma short_identifiers: "pythonIdentifier ascii_tables ''m'' \<and> pythonIdentifier ascii_tables ''f''"
  by (simp add: pythonIdentifier_def contains_str_simps python_keywords_def identifier_rune_def ascii_tables_def decode_rune_def)

theorem module_functions_witness:
  "\<exists>n. marker_at (Module ''m'' 1 [(VString ''f'', VFunction \<lparr>fn_Name = ''m.f'', fn_Docstring = None\<rparr>)]) [''f''] n
     \<and> modules_function [(''m'', small_module)] n = Some (HFunc 0 None)"
proof (rule module_functions [of ascii_tables])
  show "unicode_tables ascii_tables" by (simp add: unicode_tables_def ascii_tables_def)
  show "map_of [(''m'', small_module)] ''m'' = Some small_module" by simp
  show "pythonIdentifier ascii_tables ''m''" using short_identifiers by blast
  show "module_ok ascii_tables small_module"
    by (rule module_ok.intros) (use short_identifiers in \<open>auto simp: small_module_def\<close>)
  show "function_at small_module [''f''] (HFunc 0 None)"
    by (rule function_at.here) (simp_all add: small_module_def isHostFunction_def)
  show "module_content small_module ''m'' 0 = Inr (Module ''m'' 1 [(VString ''f'', VFunction \<lparr>fn_Name = ''m.f'', fn_Docstring = None\<rparr>)])"
    by (subst module_content.simps) (simp add: small_module_def isHostFunction_def functionDoc_def dotted_def)
qed

text \<open>
  \<open>NewExternalModule\<close> builds a well-formed module with an identity: all attribute names are public
  Python identifiers without duplicates, in the submodules too.
\<close>

lemma module_constructed:
  assumes "NewExternalModule uc rand attrs options = Inr m" and "distinct (map fst attrs)"
    and "\<And>k c. (k, Some (VExternalModule c)) \<in> set attrs \<Longrightarrow> module_ok uc c"
  shows "module_ok uc m \<and> em_id m \<noteq> 0"
  using assms by (rule NewExternalModule_ok)

lemma module_constructed_example: "\<exists>m. NewExternalModule ascii_tables 0 [(''f'', Some VNil)] [] = Inr m
  \<and> module_ok ascii_tables m \<and> em_id m \<noteq> 0"
proof -
  obtain m where m: "NewExternalModule ascii_tables 0 [(''f'', Some VNil)] [] = Inr m"
    using short_identifiers by (simp add: NewExternalModule_def Let_def module_attr_def)
  from module_constructed [OF this] m show ?thesis by simp
qed

section \<open>Printing\<close>

text \<open>
  A string collector keeps exactly the chunks before the first that does not fit, never more than its limit,
  and answers every later print with the same \<open>MemoryError\<close>.
\<close>

lemma print_capped:
  assumes "NewCollectString l = Inr c"
  shows "CollectString_Output (fst (write_all CollectString_Write ps c)) = concat (map snd (fitting (cs_max c) 0 ps))
    \<and> (0 \<le> cs_max c \<longrightarrow> int (length (CollectString_Output (fst (write_all CollectString_Write ps c)))) \<le> cs_max c)
    \<and> snd (write_all CollectString_Write ps c) = map (\<lambda>p. None) (fitting (cs_max c) 0 ps)
        @ replicate (length ps - length (fitting (cs_max c) 0 ps)) (Some (exceeded (cs_max c)))"
proof -
  have c: "string_valid c" "cs_failed c = None" "cs_output c = []"
    using assms by (auto simp: NewCollectString_def string_valid_def bind_res_eq_Inr)
  from string_collector.write_all_fitting [OF c(1,2), of ps] string_collector.bounded [OF c(1,2), of ps] c(3)
  show ?thesis by (simp add: CollectString_Output_def)
qed

definition two_prints :: "(print_stream \<times> string) list" where
  "two_prints = [(1, ''ab''), (2, ''cd'')]"

lemma print_capped_example:
  "CollectString_Output (fst (write_all CollectString_Write two_prints
     \<lparr>cs_output = [], cs_bytes = 0, cs_max = 3, cs_failed = None\<rparr>)) = ''ab''"
  using print_capped [of "[3]" "\<lparr>cs_output = [], cs_bytes = 0, cs_max = 3, cs_failed = None\<rparr>" two_prints]
  by (simp add: NewCollectString_def printLimit_def two_prints_def)

text \<open>
  The two collectors answer the same prints the same way, and the text of one is the concatenation of
  the entries of the other.
\<close>

lemma collectors_agree:
  assumes "NewCollectString l = Inr c" and "NewCollectStreams l = Inr d"
  shows "snd (write_all CollectString_Write ps c) = snd (write_all CollectStreams_Write ps d)
    \<and> CollectString_Output (fst (write_all CollectString_Write ps c))
        = concat (map en_Text (CollectStreams_Output (fst (write_all CollectStreams_Write ps d))))"
proof -
  have c: "string_valid c" "cs_failed c = None" "cs_output c = []"
    and d: "streams_valid d" "ct_failed d = None" "streams_text d = []" "ct_max d = cs_max c"
    using assms
    by (auto simp: NewCollectString_def NewCollectStreams_def string_valid_def streams_valid_def streams_text_def bind_res_eq_Inr)
  from string_collector.write_all_fitting [OF c(1,2), of ps] stream_collector.write_all_fitting [OF d(1,2), of ps] c(3) d(3,4)
  show ?thesis by (simp add: CollectString_Output_def CollectStreams_Output_def flip: streams_text_def)
qed

lemma collectors_agree_example:
  "snd (write_all CollectString_Write two_prints \<lparr>cs_output = [], cs_bytes = 0, cs_max = 3, cs_failed = None\<rparr>)
   = snd (write_all CollectStreams_Write two_prints \<lparr>ct_output = [], ct_bytes = 0, ct_max = 3, ct_failed = None\<rparr>)"
  using collectors_agree [of "[3]" "\<lparr>cs_output = [], cs_bytes = 0, cs_max = 3, cs_failed = None\<rparr>"
    "\<lparr>ct_output = [], ct_bytes = 0, ct_max = 3, ct_failed = None\<rparr>" two_prints]
  by (simp add: NewCollectString_def NewCollectStreams_def printLimit_def)

section \<open>The OS policy\<close>

text \<open>
  An integer seed is sent as little-endian two's complement that means exactly that integer, whatever Go
  integer type holds it.
\<close>

lemma seed_exact:
  "(\<exists>b. encodeRandomSeed pw (HBigInt z) = Inr (fieldBytes pw 1 b) \<and> b \<noteq> [] \<and> twos_value b = z)
    \<and> encodeRandomSeed pw (VBigInt z) = encodeRandomSeed pw (HBigInt z)
    \<and> encodeRandomSeed pw (HInt k w) = encodeRandomSeed pw (HBigInt (sint w))
    \<and> encodeRandomSeed pw (HUint k' w) = encodeRandomSeed pw (HBigInt (uint w))"
proof -
  obtain n where "0 < n" "length (seed_bytes z) = n" by (rule seed_size)
  then have "seed_bytes z \<noteq> []" by auto
  then show ?thesis
    by (intro conjI exI [of _ "seed_bytes z"]) (simp_all add: encodeRandomSeed_def twos_value_seed_bytes)
qed

section \<open>Accepted defects\<close>

text \<open>
  When the arena of an \<open>os.getenv\<close> call is malformed, the call is accepted all the same, with no
  default: the error is dropped.
\<close>

lemma getenv_default_lost:
  assumes "wire_format pw" and "messageArena pw data 50 = Inl e"
  shows "decode_getenv pw data (fieldString pw 1 key @ fieldVarint pw 2 i) = Inr (key, VNil)"
proof -
  have "parseFields pw (fieldString pw 1 key @ fieldVarint pw 2 i) (getenv_field pw data) ([], VNil, None)
      = fail (key, VNil, None) e"
    by (simp add: wire_format.message_parse [OF assms(1)] getenv_field_def assms(2))
  then show ?thesis by (simp add: decode_getenv_def)
qed

lemma getenv_default_lost_example:
  "decode_getenv pw_ref (fieldBytes pw_ref 50 (fieldVarint pw_ref 2 0)) (fieldString pw_ref 1 ''HOME'' @ fieldVarint pw_ref 2 0) = Inr (''HOME'', VNil)"
proof -
  obtain e where "messageArena pw_ref (fieldBytes pw_ref 50 (fieldVarint pw_ref 2 0)) 50 = Inl e"
    by (simp add: messageArena_def decodeBytesField_def decodeArena_def parse_result_def ref.message_parse)
  then show ?thesis by (rule getenv_default_lost [OF ref.wire_format_axioms])
qed

section \<open>Host functions and Decode\<close>

text \<open>
  C10: A Go value made of booleans, numbers, texts, bytes, pointers, slices, arrays, string-keyed maps and
  structs with distinct field names, of types that the encoder treats by their kind, passed to Monty and returned
  unchanged, is decoded into the same Go value.  (Excluded are, for instance, \<open>time.Duration\<close>, which becomes a timedelta, types
  with a \<open>MarshalText\<close>, and arrays of a defined byte type; a nil slice or map comes back empty, which the model does not tell apart.)
\<close>

theorem go_value_roundtrip:
  assumes "wire_format pw" and "encodeValue pw h hv = Inr b" and "native rt h T d hv"
  shows "\<exists>w. decodeValue pw b = Inr w \<and> Decode_value rt w T = Result (Inr (T, d))"
proof -
  from wire_format.encode_sound [OF assms(1)] assms(2) obtain w where w: "denotes h hv w" "message pw b w"
    unfolding encodeValue_def by blast
  have "convertHostArg rt w T = Inr (T, d)"
    using native_comes_back [OF assms(3) w(1)] by (simp add: comes_back_def)
  then have "Decode_value rt w T = Result (Inr (T, d))"
    using native_not_interface [OF assms(3)] by (simp add: Decode_value_def)
  then show ?thesis using wire_format.message_decode [OF assms(1) w(2)] by blast
qed

lemma small_slice: "encodeValue pw [] (HSlice [HInt Int8 5])
    = Inr (fieldMessage pw 11 (fieldMessage pw 1 (fieldSInt64 pw 5 5)))"
  by (simp add: encodeValue_def encode.simps encodeReflectList_def maxValueDepth_def wrap_err_def
      del: One_nat_def)

lemma small_native: "native no_reflect [] (TSlice (TInt Int8)) (DSlice (map (Pair (TInt Int8)) [DInt 5])) (HSlice [HInt Int8 5])"
  by (rule native.slice)
    (auto intro!: native.int simp: overflow_int_iff int_bits_def by_kind_def marshals_text_def no_reflect_def)

theorem go_value_roundtrip_witness:
  "\<exists>w. decodeValue pw_ref (fieldMessage pw_ref 11 (fieldMessage pw_ref 1 (fieldSInt64 pw_ref 5 5))) = Inr w
     \<and> Decode_value no_reflect w (TSlice (TInt Int8))
       = Result (Inr (TSlice (TInt Int8), DSlice (map (Pair (TInt Int8)) [DInt 5])))"
  by (rule go_value_roundtrip [OF ref.wire_format_axioms small_slice small_native])

text \<open>
  C32: \<open>Decode[T]\<close> does not always return.  It panics when, before anything fails to convert, a \<open>bytes\<close> value
  inside meets a slice or array of a defined byte type, on which \<open>reflect.Copy\<close> panics; and when the value has a type other than
  \<open>T\<close> with the same underlying type, and one of the two has no name: it is kept with its own type and the final type assertion
  panics.  For types other than defined pointers it panics in no other case.  So \<open>Decode[[]any]\<close> panics on
  every \<open>List\<close>, and \<open>Decode[[]B]\<close> on every \<open>bytes\<close> value when \<open>B\<close> is a defined byte type.
\<close>

theorem Decode_panic_exact:
  assumes "\<forall>E. underlying T = TPointer E \<longrightarrow> T = TPointer E" and "\<not> is_interface (type_of rt v)"
  shows "((\<exists>m. Decode_value rt v T = Panic m) \<longleftrightarrow>
      copy_panics rt v T
      \<or> v \<noteq> VNil \<and> \<not> is_interface T \<and> type_of rt v \<noteq> T \<and> underlying (type_of rt v) = underlying T
        \<and> \<not> (has_name (type_of rt v) \<and> has_name T))
    \<and> (\<exists>m. Decode_value rt (VList xs) (TSlice TAny) = Panic m)
    \<and> (\<exists>m. Decode_value rt (VBytes b) (TSlice (TNamed n (TUint Uint8))) = Panic m)"
  using Decode_panics [OF assms] Decode_panics [of "TSlice TAny" rt "VList xs"]
    Decode_panics [of "TSlice (TNamed n (TUint Uint8))" rt "VBytes b"] copy_panics_bytes [of "TNamed n (TUint Uint8)" rt b]
  by (simp add: is_interface_def defined_byte_def)

theorem Decode_panic_exact_witness:
  "\<not> (\<exists>m. Decode_value no_reflect (VInt64 7) (TPointer TString) = Panic m)
   \<and> (\<exists>m. Decode_value no_reflect (VList [VInt64 7]) (TSlice TAny) = Panic m)"
proof -
  have "\<not> copy_panics no_reflect (VInt64 7) (TPointer TString)"
    using copy_panics_unsafe [of no_reflect "VInt64 7" "TPointer TString"] by auto
  then show ?thesis
    using Decode_panic_exact [of "TPointer TString" no_reflect "VInt64 7" "[VInt64 7]"] by (simp add: is_interface_def)
qed

text \<open>
  C31: Whatever \<open>convertHostArg\<close> returns can be stored where the code stores it: its type is assignable to
  the target, and so on for everything inside it, numbers fit their types, arrays have their length, map keys are
  comparable.  The conversion panics only when the target type contains a slice or array of a defined byte type.
\<close>

theorem conversion_typed:
  "(\<forall>r. convertHostArg rt v T = Inr r \<longrightarrow> assignable rt (fst r) T \<and> stored rt (fst r) (snd r))
    \<and> (\<forall>m. convertHostArg rt v T = Inl (Panics m) \<longrightarrow> \<not> byte_safe T)"
  using convert_stored convert_panics [of rt v T] copy_panics_unsafe [of rt v T]
  by (auto simp: byte_safe_underlying)

lemma tuple_to_array: "convertHostArg no_reflect (VTuple [VInt64 7]) (TArray 1 (TInt Int64))
    = Inr (TArray 1 (TInt Int64), DArray [(TInt Int64, DHost (VInt64 7))])"
  by (subst convertHostArg.simps)
    (simp add: assignable_def implements_def numericTo_def is_number_def isSigned_def isUnsigned_def isFloat_def
      safeDirectConversion_def raw_bytes_def sequenceValues_def convert_items_def convert_assignable)

theorem conversion_typed_witness:
  "assignable no_reflect (TArray 1 (TInt Int64)) (TArray 1 (TInt Int64))
   \<and> stored no_reflect (TArray 1 (TInt Int64)) (DArray [(TInt Int64, DHost (VInt64 7))])"
  using conversion_typed [of no_reflect "VTuple [VInt64 7]" "TArray 1 (TInt Int64)"] tuple_to_array by simp

text \<open>
  A Python integer, of any size, converts to a Go integer type exactly when the type can hold it, and
  then keeps its value.
\<close>

lemma integer_conversion:
  assumes "integer_of v = Some z"
  shows "(underlying T = TInt k \<longrightarrow> (numericTo v T = Some d \<longleftrightarrow>
       - (2 ^ (int_bits k - 1)) \<le> z \<and> z < 2 ^ (int_bits k - 1) \<and> (\<exists>w. d = DInt w \<and> sint w = z)))
    \<and> (underlying T = TUint u \<longrightarrow> (numericTo v T = Some d \<longleftrightarrow>
       0 \<le> z \<and> z < 2 ^ uint_bits u \<and> (\<exists>w. d = DUint w \<and> uint w = z)))"
  using signed_result [where k = k and z = z and d = d] unsigned_result [where u = u and z = z and d = d]
  by (auto simp: numericTo_integer [OF assms] integerTo_signed integerTo_unsigned)

lemma integer_conversion_example:
  "numericTo (VInt64 300) (TInt Int8) = None \<and> numericTo (VBigInt 200) (TUint Uint8) = Some (DUint 200)"
proof -
  have "integer_of (VInt64 300) = Some 300" "integer_of (VBigInt 200) = Some 200" by (simp_all add: integer_of_def)
  from integer_conversion [OF this(1), where T = "TInt Int8" and k = Int8]
    integer_conversion [OF this(2), where T = "TUint Uint8" and u = Uint8 and d = "DUint 200"]
  show ?thesis by (cases "numericTo (VInt64 300) (TInt Int8)") (auto simp: int_bits_def uint_bits_def)
qed

text \<open>
  A dictionary read as a struct depends only on the keys that name fields: neither the order of the keys
  nor any other key makes a difference, and a missing key is no error.
\<close>

lemma struct_fields:
  assumes "underlying T = TStruct fs" and "distinct (map fst kvs)" and "distinct (map fst kvs')"
    and "\<And>f n. f \<in> set fs \<Longrightarrow> field_name f = Some n \<Longrightarrow> map_of kvs n = map_of kvs' n"
  shows "convertHostArg rt (VDict (text_dict kvs)) T = convertHostArg rt (VDict (text_dict kvs')) T"
  using assms by (rule struct_keys_irrelevant)

lemma struct_fields_example:
  "convertHostArg no_reflect (VDict (text_dict [(''a'', VInt64 1), (''b'', VNil)])) (TStruct [fld ''a'' (TInt Int64)])
   = convertHostArg no_reflect (VDict (text_dict [(''a'', VInt64 1)])) (TStruct [fld ''a'' (TInt Int64)])"
  by (rule struct_fields [OF underlying.simps(8)]) (auto simp: field_name_def)

text \<open>
  C22: A reflected host function is called exactly when the number of arguments fits its parameters, every argument
  converts to its parameter type and keywords come only to a function that takes them; it then gets the context if
  it wants one, the converted arguments in order, and the keywords; a panic in it becomes an error.  Otherwise the
  call fails the same whatever the function does, also when the conversion of an argument panics.
\<close>

theorem host_call:
  assumes "funs i = Reflected f" and "kwargsMap kwargs = Inr kw"
  shows "(\<forall>rs. accepted rt f args kw rs \<longrightarrow> callHost rt funs (HFunc i doc) args kwargs
       = Result (case gf_call f (full_arguments rt f rs kw) of
           Inl p \<Rightarrow> Inl (host_panic rt p) | Inr values \<Rightarrow> call_results rt f values))
    \<and> ((\<nexists>rs. accepted rt f args kw rs) \<longrightarrow> (\<exists>e. \<forall>g.
         callHost rt (funs(i := Reflected (f\<lparr>gf_call := g\<rparr>))) (HFunc i doc) args kwargs = Result (Inl e)))"
  using assms call_reflected_accepted call_reflected_refused [of rt f args kw]
  by (auto simp: callHost_def)

theorem host_call_witness:
  "callHost no_reflect (\<lambda>i. Reflected add_one) (HFunc 0 None) [VInt64 7] [] = Result (Inr (VInt64 8))"
proof -
  have "accepted no_reflect add_one [VInt64 7] [] [(TInt Int64, DHost (VInt64 7))]"
    by (simp add: accepted_def add_one_def accepts_kwargs_def positional_params_def rest_params_def takes_context_def
        implements_named_def no_reflect_def convert_assignable)
  with host_call [of "\<lambda>i. Reflected add_one" 0 add_one "[]" "[]" no_reflect "[VInt64 7]" None] show ?thesis
    by (simp add: kwargsMap_def add_one_def full_arguments_def call_results_def implements_error_def implements_named_def
        accepts_kwargs_def rest_params_def takes_context_def no_reflect_def)
qed

text \<open>
  \<open>callHost\<close> panics exactly when the function is a \<open>HostFunc\<close>, whose call is not covered by the recovery,
  and that function panics; the panics of reflected functions are errors.
\<close>

lemma host_panics:
  "callHost rt funs fn args kwargs = Panic p \<longleftrightarrow>
     (\<exists>i doc g kw. (fn = HFunc i doc \<or> fn = HAsync (HFunc i doc)) \<and> kwargsMap kwargs = Inr kw
        \<and> funs i = HostFunc g \<and> g args kw = Panic p)"
  by (cases fn) (auto simp: callHost_def Let_def split: sum.splits host_func.splits Value.splits)

section \<open>Workers\<close>

text \<open>
  C16: When the worker writes print events and then its answer, the exchange hands it the request, passes every
  printed segment to the callback in order, consumes exactly these frames, and returns the answer; if
  the callback fails, its first error instead, with the worker alive and in step.
\<close>

theorem exchange_answers:
  assumes "\<not> wk_dead w" and "writeFrame (request_encode pw req) = Inr out"
    and "xe_cancel env = None" and "xe_write env = None" and "wk_stdout w @ xe_output env = concat fs @ f @ rest"
    and "list_all2 (\<lambda>f e. \<exists>b. writeFrame b = Inr f \<and> decodeEvent pw b = Inr e \<and> ce_kind e = Some eventPrint) fs es"
    and "writeFrame b = Inr f" and "decodeEvent pw b = Inr ev" and "ce_kind ev \<noteq> Some eventPrint"
  shows "\<exists>w'. process_exchange pw pt env req cb c w
      = (case fold_res (print_one cb) (concat (map (decodePrintSegments pw \<circ> ce_body) es)) c of
           (c', None) \<Rightarrow> (Inr ev, c', w') | (c', Some e) \<Rightarrow> (Inl e, c', w'))
    \<and> wk_stdin w' = wk_stdin w @ out \<and> wk_stdout w' = rest
    \<and> (ce_kind ev \<noteq> Some eventFatal \<longrightarrow> \<not> wk_dead w')"
  using assms by (rule exchange_delivers)

definition fresh_worker :: worker where
  "fresh_worker = \<lparr>wk_dead = False, wk_stdin = [], wk_stdout = [], wk_stderr = [], wk_checkouts = 0, wk_timeout = 0, wk_exit = []\<rparr>"

definition print_body :: bytes where
  "print_body = fieldMessage pw_ref 1 (fieldMessage pw_ref 1 (fieldVarint pw_ref 1 1 @ fieldString pw_ref 2 ''hi''))"

definition ok_body :: bytes where "ok_body = fieldMessage pw_ref 10 []"

definition frame_of :: "bytes \<Rightarrow> bytes" where "frame_of b = put_uint32 (of_nat (length b)) @ b"

lemma small_uvarint: "n < 128 \<Longrightarrow> length (uvarint n) = 1"
  by (simp add: uvarint.simps [of n])

lemma small_field: "t < 16 \<Longrightarrow> length b < 128 \<Longrightarrow> length (fieldBytes pw_ref t b) = 2 + length b"
  by (simp add: fieldBytes_def pw_ref_def small_uvarint)

lemma small_varint: "t < 16 \<Longrightarrow> length (fieldVarint pw_ref t 1) = 2"
  by (simp add: fieldVarint_def pw_ref_def small_uvarint)

lemma small_frames: "writeFrame print_body = Inr (frame_of print_body)" "writeFrame ok_body = Inr (frame_of ok_body)"
  "writeFrame (request_encode pw_ref (request reqReset [])) = Inr (frame_of (request_encode pw_ref (request reqReset [])))"
  by (simp_all add: writeFrame_def maxFrameLen_def frame_of_def print_body_def ok_body_def fieldMessage_def fieldString_def
    request_encode_def small_field small_varint)

lemma print_decoded: "decodeEvent pw_ref print_body = Inr (no_event\<lparr>ce_kind := Some eventPrint,
    ce_body := fieldMessage pw_ref 1 (fieldVarint pw_ref 1 1 @ fieldString pw_ref 2 ''hi'')\<rparr>)"
  by (simp add: decodeEvent_def print_body_def parse_result_def ref.message_parse event_field_def no_event_def event_kinds_def)

lemma ok_decoded: "decodeEvent pw_ref ok_body = Inr (no_event\<lparr>ce_kind := Some eventOK\<rparr>)"
  by (simp add: decodeEvent_def ok_body_def parse_result_def ref.message_parse event_field_def no_event_def event_kinds_def)

lemma print_segments: "decodePrintSegments pw_ref (fieldMessage pw_ref 1 (fieldVarint pw_ref 1 1 @ fieldString pw_ref 2 ''hi''))
    = [\<lparr>pe_Stream = 1, pe_Text = ''hi''\<rparr>]"
  by (simp add: decodePrintSegments_def decodePrint_def ref.message_parse)

theorem exchange_answers_witness:
  "\<exists>w'. process_exchange pw_ref (\<lambda>n. []) \<lparr>xe_cancel = None, xe_write = None, xe_output = frame_of print_body @ frame_of ok_body\<rparr>
      (request reqReset []) CollectString_Write \<lparr>cs_output = [], cs_bytes = 0, cs_max = 3, cs_failed = None\<rparr> fresh_worker
    = (Inr (no_event\<lparr>ce_kind := Some eventOK\<rparr>), \<lparr>cs_output = ''hi'', cs_bytes = 2, cs_max = 3, cs_failed = None\<rparr>, w')
    \<and> wk_stdout w' = [] \<and> \<not> wk_dead w'"
proof -
  let ?env = "\<lparr>xe_cancel = None, xe_write = None, xe_output = frame_of print_body @ frame_of ok_body\<rparr>"
  let ?c = "\<lparr>cs_output = [], cs_bytes = 0, cs_max = 3, cs_failed = None\<rparr>"
  let ?e = "no_event\<lparr>ce_kind := Some eventPrint,
    ce_body := fieldMessage pw_ref 1 (fieldVarint pw_ref 1 1 @ fieldString pw_ref 2 ''hi'')\<rparr>"
  have prints: "list_all2 (\<lambda>f e. \<exists>b. writeFrame b = Inr f \<and> decodeEvent pw_ref b = Inr e \<and> ce_kind e = Some eventPrint)
      [frame_of print_body] [?e]"
    using small_frames(1) print_decoded by auto
  have "\<not> wk_dead fresh_worker" "wk_stdout fresh_worker @ xe_output ?env = concat [frame_of print_body] @ frame_of ok_body @ []"
    "ce_kind (no_event\<lparr>ce_kind := Some eventOK\<rparr>) \<noteq> Some eventPrint" "xe_cancel ?env = None" "xe_write ?env = None"
    by (simp_all add: fresh_worker_def)
  from exchange_answers [OF this(1) small_frames(3) this(4,5,2) prints small_frames(2) ok_decoded this(3),
      of "\<lambda>n. []" CollectString_Write ?c]
  show ?thesis by (auto simp: print_segments print_one_def CollectString_Write_def simp del: One_nat_def)
qed

text \<open>
  C30: An exchange fails in one of two ways.  Either with a \<open>CrashedError\<close>, and the worker is dead for good:
  every later exchange fails without reading or writing.  Or the worker lives: then its output was a row of print events and
  an answer, and the error is the one that the print callback returned for one of the segments printed.
\<close>

theorem exchange_failures:
  assumes "process_exchange pw pt env req cb c w = (Inl e, c', w')"
  shows "(crashed e \<and> wk_dead w'
      \<and> (\<forall>env' req' c. process_exchange pw pt env' req' cb c w' = (Inl not_running, c, w')))
    \<or> (\<not> wk_dead w' \<and> (\<exists>ps. answered pw (wk_stdout w @ xe_output env) ps \<and> fold_res (print_one cb) ps c = (c', Some e)))"
  using exchange_failure [OF assms] by (auto simp: exchange_dead)

theorem exchange_failures_witness:
  "\<exists>e w'. process_exchange pw_ref (\<lambda>n. []) \<lparr>xe_cancel = Some Canceled, xe_write = None, xe_output = []\<rparr> (request reqReset [])
      CollectString_Write \<lparr>cs_output = [], cs_bytes = 0, cs_max = 3, cs_failed = None\<rparr> fresh_worker
    = (Inl e, \<lparr>cs_output = [], cs_bytes = 0, cs_max = 3, cs_failed = None\<rparr>, w') \<and> crashed e \<and> wk_dead w'"
proof -
  let ?c = "\<lparr>cs_output = [], cs_bytes = 0, cs_max = 3, cs_failed = None\<rparr>"
  obtain e w' where x: "process_exchange pw_ref (\<lambda>n. []) \<lparr>xe_cancel = Some Canceled, xe_write = None, xe_output = []\<rparr>
      (request reqReset []) CollectString_Write ?c fresh_worker = (Inl e, ?c, w')" "wk_dead w'"
    by (simp add: process_exchange_def small_frames fresh_worker_def read_answer.simps readFrame_def ReadFull_def killUnlocked_def)
  from exchange_failures [OF x(1)] x show ?thesis by blast
qed

section \<open>The pool\<close>

text \<open>
  C5: In every state of a pool, whatever checkouts, sessions, releases and closings interleave, each worker ever
  started is in exactly one place: idle, held by one goroutine, or dead.  At most \<open>MaxProcesses\<close> workers are
  checked out, and at most as many idle.
\<close>

theorem pool_accounts:
  assumes "pool_reachable (p, as)"
  shows "distinct (po_idle p @ concat (map held as) @ po_dead p)
    \<and> set (po_idle p @ concat (map held as) @ po_dead p) = {0..<po_started p}
    \<and> length (filter holds_slot as) \<le> capacity p \<and> length (po_idle p) \<le> capacity p"
  using workers_accounted [OF assms] by simp

theorem pool_accounts_witness:
  "distinct (po_idle used_pool @ concat (map held [Deciding 0 True]) @ po_dead used_pool)"
  using pool_accounts [OF reach_deciding] by blast

text \<open>
  A session that \<open>Checkout\<close> hands out is in an initial state of the session theorems: its budgets are not
  negative, nothing is pending and nothing was sent.
\<close>

lemma checkout_start:
  assumes "Checkout_options pw uc options = Inr x" and "Checkout_worker pw pt po x answer = Inr s"
  shows "reachable pw pt h (world s [] [])"
  using assms by (rule Checkout_reachable)

lemma checkout_start_example:
  "\<exists>x s. Checkout_options pw_ref ascii_tables [] = Inr x
    \<and> Checkout_worker pw_ref (\<lambda>n. []) small_options x (\<lambda>r. Inr (no_event\<lparr>ce_kind := Some eventOK\<rparr>)) = Inr s
    \<and> reachable pw_ref (\<lambda>n. []) [] (world s [] [])"
proof -
  obtain x where x: "Checkout_options pw_ref ascii_tables [] = Inr x" "co_AssertMessageAnnotations (fst x) = VNil"
    by (simp add: Checkout_options_def no_checkout_options_def Let_def TypeCheckFormat_wire_def check_modules_def
      encodeOSPolicy_def policy_datetime_def policy_timezone_def policy_sleep_def policy_random_def policy_process_time_def
      word_sless_alt go_div_def Millisecond_def)
  moreover obtain s where "Checkout_worker pw_ref (\<lambda>n. []) small_options x (\<lambda>r. Inr (no_event\<lparr>ce_kind := Some eventOK\<rparr>)) = Inr s"
    using x(2) by (cases x) (auto simp: Checkout_worker_def normalizeAnnotations_def no_event_def)
  ultimately show ?thesis using checkout_start by blast
qed

text \<open>A checkout with the default options from a pool whose one worker is idle and answers with \<open>OK\<close>.\<close>

definition ok_event :: child_event where "ok_event = no_event\<lparr>ce_kind := Some eventOK\<rparr>"

definition small_checkout :: "((go_error + nat \<times> session) \<times> pool) option" where
  "small_checkout = Checkout pw_ref (\<lambda>n. []) ascii_tables [] None SlotFree 0
     \<lparr>ps_stdin = None, ps_stdout = None, ps_stderr = None, ps_start = None\<rparr> (\<lambda>r. Inr ok_event) small_pool"

definition checked_out :: pool where
  "checked_out = count_checkout 0 (small_pool\<lparr>po_slots := 1, po_idle := []\<rparr>)"

lemma small_checkout_result:
  "\<exists>s. small_checkout = Some (Inr (0, s), checked_out) \<and> \<not> se_closed s \<and> \<not> se_inTurn s \<and> se_pending s = None \<and> se_released s = None"
proof -
  obtain x where x: "Checkout_options pw_ref ascii_tables [] = Inr x" "co_AssertMessageAnnotations (fst x) = VNil"
    by (simp add: Checkout_options_def no_checkout_options_def Let_def TypeCheckFormat_wire_def check_modules_def
      encodeOSPolicy_def policy_datetime_def policy_timezone_def policy_sleep_def policy_random_def policy_process_time_def
      word_sless_alt go_div_def Millisecond_def)
  have p: "po_slots small_pool = 0" "po_idle small_pool = [0]" "\<not> po_closed small_pool"
    by (simp_all add: small_pool_def new_pool_def)
  obtain s where s: "Checkout_worker pw_ref (\<lambda>n. []) (po_options small_pool) x (\<lambda>r. Inr ok_event) = Inr s"
    and new: "\<not> se_closed s" "\<not> se_inTurn s" "se_pending s = None" "se_released s = None"
    using x(2)
    by (cases x) (auto simp: Checkout_worker_def normalizeAnnotations_def ok_event_def no_event_def Checkout_session_def
      new_session_def Let_def)
  have "small_checkout = Some (Inr (0, s), checked_out)"
    using x(1) s p
    by (simp add: small_checkout_def Checkout_def Checkout_wait_def take_slot_def small_capacity Checkout_start_def take_idle_def
      Checkout_finish_def checked_out_def)
  with new show ?thesis by blast
qed

lemma small_reachable: "pool_reachable (small_pool, [])"
  by (rule pool_reachable.start [OF new_small_pool])

text \<open>
  C6: A whole \<open>Checkout\<close>, successful or not, is a run of the steps of one goroutine in \<open>Pool_Steps\<close>: it ends
  with the goroutine using the worker of the session, or with nothing.  So all that is shown of the interleaved
  pool holds for the code's handler.
\<close>

theorem checkout_refines:
  assumes "Checkout pw pt uc options ctxErr choice timeout ps answer p = Some (r, p')"
  shows "pool_step\<^sup>*\<^sup>* (p, as) (p', case r of Inl e \<Rightarrow> as | Inr (w, s) \<Rightarrow> Using w # as)"
  using assms by (rule Checkout_run)

theorem checkout_refines_witness: "pool_step\<^sup>*\<^sup>* (small_pool, []) (checked_out, [Using 0])"
proof -
  obtain s where "small_checkout = Some (Inr (0, s), checked_out)" using small_checkout_result by blast
  from checkout_refines [OF this [unfolded small_checkout_def], of "[]"] show ?thesis by simp
qed

text \<open>
  C23: A checkout that fails, at whatever point, gives back its slot and leaves no additional worker alive.  One
  that succeeds has taken one slot and a live worker that is neither idle nor held by anybody else, and its session is an
  initial state of the session theorems.
\<close>

theorem checkout_effect:
  assumes "pool_reachable (p, as)" and "Checkout pw pt uc options ctxErr choice timeout ps answer p = Some (r, p')"
  shows "case r of
      Inl e \<Rightarrow> po_slots p' = po_slots p \<and> live_workers p' \<subseteq> live_workers p
    | Inr (w, s) \<Rightarrow> po_slots p' = po_slots p + 1 \<and> w \<in> live_workers p' \<and> w \<notin> set (po_idle p')
        \<and> w \<notin> set (concat (map held as)) \<and> reachable pw pt h (world s [] [])"
  using assms by (rule Checkout_effect)

theorem checkout_effect_witness:
  "\<exists>s. small_checkout = Some (Inr (0, s), checked_out) \<and> 0 \<in> live_workers checked_out
    \<and> reachable pw_ref (\<lambda>n. []) [] (world s [] [])"
proof -
  obtain s where s: "small_checkout = Some (Inr (0, s), checked_out)" using small_checkout_result by blast
  from checkout_effect [OF small_reachable this [unfolded small_checkout_def], of "[]"] s show ?thesis by auto
qed



text \<open>
  C35: Once a pool is closed with nothing idle and no worker on its way back, no worker outlives its last user:
  when every goroutine has ended, all workers ever started are dead.
\<close>

theorem closed_pool_dies:
  assumes "pool_reachable x" and "shut x" and "pool_step\<^sup>*\<^sup>* x (p, [])"
  shows "set (po_dead p) = {0..<po_started p}"
  using assms by (rule shut_all_dead)

theorem closed_pool_dies_witness:
  "set (po_dead (kill 0 (forget 0 (used_pool\<lparr>po_closed := True\<rparr>)))) = {0..<po_started (kill 0 (forget 0 (used_pool\<lparr>po_closed := True\<rparr>)))}"
proof (rule closed_pool_dies)
  let ?p = "used_pool\<lparr>po_closed := True\<rparr>"
  have "pool_reachable (?p, [Draining, Deciding 0 True])"
    by (rule pool_reachable.step [OF reach_deciding pool_step.close]) (simp add: Pool_Close_begin_def used_pool_sel)
  then show "pool_reachable (?p, [Deciding 0 True])"
    by (rule reach_end) (simp add: activity_step.drained used_pool_sel)
  show "shut (?p, [Deciding 0 True])" by (simp add: shut_def used_pool_sel)
  have "release_decide 0 True ?p = (False, forget 0 ?p)" by (simp add: release_decide_def)
  then have "pool_step (?p, [] @ Deciding 0 True # []) (kill 0 (forget 0 ?p), [] @ [] @ [])"
    by (intro pool_step.act activity_step.dropped)
  then show "pool_step\<^sup>*\<^sup>* (?p, [Deciding 0 True]) (kill 0 (forget 0 ?p), [])" by simp
qed

text \<open>
  C37: Between the halves of a release other goroutines can come.  If \<open>Close\<close> runs there, the worker ends idle and
  alive in a closed pool, with nothing left to stop it.  If a checkout runs there, a pool of one
  process has two.
\<close>

theorem pool_races:
  "(\<exists>p. pool_reachable (p, []) \<and> po_closed p \<and> po_idle p = [0] \<and> po_dead p = [])
    \<and> (\<exists>p as. pool_reachable (p, as) \<and> capacity p = 1 \<and> length (po_idle p @ concat (map held as)) = 2)"
  by (intro conjI close_leaks release_overshoots)

section \<open>Installation and the lookup of the executable\<close>

text \<open>A Linux machine whose server has the archive, and nothing installed.\<close>

definition linux_artifact :: artifact where
  "linux_artifact = projr (runtimeArtifactFor ''linux'' ''amd64'')"

definition linux_env :: os_env where
  "linux_env = \<lparr>os_goos = ''linux'', os_goarch = ''amd64'', os_cwd = Inr ''/home/me'', os_userCache = Inr ''/home/me/.cache'',
     os_getenv = (\<lambda>_. []), os_lookPath = Inl (plain_error ''not found''), os_fault = (\<lambda>_. None), os_random = (\<lambda>_. ''7''),
     os_sha256 = (\<lambda>b. if b = ''tgz'' then ra_archiveSHA256 linux_artifact else ra_binarySHA256 linux_artifact),
     os_untar = (\<lambda>_ _. Inr [TarEntry ''package/package.json'' CHR ''0'' 2 ''{}'' None, TarEntry ''package/monty'' CHR ''0'' 3 ''ELF'' None]),
     os_request = (\<lambda>_. None),
     os_response = (\<lambda>_. Inr \<lparr>rp_status = 200, rp_statusText = ''200 OK'', rp_body = ''tgz'', rp_broken = None\<rparr>),
     os_lock_text = ''pid=1''\<rparr>"

definition linux_cache :: string where "linux_cache = ''/home/me/.cache/monty-go''"

definition no_files :: system where
  "no_files = \<lparr>w_files = Map.empty, w_calls = 0,
     w_attempts = [\<lparr>at_open = None, at_until = 0, at_now = 0, at_age = None, at_remove = None, at_done = None\<rparr>]\<rparr>"

lemma linux_cache_dir: "resolveRuntimeCacheDir linux_env (io_CacheDir no_install_options) = Inr linux_cache"
  by (simp add: resolveRuntimeCacheDir_def no_install_options_def linux_env_def linux_cache_def Abs_path_def clean_def
    path_elems_def push_elem_def render_def)

lemma linux_artifact_simps:
  "ra_goos linux_artifact = ''linux''" "ra_goarch linux_artifact = ''amd64''" "ra_member linux_artifact = ''package/monty''"
  "take 16 (ra_binarySHA256 linux_artifact) = ''d36ff64238568cd0''"
  by (simp_all add: linux_artifact_def runtimeArtifactFor_def runtimeArtifacts_def)

text \<open>The target, as the list of its elements.\<close>

lemma linux_target:
  "runtimeBinaryPath linux_cache linux_artifact = render [''home'', ''me'', ''.cache'', ''monty-go'', ''runtime'', ''v1.2.0'',
     ''linux-amd64'', ''d36ff64238568cd0'', ''monty'']"
  by (simp add: runtimeBinaryPath_def linux_artifact_simps join_def clean_def path_elems_def push_elem_def linux_cache_def
    RuntimeVersion_def)

lemma linux_ready:
  "no_faults linux_env" "serves linux_env linux_artifact" "fresh_names linux_env target (w_files no_files)"
  "fst (acquireInstallLock (os_goos linux_env = ''windows'') path None (w_attempts no_files)) = Locked"
proof -
  show "no_faults linux_env" by (simp add: no_faults_def linux_env_def)
  show "fresh_names linux_env target (w_files no_files)" by (simp add: fresh_names_def linux_env_def no_files_def)
  show "fst (acquireInstallLock (os_goos linux_env = ''windows'') path None (w_attempts no_files)) = Locked"
    by (simp add: no_files_def)
  have "expected_archive linux_env linux_artifact ''tgz''"
    unfolding expected_archive_def
    by (intro conjI exI [of _ "[(''package/package.json'', CHR ''0'', 2, ''{}'', None)]"] exI [of _ "CHR ''0''"]
        exI [of _ "''ELF''"] exI [of _ "[]"])
      (simp_all add: linux_artifact_simps linux_env_def equal_fold_def maxRuntimeArchiveSize_def maxRuntimeBinarySize_def)
  then show "serves linux_env linux_artifact" by (simp add: serves_def linux_env_def)
qed

text \<open>
  C7: Whatever fails on the way, \<open>installRuntime\<close> returns a path only when the file there is regular,
  executable and has the SHA-256 of the artifact.  On every outcome, the target itself is as before, gone, or such a file: a
  partial or unverified download never gets there.  Beside it only the lock file and temporary files of the same directory
  are touched.
\<close>

theorem install_verified:
  assumes "installRuntime env option1 a w = (r, w')" and "resolveRuntimeCacheDir env (io_CacheDir option1) = Inr c"
    and "target = runtimeBinaryPath c a"
  shows "(\<forall>path. r = Installed (Inr path) \<longrightarrow> path = target \<and> valid_at env a w' path)
    \<and> (w_files w' target = w_files w target \<or> w_files w' target = None \<or> valid_at env a w' target)
    \<and> (\<forall>p. p \<noteq> target \<and> p \<noteq> target @ ''.lock'' \<and> \<not> temporary target p \<longrightarrow> w_files w' p = w_files w p)"
  using installRuntime_result [OF assms] unfolding install_effect_def by blast

theorem install_verified_witness:
  "\<exists>path w'. installRuntime linux_env no_install_options linux_artifact no_files = (Installed (Inr path), w')
    \<and> path = runtimeBinaryPath linux_cache linux_artifact \<and> valid_at linux_env linux_artifact w' path
    \<and> w_files w' ''/etc/passwd'' = None"
proof -
  let ?target = "runtimeBinaryPath linux_cache linux_artifact"
  obtain w' where run: "installRuntime linux_env no_install_options linux_artifact no_files = (Installed (Inr ?target), w')"
    using installRuntime_ok [OF linux_ready(1) linux_cache_dir refl linux_ready(2-4)] by blast
  have other: "''/etc/passwd'' \<noteq> ?target" "''/etc/passwd'' \<noteq> ?target @ ''.lock''" "\<not> temporary ?target ''/etc/passwd''"
  proof -
    have dir: "dir_of ?target = render [''home'', ''me'', ''.cache'', ''monty-go'', ''runtime'', ''v1.2.0'',
       ''linux-amd64'', ''d36ff64238568cd0'']"
      unfolding linux_target dir_of_def by (simp add: path_elems_render good_elem_def)
    show "\<not> temporary ?target ''/etc/passwd''" unfolding temporary_def dir by (simp add: in_dir_def render_def)
  qed (simp_all add: linux_target render_def)
  show ?thesis using install_verified [OF run linux_cache_dir refl] run other by (auto simp: no_files_def)
qed

text \<open>
  C18: When the system calls work, the server has the expected archive and the lock is obtained, the
  installation succeeds: the verified executable is at the target and nothing is left of what it wrote on the way.  When the
  verified executable was there before and is not replaced by force, no file changes; else the lock file is gone at the
  end, and every other file is as before.
\<close>

theorem install_succeeds:
  assumes "no_faults env" and "resolveRuntimeCacheDir env (io_CacheDir option1) = Inr c" and "target = runtimeBinaryPath c a"
    and "serves env a" and "fresh_names env target (w_files w)"
    and "fst (acquireInstallLock (os_goos env = ''windows'') (target @ ''.lock'') None (w_attempts w)) = Locked"
  shows "\<exists>w'. installRuntime env option1 a w = (Installed (Inr target), w') \<and> valid_at env a w' target
    \<and> (\<forall>p. p \<noteq> target \<and> p \<noteq> target @ ''.lock'' \<longrightarrow> w_files w' p = w_files w p)
    \<and> (if \<not> io_Force option1 \<and> valid_at env a w target then w_files w' = w_files w
       else w_files w' (target @ ''.lock'') = None)"
  using assms by (rule installRuntime_ok)

theorem install_succeeds_witness:
  "\<exists>w' f. installRuntime linux_env no_install_options linux_artifact no_files
        = (Installed (Inr (runtimeBinaryPath linux_cache linux_artifact)), w')
    \<and> w_files w' (runtimeBinaryPath linux_cache linux_artifact) = Some f \<and> fi_executable f
    \<and> w_files w' (runtimeBinaryPath linux_cache linux_artifact @ ''.lock'') = None"
proof -
  have "\<not> valid_at linux_env linux_artifact no_files (runtimeBinaryPath linux_cache linux_artifact)"
    by (simp add: valid_at_def no_files_def)
  with install_succeeds [OF linux_ready(1) linux_cache_dir refl linux_ready(2-4)] show ?thesis
    by (auto simp: valid_at_def valid_runtime_def linux_env_def)
qed




text \<open>
  The path from which \<open>New\<close> starts its workers, found or installed, is the one of \<open>exec.LookPath\<close>, the
  absolute path of a regular executable file, or an installed runtime with the SHA-256 of the artifact for this platform.
\<close>

lemma pool_executable:
  assumes "New_executable env cancelled o1 cacheDir w = (Installed (Inr path), w')"
  shows "os_lookPath env = Inr path
    \<or> (\<exists>p f. Abs_path env p = Inr path \<and> w_files w p = Some f \<and> fi_regular f \<and> (os_goos env = ''windows'' \<or> fi_executable f))
    \<or> (\<exists>a. currentRuntimeArtifact env = Inr a \<and> valid_at env a w' path)"
  using New_executable_cases [OF assms] unfolding found_def executable_at_def by blast

lemma pool_executable_example:
  "\<exists>path w'. New_executable linux_env None (default_options\<lparr>pl_AutoInstall := True\<rparr>) [] no_files = (Installed (Inr path), w')
    \<and> (\<exists>a. currentRuntimeArtifact linux_env = Inr a \<and> valid_at linux_env a w' path)"
proof -
  obtain r w1 where find: "findBinary linux_env [] [] no_files = (r, w1)" by fastforce
  have artifact: "currentRuntimeArtifact linux_env = Inr linux_artifact"
    by (simp add: currentRuntimeArtifact_def linux_env_def linux_artifact_def runtimeArtifactFor_def runtimeArtifacts_def)
  have "searches linux_env (findBinary linux_env [] [])" by (rule findBinary_searches)
  then have w1: "w_files w1 = w_files no_files" and none: "\<not> found linux_env no_files q \<Longrightarrow> r \<noteq> Inr q" for q
    using find unfolding searches_def by blast+
  have "\<not> found linux_env no_files q" for q
    by (simp add: found_def executable_at_def no_files_def) (simp add: linux_env_def)
  with none obtain e where r: "r = Inl e" by (cases r) auto
  have "w_attempts w1 = w_attempts no_files"
    using no_tries_find [of linux_env "[]" "[]"] find unfolding no_tries_def by (metis snd_conv)
  with w1 linux_ready have "fresh_names linux_env target (w_files w1)"
    "fst (acquireInstallLock (os_goos linux_env = ''windows'') path None (w_attempts w1)) = Locked" for target path by simp_all
  from installRuntime_ok [OF linux_ready(1) linux_cache_dir refl linux_ready(2) this] obtain w2 where
    "installRuntime linux_env no_install_options linux_artifact w1 = (Installed (Inr (runtimeBinaryPath linux_cache linux_artifact)), w2)"
    by blast
  then have "Install linux_env None [no_install_options] w1 = (Installed (Inr (runtimeBinaryPath linux_cache linux_artifact)), w2)"
    using artifact by (simp add: Install_def)
  then have "New_executable linux_env None (default_options\<lparr>pl_AutoInstall := True\<rparr>) [] no_files
      = (Installed (Inr (runtimeBinaryPath linux_cache linux_artifact)), w2)"
    using find r by (simp add: New_executable_def default_options_def no_install_options_def)
  moreover from pool_executable [OF this] have "\<exists>a. currentRuntimeArtifact linux_env = Inr a
      \<and> valid_at linux_env a w2 (runtimeBinaryPath linux_cache linux_artifact)"
    by (simp add: no_files_def) (simp add: linux_env_def)
  ultimately show ?thesis by blast
qed

text \<open>
  C33: As long as no process has found a lock older than five minutes, at most one process holds the
  installation lock, however many try, crash, give up or release it in any order.
\<close>

theorem lock_exclusive:
  assumes "lock_reachable s" and "\<not> lk_seenStale s" and "lk_pc s i = Holding" and "lk_pc s j = Holding"
  shows "i = j"
  using assms by (rule exclusive_lock)

definition held_lock :: lock_state where
  "held_lock = at_pc 1 Blocked (at_pc 0 Holding ((start_lock 0)\<lparr>lk_lock := Some (0, 0)\<rparr>))"

lemma held_reachable: "lock_reachable held_lock"
proof -
  have "process_step 0 (start_lock 0) (at_pc 0 Holding ((start_lock 0)\<lparr>lk_lock := Some (0, lk_clock (start_lock 0))\<rparr>))"
    by (rule process_step.create) (simp_all add: start_lock_def)
  then have "lock_reachable (at_pc 0 Holding ((start_lock 0)\<lparr>lk_lock := Some (0, 0)\<rparr>))"
    using lock_reachable.process [OF lock_reachable.start] by (simp add: start_lock_def)
  then show ?thesis unfolding held_lock_def
    by (rule lock_reachable.process [OF _ process_step.exists_already]) (simp_all add: at_pc_def start_lock_def)
qed

theorem lock_exclusive_witness:
  "lock_reachable held_lock \<and> {j. lk_pc held_lock j = Holding} = {0}"
proof -
  have holds: "lk_pc held_lock 0 = Holding" "\<not> lk_seenStale held_lock"
    by (simp_all add: held_lock_def at_pc_def start_lock_def)
  then have "j = 0" if "lk_pc held_lock j = Holding" for j
    using lock_exclusive [OF held_reachable holds(2) that holds(1)] by simp
  with holds(1) held_reachable show ?thesis by auto
qed

text \<open>
  C17: The lock is never lost.  From every state that processes can reach, crashes included, a
  process that still wants the lock can take it by its own steps alone, at the latest one step of the clock after the lock in
  its way is five minutes old.
\<close>

theorem lock_progresses:
  assumes "lock_reachable s" and "lk_pc s i \<in> {Trying, Blocked, Breaking, Sleeping}"
  shows "\<exists>s'. (solo i)\<^sup>*\<^sup>* s s' \<and> lk_pc s' i = Holding \<and> lk_clock s' \<le> lk_clock s + installLockStaleAfter + 1"
  using assms by (rule lock_can_be_taken)

theorem lock_progresses_witness:
  "\<exists>s'. (solo 1)\<^sup>*\<^sup>* held_lock s' \<and> lk_pc s' 1 = Holding \<and> lk_clock s' \<le> 300000000001"
  using lock_progresses [OF held_reachable, of 1]
  by (simp add: held_lock_def at_pc_def start_lock_def installLockStaleAfter_def)

text \<open>
  C34: The loop of \<open>acquireInstallLock\<close> does not wait for ever on a lock that was left behind: when its age grows by
  the 50 milliseconds of each sleep, the lock is removed and taken after at most 6002 further tries.
\<close>

theorem lock_wait:
  assumes "left_behind as" and "6002 < length as"
  shows "fst (acquireInstallLock retryPermission path None as) = Locked"
  using assms by (rule left_behind_locked)

definition left_behind_tries :: "attempt list" where
  "left_behind_tries = map (\<lambda>n. \<lparr>at_open = if n \<le> 6001 then Some Exist else None, at_until = 0, at_now = 0,
     at_age = Some (50 * 10 ^ 6 * int n), at_remove = None, at_done = None\<rparr>) [0..<6003]"

theorem lock_wait_witness: "fst (acquireInstallLock False ''monty.lock'' None left_behind_tries) = Locked"
proof (rule lock_wait)
  show "left_behind left_behind_tries"
    by (auto simp: left_behind_def left_behind_tries_def breaks_stale_def installLockStaleAfter_def)
qed (simp add: left_behind_tries_def)

text \<open>
  C20: The sequential \<open>writeRuntimeBinary\<close>, wherever it fails, is a run of the steps of one process in
  \<open>Install_Race\<close>: from its start to its end, with the same files at the end.
\<close>

theorem write_refines:
  assumes "writeRuntimeBinary env data broken n target a w = (r, w')" and "rc_stage s i = Fresh" and "rc_files s = w_files w"
    and "\<forall>x. in_dir (dir_of target) (''.monty-runtime-'' @ x) \<notin> rc_used s"
  shows "\<exists>s'. (install_step env a target i)\<^sup>*\<^sup>* s s' \<and> rc_stage s' i = Ended \<and> rc_files s' = w_files w'"
  using writeRuntimeBinary_runs [OF assms] by (simp add: runs_def)

definition no_installers :: installers where
  "no_installers = \<lparr>rc_files = Map.empty, rc_used = {}, rc_stage = (\<lambda>i. Fresh)\<rparr>"

lemma linux_write:
  "\<exists>w'. writeRuntimeBinary linux_env ''ELF'' None 3 (runtimeBinaryPath linux_cache linux_artifact) linux_artifact no_files = (Inr (), w')
    \<and> puts linux_env linux_artifact (runtimeBinaryPath linux_cache linux_artifact) Map.empty w'"
  using writeRuntimeBinary_ok [of linux_env "runtimeBinaryPath linux_cache linux_artifact" linux_artifact "''ELF''" no_files]
    linux_ready(1) target_in_dir [of linux_cache linux_artifact]
  by (simp add: install_target_def maxRuntimeBinarySize_def no_files_def equal_fold_def linux_env_def)

theorem write_refines_witness:
  "\<exists>s' f. (install_step linux_env linux_artifact (runtimeBinaryPath linux_cache linux_artifact) 0)\<^sup>*\<^sup>* no_installers s'
    \<and> rc_stage s' 0 = Ended \<and> rc_files s' (runtimeBinaryPath linux_cache linux_artifact) = Some f
    \<and> valid_runtime linux_env linux_artifact f"
proof -
  obtain w' where w': "writeRuntimeBinary linux_env ''ELF'' None 3 (runtimeBinaryPath linux_cache linux_artifact) linux_artifact
      no_files = (Inr (), w')" "puts linux_env linux_artifact (runtimeBinaryPath linux_cache linux_artifact) Map.empty w'"
    using linux_write by blast
  from write_refines [OF w'(1), of no_installers 0] w'(2) show ?thesis
    by (auto simp: no_installers_def no_files_def puts_def valid_at_def)
qed

text \<open>
  C8: However many processes install at once, with or without the lock, whatever their system calls
  answer and wherever they crash: the target is at every moment as it was before, absent, or a regular executable file with
  the expected SHA-256.
\<close>

theorem concurrent_installs:
  assumes "install_reachable env a (runtimeBinaryPath cacheDir a) before s"
  shows "rc_files s (runtimeBinaryPath cacheDir a) = before (runtimeBinaryPath cacheDir a)
    \<or> rc_files s (runtimeBinaryPath cacheDir a) = None
    \<or> (\<exists>f. rc_files s (runtimeBinaryPath cacheDir a) = Some f \<and> valid_runtime env a f)"
  using concurrent_target [OF assms] by (simp add: target_ok_def)

text \<open>One process has written anything at all, another has crashed before its target was written.\<close>

theorem concurrent_installs_witness:
  "\<exists>s tmp. install_reachable linux_env linux_artifact (runtimeBinaryPath linux_cache linux_artifact) Map.empty s
    \<and> rc_stage s 0 = Ended \<and> rc_stage s 1 = Written tmp ''junk''
    \<and> rc_files s tmp = Some (empty_file\<lparr>fi_content := ''junk''\<rparr>)
    \<and> rc_files s (runtimeBinaryPath linux_cache linux_artifact) = None"
proof -
  let ?target = "runtimeBinaryPath linux_cache linux_artifact"
  let ?reach = "install_reachable linux_env linux_artifact ?target Map.empty"
  define tmp where "tmp = in_dir (dir_of ?target) (''.monty-runtime-'' @ ''7'')"
  have temp: "temporary ?target tmp" unfolding tmp_def by (rule temporaries(1))
  have ne: "tmp \<noteq> ?target"
    using temporary_not_target [OF _ temp] target_in_dir [of linux_cache linux_artifact] by (auto simp: install_target_def)
  let ?s1 = "go_to 0 Ended (rc_files no_installers) no_installers"
  let ?s2 = "go_to 1 (Created tmp) ((rc_files ?s1)(tmp \<mapsto> empty_file)) (?s1\<lparr>rc_used := insert tmp (rc_used ?s1)\<rparr>)"
  let ?s3 = "go_to 1 (Written tmp ''junk'')
    ((rc_files ?s2)(tmp \<mapsto> empty_file\<lparr>fi_content := fi_content empty_file @ ''junk''\<rparr>)) ?s2"
  have "?reach no_installers" unfolding no_installers_def by (rule install_reachable.start)
  then have "?reach ?s1" by (rule install_reachable.step [OF _ install_step.crash])
  then have "?reach ?s2"
    by (rule install_reachable.step [OF _ install_step.create]) (simp_all add: go_to_def no_installers_def temp)
  then have reach: "?reach ?s3"
    by (rule install_reachable.step [OF _ install_step.wrote]) (simp_all add: go_to_def)
  show ?thesis
    using concurrent_installs [OF reach] reach ne
    by (intro exI [of _ ?s3] exI [of _ tmp]) (simp add: go_to_def no_installers_def empty_file_def)
qed

end
